theory Spec2Isabelle
  imports Complex_Main "HOL-Library.Word"
begin

section \<open>The video processor of the SegFormer demo: data model\<close>

text \<open>
  The component \<^verbatim>\<open>VideoProcessor\<close> samples a video at fixed times, sends each sampled
  frame to a segmentation predictor, stores the results in a cache ordered by time, and
  during playback draws the cached result nearest to the playback position over the video.

  Numbers. A JavaScript number is an IEEE 754 double. In the sampling scheduler of
  \<^verbatim>\<open>startAnalysis\<close> the rounding of doubles decides how many frames are sampled, at which
  times, and which progress is reported: there every operation is modelled with its
  rounding (subsection Double arithmetic). The playback side (the nearest-frame scan, the
  letterbox geometry) is modelled over \<^typ>\<open>real\<close> with exact arithmetic. \<^verbatim>\<open>Math.floor\<close>,
  \<^verbatim>\<open>Math.ceil\<close> and \<^verbatim>\<open>Math.round\<close> are \<^const>\<open>floor\<close>, \<^const>\<open>ceiling\<close> and \<^const>\<open>round\<close>
  (round half up). The two non-finite values the code can meet are written out where they
  occur: \<^verbatim>\<open>Infinity\<close> as the initial \<^verbatim>\<open>minDiff\<close> and a duration that is \<^verbatim>\<open>NaN\<close> or infinite.
  Pixel dimensions of DOM elements are naturals; bytes of typed arrays are \<^typ>\<open>8 word\<close>.
\<close>

subsection \<open>types.ts\<close>

text \<open>A mask is a \<^verbatim>\<open>RawImage\<close>: width, height and one byte of membership per pixel.\<close>

record RawImage =
  img_width :: nat
  img_height :: nat
  img_data :: "8 word list"

text \<open>\<^verbatim>\<open>mask: any\<close> may be absent (the compositor tests \<^verbatim>\<open>!mask\<close>): an option.\<close>

record SegmentedClass =
  label :: string
  score :: real
  mask_img :: "RawImage option"

record CachedFrame =
  timestamp :: real
  odResult :: "SegmentedClass list"

subsection \<open>Nearest-frame lookup (the scan in \<^verbatim>\<open>playbackLoop\<close>)\<close>

text \<open>
  \<^verbatim>\<open>
    let closestFrame = cache[0];
    let minDiff = Infinity;
    for (const frame of cache) {
        const diff = Math.abs(frame.timestamp - currentTime);
        if (diff < minDiff) { minDiff = diff; closestFrame = frame; }
    }
  \<close>
  \<^verbatim>\<open>minDiff\<close> is a number or \<^verbatim>\<open>Infinity\<close>: \<open>None\<close> stands for \<^verbatim>\<open>Infinity\<close>.
  \<^verbatim>\<open>cache[0]\<close> of an empty array is \<^verbatim>\<open>undefined\<close>: \<open>None\<close>.
\<close>

definition lt_minDiff :: "real \<Rightarrow> real option \<Rightarrow> bool" where
  "lt_minDiff diff minDiff = (case minDiff of None \<Rightarrow> True | Some m \<Rightarrow> diff < m)"

fun nearest_scan ::
  "real \<Rightarrow> CachedFrame list \<Rightarrow> CachedFrame option \<times> real option
     \<Rightarrow> CachedFrame option \<times> real option" where
  "nearest_scan currentTime [] (closestFrame, minDiff) = (closestFrame, minDiff)"
| "nearest_scan currentTime (frame # rest) (closestFrame, minDiff) =
     (let diff = \<bar>timestamp frame - currentTime\<bar> in
      if lt_minDiff diff minDiff
      then nearest_scan currentTime rest (Some frame, Some diff)
      else nearest_scan currentTime rest (closestFrame, minDiff))"

definition closestFrame_of :: "CachedFrame list \<Rightarrow> real \<Rightarrow> CachedFrame option" where
  "closestFrame_of cache currentTime =
     fst (nearest_scan currentTime cache
            (case cache of [] \<Rightarrow> None | frame0 # _ \<Rightarrow> Some frame0, None))"

subsection \<open>Double arithmetic\<close>

text \<open>
  A double holds a signed significand of 53 bits and a binary exponent. The result of
  \<^verbatim>\<open>+\<close>, \<^verbatim>\<open>*\<close> and \<^verbatim>\<open>/\<close> on doubles, and the value of a decimal literal, is the exact value
  rounded to the nearest double, a tie going to the double whose significand is even.

  \<open>binade x\<close> is the exponent \<open>b\<close> with \<open>2 ^ b \<le> \<bar>x\<bar> < 2 ^ (b + 1)\<close>, found by stepping up
  from 0 or down from -1. The doubles of that binade are the integer multiples of
  \<open>2 ^ (b - 52)\<close>; \<open>rne\<close> rounds the quotient to the nearest integer, a tie to the even one,
  and \<open>rd x\<close> is the double nearest to \<open>x\<close>. The exponent is not bounded here: overflow to
  \<^verbatim>\<open>Infinity\<close> (beyond about 1.8e308) and the subnormal numbers (below about 2.3e-308) are
  left out.
\<close>

definition rne :: "real \<Rightarrow> int" where
  "rne y =
     (let f = \<lfloor>y\<rfloor> in
      if y - of_int f < 1 / 2 then f
      else if 1 / 2 < y - of_int f then f + 1
      else if even f then f else f + 1)"

function binade_up :: "real \<Rightarrow> int \<Rightarrow> int" where
  "binade_up a k = (if 2 powi (k + 1) \<le> a then binade_up a (k + 1) else k)"
  by pat_completeness auto
termination
proof (relation "measure (\<lambda>(a, k). nat (\<lfloor>log 2 a\<rfloor> - k))")
  show "wf (measure (\<lambda>(a :: real, k :: int). nat (\<lfloor>log 2 a\<rfloor> - k)))" by simp
next
  fix a :: real and k :: int
  assume le: "2 powi (k + 1) \<le> a"
  have "(0::real) < 2 powi (k + 1)" by (rule zero_less_power_int) simp
  then have pos: "0 < a" using le by (rule less_le_trans)
  have p: "(2::real) powr real_of_int (k + 1) = 2 powi (k + 1)"
    by (rule powr_real_of_int') simp_all
  have "real_of_int (k + 1) \<le> log 2 a"
    using le pos by (simp only: le_log_iff p)
  then have "k + 1 \<le> \<lfloor>log 2 a\<rfloor>" by (simp only: le_floor_iff)
  then have "nat (\<lfloor>log 2 a\<rfloor> - (k + 1)) < nat (\<lfloor>log 2 a\<rfloor> - k)" by linarith
  then show "((a, k + 1), (a, k)) \<in> measure (\<lambda>(a, k). nat (\<lfloor>log 2 a\<rfloor> - k))"
    unfolding in_measure by (simp only: prod.case)
qed

function binade_down :: "real \<Rightarrow> int \<Rightarrow> int" where
  "binade_down a k = (if 0 < a \<and> a < 2 powi k then binade_down a (k - 1) else k)"
  by pat_completeness auto
termination
proof (relation "measure (\<lambda>(a, k). nat (k - \<lfloor>log 2 a\<rfloor>))")
  show "wf (measure (\<lambda>(a :: real, k :: int). nat (k - \<lfloor>log 2 a\<rfloor>)))" by simp
next
  fix a :: real and k :: int
  assume a: "0 < a \<and> a < 2 powi k"
  have p: "(2::real) powr real_of_int k = 2 powi k"
    by (rule powr_real_of_int') simp_all
  have "log 2 a < real_of_int k"
    using a by (simp add: log_less_iff p)
  then have "\<lfloor>log 2 a\<rfloor> < k" by (simp only: floor_less_iff)
  then have "nat (k - 1 - \<lfloor>log 2 a\<rfloor>) < nat (k - \<lfloor>log 2 a\<rfloor>)" by linarith
  then show "((a, k - 1), (a, k)) \<in> measure (\<lambda>(a, k). nat (k - \<lfloor>log 2 a\<rfloor>))"
    unfolding in_measure by (simp only: prod.case)
qed

text \<open>The equations of the two searches are used one step at a time.\<close>

declare binade_up.simps [simp del] binade_down.simps [simp del]

definition binade :: "real \<Rightarrow> int" where
  "binade x = (if 1 \<le> \<bar>x\<bar> then binade_up \<bar>x\<bar> 0 else binade_down \<bar>x\<bar> (- 1))"

definition rd :: "real \<Rightarrow> real" where
  "rd x = (if x = 0 then 0
           else of_int (rne (x / 2 powi (binade x - 52))) * 2 powi (binade x - 52))"

definition fadd :: "real \<Rightarrow> real \<Rightarrow> real" where "fadd x y = rd (x + y)"
definition fmul :: "real \<Rightarrow> real \<Rightarrow> real" where "fmul x y = rd (x * y)"
definition fdiv :: "real \<Rightarrow> real \<Rightarrow> real" where "fdiv x y = rd (x / y)"

subsection \<open>DOM elements and component state\<close>

text \<open>\<^verbatim>\<open>video.duration\<close> is \<^verbatim>\<open>NaN\<close> before metadata is loaded, \<^verbatim>\<open>Infinity\<close> for a stream,
  and a number of seconds otherwise.\<close>

datatype js_duration = NaN | Seconds real | Infinity

record HTMLVideoElement =
  paused :: bool
  currentTime :: real
  duration :: js_duration
  clientWidth :: nat
  clientHeight :: nat
  videoWidth :: nat
  videoHeight :: nat

text \<open>The media element reports \<^verbatim>\<open>ended\<close> when the position is at the end of the media
  (the element has \<^verbatim>\<open>loop={false}\<close>), and an assignment to \<^verbatim>\<open>currentTime\<close> seeks to the
  assigned position kept within the media. Every seek is taken to complete (the
  \<^verbatim>\<open>seeked\<close> event arrives), so the awaits of the source are sequential steps here.\<close>

definition ended :: "HTMLVideoElement \<Rightarrow> bool" where
  "ended v = (case duration v of Seconds d \<Rightarrow> d \<le> currentTime v | _ \<Rightarrow> False)"

definition seek :: "real \<Rightarrow> HTMLVideoElement \<Rightarrow> HTMLVideoElement" where
  "seek t v =
     v\<lparr>currentTime := (case duration v of Seconds d \<Rightarrow> max 0 (min t d) | _ \<Rightarrow> max 0 t)\<rparr>"

text \<open>One \<^verbatim>\<open>drawImage(helper, 0, 0, sw, sh, dx, dy, dw, dh)\<close> on the overlay: the RGBA bytes of
  the helper canvas, its size, the destination rectangle, and \<^verbatim>\<open>imageSmoothingEnabled\<close>.\<close>

record drawImage_call =
  src_pixels :: "8 word list"
  src_w :: nat
  src_h :: nat
  dst_x :: real
  dst_y :: real
  dst_w :: real
  dst_h :: real
  smoothing :: bool

text \<open>The overlay canvas: its size, whether \<^verbatim>\<open>getContext('2d')\<close> gives a context, and the
  draw calls since it was last cleared.\<close>

record OverlayCanvas =
  ov_width :: nat
  ov_height :: nat
  ov_ctx :: bool
  ov_drawn :: "drawImage_call list"

text \<open>The helper (scratch) canvas: size, context, RGBA bytes, and a count of how often its
  size was assigned (an assignment to \<^verbatim>\<open>width\<close> or \<^verbatim>\<open>height\<close> reallocates a canvas).\<close>

record HelperCanvas =
  hp_width :: nat
  hp_height :: nat
  hp_ctx :: bool
  hp_pixels :: "8 word list"
  hp_resizes :: nat

datatype AnalysisStatus = idle | analyzing | complete

datatype log_entry = Analysis_failed real | Play_failed

text \<open>The state of the component: its refs and its React state. \<open>rafRequests\<close> counts the
  pending \<^verbatim>\<open>requestAnimationFrame(playbackLoop)\<close> callbacks; \<open>sampled\<close> lists the times at
  which a frame was captured and sent to the predictor, \<open>progressLog\<close> the values passed to
  \<^verbatim>\<open>setProgress\<close>, \<open>errorLog\<close> the calls of \<^verbatim>\<open>console.error\<close>, each in order.\<close>

record VideoProcessor =
  visibleVideo :: "HTMLVideoElement option"
  overlayCanvas :: "OverlayCanvas option"
  maskHelperCanvas :: "HelperCanvas option"
  isPlaying :: bool
  analysisStatus :: AnalysisStatus
  progress :: int
  activeClasses :: "string list"
  cache :: "CachedFrame list"
  rafRequests :: nat
  sampled :: "real list"
  progressLog :: "int list"
  errorLog :: "log_entry list"

text \<open>The three constants of the component. The sampling interval is the double of the
  literal \<^verbatim>\<open>0.2\<close>, which is a little above one fifth; the cap is the double 15.\<close>

definition CROP_PERCENT :: real where "CROP_PERCENT = 0.20"
definition ANALYSIS_INTERVAL :: real where "ANALYSIS_INTERVAL = rd 0.2"
definition MAX_DEMO_DURATION :: real where "MAX_DEMO_DURATION = 15"

subsection \<open>\<^verbatim>\<open>drawMaskToContext\<close>\<close>

text \<open>A colour is \<^verbatim>\<open>[r, g, b, a]\<close>. The image data is a \<^verbatim>\<open>Uint8ClampedArray\<close>: a store
  clamps the number to a byte, and a store beyond the end of the array does nothing
  (as \<open>xs[i := v]\<close> does).\<close>

type_synonym color = "nat \<times> nat \<times> nat \<times> nat"

definition clamp8 :: "nat \<Rightarrow> 8 word" where
  "clamp8 n = of_nat (min 255 n)"

text \<open>The body of the loop over \<^verbatim>\<open>maskData\<close>, at index \<open>i\<close>.\<close>

definition paint_pixel :: "8 word list \<Rightarrow> color \<Rightarrow> nat \<Rightarrow> 8 word list \<Rightarrow> 8 word list" where
  "paint_pixel maskData color i data =
     (case color of (r, g, b, a) \<Rightarrow>
        if maskData ! i > 0 then
          (let offset = i * 4 in
           data[offset := clamp8 r, offset + 1 := clamp8 g,
                offset + 2 := clamp8 b, offset + 3 := clamp8 a])
        else data)"

definition paint_mask :: "8 word list \<Rightarrow> color \<Rightarrow> 8 word list \<Rightarrow> 8 word list" where
  "paint_mask maskData color data = fold (paint_pixel maskData color) [0..<length maskData] data"

text \<open>\<^verbatim>\<open>createImageData(w, h)\<close>: transparent black, four bytes a pixel. (A browser refuses a
  width or height of 0 with an exception; a mask without pixels is an empty image here.)\<close>

definition createImageData :: "nat \<Rightarrow> nat \<Rightarrow> 8 word list" where
  "createImageData w h = replicate (4 * (w * h)) 0"

definition drawMaskToContext ::
  "RawImage option \<Rightarrow> color \<Rightarrow> OverlayCanvas \<Rightarrow> real \<Rightarrow> real \<Rightarrow> real \<Rightarrow> real
     \<Rightarrow> HelperCanvas option \<Rightarrow> OverlayCanvas \<times> HelperCanvas option" where
  "drawMaskToContext mask' color targetCtx targetX targetY targetW targetH helperRef =
     (case mask' of None \<Rightarrow> (targetCtx, helperRef)
      | Some m \<Rightarrow>
     (case helperRef of None \<Rightarrow> (targetCtx, helperRef)
      | Some helper0 \<Rightarrow>
        (let helper =
               (if hp_width helper0 \<noteq> img_width m \<or> hp_height helper0 \<noteq> img_height m
                then helper0\<lparr>hp_width := img_width m, hp_height := img_height m,
                              hp_pixels := createImageData (img_width m) (img_height m),
                              hp_resizes := hp_resizes helper0 + 1\<rparr>
                else helper0)
         in if \<not> hp_ctx helper then (targetCtx, Some helper)
            else
              (let data = paint_mask (img_data m) color
                            (createImageData (img_width m) (img_height m));
                   helper' = helper\<lparr>hp_pixels := data\<rparr>
               in (targetCtx\<lparr>ov_drawn := ov_drawn targetCtx @
                      [\<lparr>src_pixels = data, src_w = img_width m, src_h = img_height m,
                        dst_x = targetX, dst_y = targetY, dst_w = targetW, dst_h = targetH,
                        smoothing = False\<rparr>]\<rparr>,
                   Some helper')))))"

subsection \<open>\<^verbatim>\<open>renderSegmentationOverlay\<close>\<close>

text \<open>\<^verbatim>\<open>label.toLowerCase()\<close> on the letters of ASCII, the alphabet of the model's labels:
  \<^verbatim>\<open>A\<close> to \<^verbatim>\<open>Z\<close> become \<^verbatim>\<open>a\<close> to \<^verbatim>\<open>z\<close>, every other character is kept.\<close>

definition toLowerCase_char :: "char \<Rightarrow> char" where
  "toLowerCase_char c =
     (let n = (of_char c :: nat) in if 65 \<le> n \<and> n \<le> 90 then char_of (n + 32) else c)"

definition toLowerCase :: "string \<Rightarrow> string" where
  "toLowerCase s = map toLowerCase_char s"

text \<open>\<^verbatim>\<open>Set.add\<close>, and \<^verbatim>\<open>Array.from\<close> of a set: the elements in the order they were first
  added.\<close>

definition Set_add :: "string \<Rightarrow> string list \<Rightarrow> string list" where
  "Set_add x xs = (if x \<in> set xs then xs else xs @ [x])"

text \<open>The letterboxing block. \<^verbatim>\<open>containerW / containerH\<close> with a container of height 0 is
  \<^verbatim>\<open>Infinity\<close> (greater than every ratio) or, for width 0 too, \<^verbatim>\<open>NaN\<close> (greater than
  nothing); the video's dimensions are nonzero where the block is reached.\<close>

definition containerRatio_gt :: "nat \<Rightarrow> nat \<Rightarrow> real \<Rightarrow> bool" where
  "containerRatio_gt containerW containerH videoRatio =
     (if containerH = 0 then containerW \<noteq> 0
      else real containerW / real containerH > videoRatio)"

text \<open>The result is \<open>(displayedW, displayedH, offsetX, offsetY)\<close>.\<close>

definition displayRect :: "nat \<Rightarrow> nat \<Rightarrow> nat \<Rightarrow> nat \<Rightarrow> real \<times> real \<times> real \<times> real" where
  "displayRect containerW containerH videoW videoH =
     (let videoRatio = real videoW / real videoH in
      if containerRatio_gt containerW containerH videoRatio then
        (let displayedH = real containerH;
             displayedW = real containerH * videoRatio
         in (displayedW, displayedH, (real containerW - displayedW) / 2, 0))
      else
        (let displayedW = real containerW;
             displayedH = real containerW / videoRatio
         in (displayedW, displayedH, 0, (real containerH - displayedH) / 2)))"

text \<open>The colour mapping of one result: the colour (or \<^verbatim>\<open>null\<close>) and the set of found
  classes after it.\<close>

definition colorMapping :: "string \<Rightarrow> string list \<Rightarrow> color option \<times> string list" where
  "colorMapping lbl foundClasses =
     (if lbl = ''traffic light'' \<or> lbl = ''traffic_light'' then
        (Some (255, 230, 0, 200), Set_add ''TRAFFIC LIGHT'' foundClasses)
      else if lbl \<in> set [''car'', ''truck'', ''bus'', ''motorcycle'', ''bicycle''] then
        (Some (0, 255, 100, 160), Set_add ''VEHICLE'' foundClasses)
      else (None, foundClasses))"

text \<open>The callback of \<^verbatim>\<open>results.forEach\<close>, on the found classes, the overlay and the helper.\<close>

definition forEach_item ::
  "real \<Rightarrow> real \<Rightarrow> real \<Rightarrow> real \<Rightarrow> SegmentedClass
     \<Rightarrow> string list \<times> OverlayCanvas \<times> HelperCanvas option
     \<Rightarrow> string list \<times> OverlayCanvas \<times> HelperCanvas option" where
  "forEach_item offsetX displayedCropTopY displayedW displayedCropHeight item st =
     (case st of (foundClasses, ctx, helperRef) \<Rightarrow>
        (case colorMapping (toLowerCase (label item)) foundClasses of
           (None, foundClasses') \<Rightarrow> (foundClasses', ctx, helperRef)
         | (Some color, foundClasses') \<Rightarrow>
             (case drawMaskToContext (mask_img item) color ctx
                     offsetX displayedCropTopY displayedW displayedCropHeight helperRef of
                (ctx', helperRef') \<Rightarrow> (foundClasses', ctx', helperRef'))))"

definition renderSegmentationOverlay ::
  "SegmentedClass list \<Rightarrow> OverlayCanvas \<Rightarrow> HTMLVideoElement \<Rightarrow> real
     \<Rightarrow> VideoProcessor \<Rightarrow> VideoProcessor" where
  "renderSegmentationOverlay results overlayCanvas0 videoElement cropPercent s =
     (if \<not> ov_ctx overlayCanvas0 then s
      else
        (let containerW = clientWidth videoElement;
             containerH = clientHeight videoElement;
             resized =
               (if ov_width overlayCanvas0 \<noteq> containerW \<or> ov_height overlayCanvas0 \<noteq> containerH
                then overlayCanvas0\<lparr>ov_width := containerW, ov_height := containerH,
                                     ov_drawn := []\<rparr>
                else overlayCanvas0);
             cleared = resized\<lparr>ov_drawn := []\<rparr>;
             videoW = videoWidth videoElement;
             videoH = videoHeight videoElement
         in if videoW = 0 \<or> videoH = 0 then s\<lparr>overlayCanvas := Some cleared\<rparr>
            else
              (case displayRect containerW containerH videoW videoH of
                 (displayedW, displayedH, offsetX, offsetY) \<Rightarrow>
                   (let displayedCropHeight = displayedH * (1 - cropPercent);
                        displayedCropTopY = offsetY + (displayedH * cropPercent)
                    in (case fold (forEach_item offsetX displayedCropTopY displayedW
                                     displayedCropHeight)
                               results ([], cleared, maskHelperCanvas s) of
                          (foundClasses, ctx, helperRef) \<Rightarrow>
                            s\<lparr>overlayCanvas := Some ctx, maskHelperCanvas := helperRef,
                              activeClasses := foundClasses\<rparr>)))))"

subsection \<open>\<^verbatim>\<open>playbackLoop\<close> and \<^verbatim>\<open>togglePlay\<close>\<close>

text \<open>One tick of the playback loop. \<^verbatim>\<open>closestFrame.odResult\<close> is an array, which is
  truthy also when empty.\<close>

definition playbackLoop :: "VideoProcessor \<Rightarrow> VideoProcessor" where
  "playbackLoop s =
     (case visibleVideo s of None \<Rightarrow> s\<lparr>isPlaying := False\<rparr>
      | Some video \<Rightarrow>
        if paused video \<or> ended video then s\<lparr>isPlaying := False\<rparr>
        else if currentTime video \<ge> MAX_DEMO_DURATION then
          s\<lparr>visibleVideo := Some (seek 0 video), rafRequests := rafRequests s + 1\<rparr>
        else
          (let s' =
                 (case closestFrame_of (cache s) (currentTime video) of None \<Rightarrow> s
                  | Some closestFrame \<Rightarrow>
                      (case overlayCanvas s of None \<Rightarrow> s
                       | Some canvas \<Rightarrow>
                           renderSegmentationOverlay (odResult closestFrame) canvas video
                             CROP_PERCENT s))
           in s'\<lparr>rafRequests := rafRequests s' + 1\<rparr>))"

text \<open>\<^verbatim>\<open>togglePlay\<close> reads \<^verbatim>\<open>isPlaying\<close> from the render that created it, not the state
  that \<^verbatim>\<open>setIsPlaying\<close> has updated since: the value it sees is the argument
  \<open>isPlaying_seen\<close>. \<open>playResolves\<close> says whether the promise of \<^verbatim>\<open>video.play()\<close>
  resolves or is rejected.\<close>

definition togglePlay :: "bool \<Rightarrow> bool \<Rightarrow> VideoProcessor \<Rightarrow> VideoProcessor" where
  "togglePlay playResolves isPlaying_seen s =
     (case visibleVideo s of None \<Rightarrow> s
      | Some video \<Rightarrow>
        if isPlaying_seen then
          s\<lparr>visibleVideo := Some (video\<lparr>paused := True\<rparr>), isPlaying := False,
            rafRequests := rafRequests s - 1\<rparr>
        else if playResolves then
          playbackLoop (s\<lparr>visibleVideo := Some (video\<lparr>paused := False\<rparr>), isPlaying := True\<rparr>)
        else s\<lparr>errorLog := errorLog s @ [Play_failed]\<rparr>)"

subsection \<open>\<^verbatim>\<open>startAnalysis\<close>\<close>

text \<open>The predictor is outside the component: \<open>predict t\<close> is the result of the call made
  for the frame captured at sampling time \<open>t\<close>, \<open>None\<close> when the call throws.\<close>

type_synonym predictor = "real \<Rightarrow> SegmentedClass list option"

definition seek_video :: "real \<Rightarrow> VideoProcessor \<Rightarrow> VideoProcessor" where
  "seek_video t s = s\<lparr>visibleVideo := map_option (seek t) (visibleVideo s)\<rparr>"

text \<open>
  \<^verbatim>\<open>
    const effectiveDuration = Math.min(video.duration, MAX_DEMO_DURATION);
    const steps = Math.ceil(effectiveDuration / ANALYSIS_INTERVAL) + 1;
    let currentTime = 0;  let frameCount = 0;
    while (currentTime <= effectiveDuration + 0.1) {
        const nextTime = currentTime + ANALYSIS_INTERVAL;
        ... capture the frame ...
        if (nextTime <= effectiveDuration + 0.1) video.currentTime = nextTime;
        try { const segRes = await predict(frame);
              cache.push({ timestamp: currentTime, odResult: segRes }); }
        catch (e) { console.error("Analysis failed at", currentTime, e); }
        frameCount++;
        setProgress(Math.min(100, Math.round((frameCount / steps) * 100)));
        currentTime = nextTime;
    }
  \<close>
  The sums, the quotients and the product are operations on doubles, the literal \<^verbatim>\<open>0.1\<close>
  is the double \<open>rd 0.1\<close>. The comparison and \<^verbatim>\<open>Math.round\<close>, \<^verbatim>\<open>Math.ceil\<close>, \<^verbatim>\<open>Math.min\<close> are
  exact on doubles. \<^verbatim>\<open>frameCount\<close> and \<^verbatim>\<open>steps\<close> are whole numbers far below \<open>2 ^ 53\<close>, held
  exactly.

  One pass of the body of the loop, entered with \<^verbatim>\<open>currentTime\<close> and \<^verbatim>\<open>frameCount\<close>:
  capture, start the next seek, predict and push (or log), count, report.
\<close>

definition analysisStep ::
  "predictor \<Rightarrow> real \<Rightarrow> int \<Rightarrow> real \<Rightarrow> nat \<Rightarrow> VideoProcessor \<Rightarrow> VideoProcessor" where
  "analysisStep predict effectiveDuration steps t frameCount s =
     (let nextTime = fadd t ANALYSIS_INTERVAL;
          s1 = s\<lparr>sampled := sampled s @ [t]\<rparr>;
          s2 = (if nextTime \<le> fadd effectiveDuration (rd 0.1) then seek_video nextTime s1
                else s1);
          s3 = (case predict t of
                  Some segRes \<Rightarrow> s2\<lparr>cache := cache s2 @ [\<lparr>timestamp = t, odResult = segRes\<rparr>]\<rparr>
                | None \<Rightarrow> s2\<lparr>errorLog := errorLog s2 @ [Analysis_failed t]\<rparr>);
          p = min 100 (round (fmul (fdiv (real (frameCount + 1)) (real_of_int steps)) 100))
      in s3\<lparr>progress := p, progressLog := progressLog s3 @ [p]\<rparr>)"

text \<open>The loop. Nothing in its text bounds the number of passes (a sum of doubles stops
  growing once the interval is below half a unit of its last place), so a run that does
  not end has the value \<open>None\<close>.\<close>

partial_function (option) analysisLoop ::
  "predictor \<Rightarrow> real \<Rightarrow> int \<Rightarrow> real \<Rightarrow> nat \<Rightarrow> VideoProcessor \<Rightarrow> VideoProcessor option" where
  "analysisLoop predict effectiveDuration steps t frameCount s =
     (if t \<le> fadd effectiveDuration (rd 0.1) then
        analysisLoop predict effectiveDuration steps (fadd t ANALYSIS_INTERVAL) (frameCount + 1)
          (analysisStep predict effectiveDuration steps t frameCount s)
      else Some s)"

text \<open>The part of \<^verbatim>\<open>startAnalysis\<close> after the guard, for a duration that passed it, in
  two pieces: the pass, from \<^verbatim>\<open>setAnalysisStatus('analyzing')\<close> to the seek back to 0
  after the loop, and the call of \<^verbatim>\<open>togglePlay\<close> that ends it. The capture canvas and its
  crop geometry only shape the predictor's input and are left out. The first wait (for
  the seek to 0) is a step that completes.\<close>

definition analysisPass ::
  "predictor \<Rightarrow> HTMLVideoElement \<Rightarrow> real \<Rightarrow> VideoProcessor \<Rightarrow> VideoProcessor option" where
  "analysisPass predict video effectiveDuration s =
     (let s1 = s\<lparr>analysisStatus := analyzing, isPlaying := False,
                 visibleVideo := Some (video\<lparr>paused := True\<rparr>), cache := []\<rparr>;
          steps = \<lceil>fdiv effectiveDuration ANALYSIS_INTERVAL\<rceil> + 1;
          s2 = seek_video 0 s1
      in map_option (\<lambda>s3. seek_video 0 (s3\<lparr>analysisStatus := complete\<rparr>))
           (analysisLoop predict effectiveDuration steps 0 0 s2))"

definition runAnalysis ::
  "predictor \<Rightarrow> bool \<Rightarrow> bool \<Rightarrow> HTMLVideoElement \<Rightarrow> real \<Rightarrow> VideoProcessor
     \<Rightarrow> VideoProcessor option" where
  "runAnalysis predict playResolves isPlaying_seen video effectiveDuration s =
     map_option (togglePlay playResolves isPlaying_seen)
       (analysisPass predict video effectiveDuration s)"

text \<open>\<^verbatim>\<open>if (!video || !video.duration) return;\<close> is false for a missing element and for
  a duration that is \<^verbatim>\<open>NaN\<close> or 0: the call returns with the state as it was.
  \<^verbatim>\<open>Math.min(video.duration, MAX_DEMO_DURATION)\<close> of an infinite duration is the cap.\<close>

definition startAnalysis ::
  "predictor \<Rightarrow> bool \<Rightarrow> bool \<Rightarrow> VideoProcessor \<Rightarrow> VideoProcessor option" where
  "startAnalysis predict playResolves isPlaying_seen s =
     (case visibleVideo s of None \<Rightarrow> Some s
      | Some video \<Rightarrow>
        (case duration video of
           NaN \<Rightarrow> Some s
         | Seconds d \<Rightarrow>
             if d = 0 then Some s
             else runAnalysis predict playResolves isPlaying_seen video
                    (min d MAX_DEMO_DURATION) s
         | Infinity \<Rightarrow>
             runAnalysis predict playResolves isPlaying_seen video MAX_DEMO_DURATION s))"

subsection \<open>Reading a pixel\<close>

text \<open>The four bytes (red, green, blue, alpha) of pixel \<open>i\<close> of RGBA image data.\<close>

definition rgba_at :: "8 word list \<Rightarrow> nat \<Rightarrow> 8 word \<times> 8 word \<times> 8 word \<times> 8 word" where
  "rgba_at data i = (data ! (i * 4), data ! (i * 4 + 1), data ! (i * 4 + 2), data ! (i * 4 + 3))"

subsection \<open>What one result contributes to the overlay\<close>

text \<open>The image data painted for one result: none for a label outside the colour mapping
  or a result without a mask, else the mask painted in the colour of the label.\<close>

definition painted_pixels :: "SegmentedClass \<Rightarrow> 8 word list list" where
  "painted_pixels item =
     (case fst (colorMapping (toLowerCase (label item)) []) of
        None \<Rightarrow> []
      | Some color \<Rightarrow>
          (case mask_img item of
             None \<Rightarrow> []
           | Some m \<Rightarrow>
               [paint_mask (img_data m) color (createImageData (img_width m) (img_height m))]))"

subsection \<open>Notions used to state the properties of the analysis\<close>

text \<open>The value of \<^verbatim>\<open>currentTime\<close> after \<open>k\<close> passes of the loop: 0, and then the double
  sum of the previous value and the interval. The loop bound of an effective duration.
  \<open>passes e n\<close>: the loop for the effective duration \<open>e\<close> makes exactly \<open>n\<close> passes, the first
  \<open>n\<close> accumulated times are within the bound and the next one is not.\<close>

primrec accumulated :: "nat \<Rightarrow> real" where
  "accumulated 0 = 0"
| "accumulated (Suc k) = fadd (accumulated k) ANALYSIS_INTERVAL"

definition loop_bound :: "real \<Rightarrow> real" where
  "loop_bound effectiveDuration = fadd effectiveDuration (rd 0.1)"

definition passes :: "real \<Rightarrow> nat \<Rightarrow> bool" where
  "passes effectiveDuration n \<longleftrightarrow>
     list_all (\<lambda>k. accumulated k \<le> loop_bound effectiveDuration) [0..<n] \<and>
     \<not> accumulated n \<le> loop_bound effectiveDuration"

text \<open>The cache entry of a sampling time (none when the prediction fails); the step count
  of an effective duration; the progress reported after a number of completed steps.\<close>

definition cached_entry :: "predictor \<Rightarrow> real \<Rightarrow> CachedFrame option" where
  "cached_entry predict t = map_option (\<lambda>segRes. \<lparr>timestamp = t, odResult = segRes\<rparr>) (predict t)"

definition total_steps :: "real \<Rightarrow> int" where
  "total_steps effectiveDuration = \<lceil>fdiv effectiveDuration ANALYSIS_INTERVAL\<rceil> + 1"

definition reported :: "int \<Rightarrow> nat \<Rightarrow> int" where
  "reported steps frameCount =
     min 100 (round (fmul (fdiv (real frameCount) (real_of_int steps)) 100))"

section \<open>Example inputs\<close>

text \<open>A playing video of 20 seconds at position 0.6, and a component state around it with
  an empty cache; the instances of the theorems below are taken at these.\<close>

definition example_video :: HTMLVideoElement where
  "example_video =
     \<lparr>paused = False, currentTime = 0.6, duration = Seconds 20,
      clientWidth = 1280, clientHeight = 720, videoWidth = 1920, videoHeight = 1080\<rparr>"

definition example_state :: VideoProcessor where
  "example_state =
     \<lparr>visibleVideo = Some example_video,
      overlayCanvas = Some \<lparr>ov_width = 300, ov_height = 150, ov_ctx = True, ov_drawn = []\<rparr>,
      maskHelperCanvas = Some \<lparr>hp_width = 640, hp_height = 640, hp_ctx = True,
                               hp_pixels = [], hp_resizes = 0\<rparr>,
      isPlaying = False, analysisStatus = idle, progress = 0, activeClasses = [],
      cache = [], rafRequests = 0, sampled = [], progressLog = [], errorLog = []\<rparr>"

text \<open>Three cached frames, one second apart, without results.\<close>

definition example_frames :: "CachedFrame list" where
  "example_frames =
     [\<lparr>timestamp = 0, odResult = []\<rparr>, \<lparr>timestamp = 1, odResult = []\<rparr>,
      \<lparr>timestamp = 2, odResult = []\<rparr>]"

text \<open>The video before its dimensions are known.\<close>

definition example_video_zero :: HTMLVideoElement where
  "example_video_zero = example_video\<lparr>videoWidth := 0\<rparr>"

text \<open>A mask of 2 by 2 pixels with two members (one of value 7), three results of which
  the second has a label outside the colour mapping, an overlay canvas of the default
  size, and the helper canvas as the component creates it.\<close>

definition example_mask :: RawImage where
  "example_mask = \<lparr>img_width = 2, img_height = 2, img_data = [255, 0, 0, 7]\<rparr>"

definition example_results :: "SegmentedClass list" where
  "example_results =
     [\<lparr>label = ''Traffic Light'', score = 0.9, mask_img = Some example_mask\<rparr>,
      \<lparr>label = ''pedestrian'', score = 0.8, mask_img = Some example_mask\<rparr>,
      \<lparr>label = ''car'', score = 0.7, mask_img = Some example_mask\<rparr>]"

definition example_canvas :: OverlayCanvas where
  "example_canvas = \<lparr>ov_width = 300, ov_height = 150, ov_ctx = True, ov_drawn = []\<rparr>"

definition example_helper :: HelperCanvas where
  "example_helper = \<lparr>hp_width = 640, hp_height = 640, hp_ctx = True, hp_pixels = [], hp_resizes = 0\<rparr>"

text \<open>The video at the cap and just below it, the state of a tick at the cap, and the
  state of a tick at 14.95 s with two cached frames of which the nearer holds the three
  results.\<close>

definition example_video_at_cap :: HTMLVideoElement where
  "example_video_at_cap = example_video\<lparr>currentTime := 15\<rparr>"

definition example_video_late :: HTMLVideoElement where
  "example_video_late = example_video\<lparr>currentTime := 14.95\<rparr>"

definition example_at_cap :: VideoProcessor where
  "example_at_cap = example_state\<lparr>visibleVideo := Some example_video_at_cap\<rparr>"

definition example_playing :: VideoProcessor where
  "example_playing =
     example_state\<lparr>visibleVideo := Some example_video_late,
                   cache := [\<lparr>timestamp = 14.8, odResult = []\<rparr>,
                             \<lparr>timestamp = 15, odResult = example_results\<rparr>]\<rparr>"

text \<open>The state of a component whose video, at position 0, has a duration of \<open>d\<close>
  seconds.\<close>

definition example_clip :: "real \<Rightarrow> VideoProcessor" where
  "example_clip d =
     example_state\<lparr>visibleVideo := Some (example_video\<lparr>currentTime := 0, duration := Seconds d\<rparr>)\<rparr>"

text \<open>A predictor that throws for the second frame sampled, the one at the sampling
  interval, and finds nothing elsewhere.\<close>

definition example_failing :: predictor where
  "example_failing t = (if t = ANALYSIS_INTERVAL then None else Some [])"

text \<open>The state of a component whose video is a stream without end.\<close>

definition example_stream :: VideoProcessor where
  "example_stream =
     example_state\<lparr>visibleVideo := Some (example_video\<lparr>currentTime := 0, duration := Infinity\<rparr>)\<rparr>"

text \<open>Values of the examples, computed once.\<close>

lemma example_lower:
  "toLowerCase ''Traffic Light'' = ''traffic light''"
  "toLowerCase ''pedestrian'' = ''pedestrian''"
  "toLowerCase ''car'' = ''car''"
  by code_simp+

lemma example_paint:
  "paint_mask [255, 0, 0, 7] (255, 230, 0, 200) (createImageData 2 2)
     = [255, 230, 0, 200, 0, 0, 0, 0, 0, 0, 0, 0, 255, 230, 0, 200]"
  "paint_mask [255, 0, 0, 7] (0, 255, 100, 160) (createImageData 2 2)
     = [0, 255, 100, 160, 0, 0, 0, 0, 0, 0, 0, 0, 0, 255, 100, 160]"
  by code_simp+

lemma example_displayRect: "displayRect 1280 720 1920 1080 = (1280, 720, 0, 0)"
  by (simp add: displayRect_def containerRatio_gt_def Let_def)

section \<open>Nearest-frame lookup\<close>

text \<open>The scan from a finite \<^verbatim>\<open>minDiff\<close>: either nothing in the list is nearer, or the
  result is the first entry of least distance, strictly nearer than all before it.\<close>

lemma nearest_scan_Some:
  "\<exists>c' d'. nearest_scan t xs (c, Some d) = (c', Some d') \<and>
     ((c' = c \<and> d' = d \<and> (\<forall>g\<in>set xs. d \<le> \<bar>timestamp g - t\<bar>)) \<or>
      (\<exists>pre f post. xs = pre @ f # post \<and> c' = Some f \<and> d' = \<bar>timestamp f - t\<bar> \<and> d' < d \<and>
          (\<forall>g\<in>set pre. d' < \<bar>timestamp g - t\<bar>) \<and>
          (\<forall>g\<in>set post. d' \<le> \<bar>timestamp g - t\<bar>)))"
proof (induction xs arbitrary: c d)
  case Nil
  then show ?case by simp
next
  case (Cons x xs)
  show ?case
  proof (cases "\<bar>timestamp x - t\<bar> < d")
    case True
    from Cons.IH[of "Some x" "\<bar>timestamp x - t\<bar>"]
    obtain c' d' where r: "nearest_scan t xs (Some x, Some \<bar>timestamp x - t\<bar>) = (c', Some d')"
      and alt: "(c' = Some x \<and> d' = \<bar>timestamp x - t\<bar> \<and> (\<forall>g\<in>set xs. \<bar>timestamp x - t\<bar> \<le> \<bar>timestamp g - t\<bar>)) \<or>
      (\<exists>pre f post. xs = pre @ f # post \<and> c' = Some f \<and> d' = \<bar>timestamp f - t\<bar> \<and> d' < \<bar>timestamp x - t\<bar> \<and>
          (\<forall>g\<in>set pre. d' < \<bar>timestamp g - t\<bar>) \<and>
          (\<forall>g\<in>set post. d' \<le> \<bar>timestamp g - t\<bar>))"
      by blast
    have step: "nearest_scan t (x # xs) (c, Some d) = (c', Some d')"
      using True r by (simp add: lt_minDiff_def)
    from alt show ?thesis
    proof
      assume a: "c' = Some x \<and> d' = \<bar>timestamp x - t\<bar> \<and> (\<forall>g\<in>set xs. \<bar>timestamp x - t\<bar> \<le> \<bar>timestamp g - t\<bar>)"
      have "x # xs = [] @ x # xs \<and> c' = Some x \<and> d' = \<bar>timestamp x - t\<bar> \<and> d' < d \<and>
          (\<forall>g\<in>set []. d' < \<bar>timestamp g - t\<bar>) \<and>
          (\<forall>g\<in>set xs. d' \<le> \<bar>timestamp g - t\<bar>)"
        using a True by simp
      then show ?thesis using step by blast
    next
      assume "\<exists>pre f post. xs = pre @ f # post \<and> c' = Some f \<and> d' = \<bar>timestamp f - t\<bar> \<and> d' < \<bar>timestamp x - t\<bar> \<and>
          (\<forall>g\<in>set pre. d' < \<bar>timestamp g - t\<bar>) \<and>
          (\<forall>g\<in>set post. d' \<le> \<bar>timestamp g - t\<bar>)"
      then obtain pre f post where b: "xs = pre @ f # post" "c' = Some f" "d' = \<bar>timestamp f - t\<bar>"
         "d' < \<bar>timestamp x - t\<bar>" "\<forall>g\<in>set pre. d' < \<bar>timestamp g - t\<bar>"
          "\<forall>g\<in>set post. d' \<le> \<bar>timestamp g - t\<bar>" by blast
      have "x # xs = (x # pre) @ f # post \<and> c' = Some f \<and> d' = \<bar>timestamp f - t\<bar> \<and> d' < d \<and>
          (\<forall>g\<in>set (x # pre). d' < \<bar>timestamp g - t\<bar>) \<and>
          (\<forall>g\<in>set post. d' \<le> \<bar>timestamp g - t\<bar>)"
        using b True by simp
      then show ?thesis using step by blast
    qed
  next
    case False
    from Cons.IH[of c d]
    obtain c' d' where r: "nearest_scan t xs (c, Some d) = (c', Some d')"
      and alt: "(c' = c \<and> d' = d \<and> (\<forall>g\<in>set xs. d \<le> \<bar>timestamp g - t\<bar>)) \<or>
      (\<exists>pre f post. xs = pre @ f # post \<and> c' = Some f \<and> d' = \<bar>timestamp f - t\<bar> \<and> d' < d \<and>
          (\<forall>g\<in>set pre. d' < \<bar>timestamp g - t\<bar>) \<and>
          (\<forall>g\<in>set post. d' \<le> \<bar>timestamp g - t\<bar>))"
      by blast
    have step: "nearest_scan t (x # xs) (c, Some d) = (c', Some d')"
      using False r by (simp add: lt_minDiff_def)
    from alt show ?thesis
    proof
      assume a: "c' = c \<and> d' = d \<and> (\<forall>g\<in>set xs. d \<le> \<bar>timestamp g - t\<bar>)"
      then have "c' = c \<and> d' = d \<and> (\<forall>g\<in>set (x # xs). d \<le> \<bar>timestamp g - t\<bar>)"
        using False by simp
      then show ?thesis using step by blast
    next
      assume "\<exists>pre f post. xs = pre @ f # post \<and> c' = Some f \<and> d' = \<bar>timestamp f - t\<bar> \<and> d' < d \<and>
          (\<forall>g\<in>set pre. d' < \<bar>timestamp g - t\<bar>) \<and>
          (\<forall>g\<in>set post. d' \<le> \<bar>timestamp g - t\<bar>)"
      then obtain pre f post where b: "xs = pre @ f # post" "c' = Some f" "d' = \<bar>timestamp f - t\<bar>"
         "d' < d" "\<forall>g\<in>set pre. d' < \<bar>timestamp g - t\<bar>"
          "\<forall>g\<in>set post. d' \<le> \<bar>timestamp g - t\<bar>" by blast
      have "x # xs = (x # pre) @ f # post \<and> c' = Some f \<and> d' = \<bar>timestamp f - t\<bar> \<and> d' < d \<and>
          (\<forall>g\<in>set (x # pre). d' < \<bar>timestamp g - t\<bar>) \<and>
          (\<forall>g\<in>set post. d' \<le> \<bar>timestamp g - t\<bar>)"
        using b False by simp
      then show ?thesis using step by blast
    qed
  qed
qed

lemma closestFrame_of_Nil: "closestFrame_of [] t = None"
  by (simp add: closestFrame_of_def)

lemma closestFrame_of_split:
  assumes "frames \<noteq> []"
  shows "\<exists>pre f post. frames = pre @ f # post \<and> closestFrame_of frames t = Some f \<and>
          (\<forall>g\<in>set pre. \<bar>timestamp f - t\<bar> < \<bar>timestamp g - t\<bar>) \<and>
          (\<forall>g\<in>set post. \<bar>timestamp f - t\<bar> \<le> \<bar>timestamp g - t\<bar>)"
proof -
  from assms obtain x xs where c: "frames = x # xs" by (cases frames) auto
  have first: "closestFrame_of frames t = fst (nearest_scan t xs (Some x, Some \<bar>timestamp x - t\<bar>))"
    by (simp add: closestFrame_of_def c lt_minDiff_def)
  from nearest_scan_Some[of t xs "Some x" "\<bar>timestamp x - t\<bar>"]
  obtain c' d' where r: "nearest_scan t xs (Some x, Some \<bar>timestamp x - t\<bar>) = (c', Some d')"
      and alt: "(c' = Some x \<and> d' = \<bar>timestamp x - t\<bar> \<and> (\<forall>g\<in>set xs. \<bar>timestamp x - t\<bar> \<le> \<bar>timestamp g - t\<bar>)) \<or>
      (\<exists>pre f post. xs = pre @ f # post \<and> c' = Some f \<and> d' = \<bar>timestamp f - t\<bar> \<and> d' < \<bar>timestamp x - t\<bar> \<and>
          (\<forall>g\<in>set pre. d' < \<bar>timestamp g - t\<bar>) \<and>
          (\<forall>g\<in>set post. d' \<le> \<bar>timestamp g - t\<bar>))"
    by blast
  from alt show ?thesis
  proof
    assume a: "c' = Some x \<and> d' = \<bar>timestamp x - t\<bar> \<and> (\<forall>g\<in>set xs. \<bar>timestamp x - t\<bar> \<le> \<bar>timestamp g - t\<bar>)"
    have "frames = [] @ x # xs \<and> closestFrame_of frames t = Some x \<and>
          (\<forall>g\<in>set []. \<bar>timestamp x - t\<bar> < \<bar>timestamp g - t\<bar>) \<and>
          (\<forall>g\<in>set xs. \<bar>timestamp x - t\<bar> \<le> \<bar>timestamp g - t\<bar>)"
      using a c first r by simp
    then show ?thesis by blast
  next
    assume "\<exists>pre f post. xs = pre @ f # post \<and> c' = Some f \<and> d' = \<bar>timestamp f - t\<bar> \<and> d' < \<bar>timestamp x - t\<bar> \<and>
          (\<forall>g\<in>set pre. d' < \<bar>timestamp g - t\<bar>) \<and>
          (\<forall>g\<in>set post. d' \<le> \<bar>timestamp g - t\<bar>)"
    then obtain pre f post where b: "xs = pre @ f # post" "c' = Some f" "d' = \<bar>timestamp f - t\<bar>"
         "d' < \<bar>timestamp x - t\<bar>" "\<forall>g\<in>set pre. d' < \<bar>timestamp g - t\<bar>"
          "\<forall>g\<in>set post. d' \<le> \<bar>timestamp g - t\<bar>" by blast
    have "frames = (x # pre) @ f # post \<and> closestFrame_of frames t = Some f \<and>
          (\<forall>g\<in>set (x # pre). \<bar>timestamp f - t\<bar> < \<bar>timestamp g - t\<bar>) \<and>
          (\<forall>g\<in>set post. \<bar>timestamp f - t\<bar> \<le> \<bar>timestamp g - t\<bar>)"
      using b c first r by simp
    then show ?thesis by blast
  qed
qed


lemma closestFrame_of_earliest:
  assumes srt: "sorted_wrt (\<lambda>a b. timestamp a < timestamp b) (pre @ f # post)"
    and pre: "\<forall>g\<in>set pre. \<bar>timestamp f - t\<bar> < \<bar>timestamp g - t\<bar>"
    and g: "g \<in> set (pre @ f # post)" "\<bar>timestamp g - t\<bar> = \<bar>timestamp f - t\<bar>"
  shows "timestamp f \<le> timestamp g"
proof -
  from g(1) consider "g \<in> set pre" | "g = f" | "g \<in> set post" by auto
  then show ?thesis
  proof cases
    case 1
    with pre g(2) show ?thesis by auto
  next
    case 2
    then show ?thesis by simp
  next
    case 3
    from srt have "\<forall>h\<in>set post. timestamp f < timestamp h"
      by (simp add: sorted_wrt_append)
    with 3 show ?thesis by auto
  qed
qed

lemma playbackLoop_empty_cache:
  assumes "cache s = []"
  shows "overlayCanvas (playbackLoop s) = overlayCanvas s \<and>
         maskHelperCanvas (playbackLoop s) = maskHelperCanvas s \<and>
         activeClasses (playbackLoop s) = activeClasses s"
  using assms
  by (simp add: playbackLoop_def closestFrame_of_def Let_def split: option.splits)


text \<open>
  Claim C1. On a playback tick with query time \<open>t\<close>: with an empty cache the lookup
  selects no frame and the tick leaves the overlay, the helper canvas and the active
  classes as they were. With a non-empty cache the lookup selects an entry \<open>f\<close> of least
  distance \<open>\<bar>timestamp f - t\<bar>\<close>: every entry before it in the cache is strictly farther
  and every entry after it at least as far, so of several entries at the least distance
  the first met wins, which in a cache ordered by time is the one of earliest timestamp.
  With entries at 0 and 1.0 only, the query 0.6 selects the entry at 1.0.
\<close>

theorem C1_nearest_frame:
  "closestFrame_of [] t = None \<and>
   (cache s = [] \<longrightarrow>
      overlayCanvas (playbackLoop s) = overlayCanvas s \<and>
      maskHelperCanvas (playbackLoop s) = maskHelperCanvas s \<and>
      activeClasses (playbackLoop s) = activeClasses s) \<and>
   (frames \<noteq> [] \<longrightarrow>
      (\<exists>pre f post. frames = pre @ f # post \<and> closestFrame_of frames t = Some f \<and>
         (\<forall>g\<in>set pre. \<bar>timestamp f - t\<bar> < \<bar>timestamp g - t\<bar>) \<and>
         (\<forall>g\<in>set post. \<bar>timestamp f - t\<bar> \<le> \<bar>timestamp g - t\<bar>) \<and>
         (sorted_wrt (\<lambda>a b. timestamp a < timestamp b) frames \<longrightarrow>
            (\<forall>g\<in>set frames. \<bar>timestamp g - t\<bar> = \<bar>timestamp f - t\<bar>
                 \<longrightarrow> timestamp f \<le> timestamp g)))) \<and>
   closestFrame_of [\<lparr>timestamp = 0, odResult = r0\<rparr>, \<lparr>timestamp = 1.0, odResult = r1\<rparr>] 0.6
     = Some \<lparr>timestamp = 1.0, odResult = r1\<rparr>"
proof (intro conjI impI)
  show "closestFrame_of [] t = None" by (rule closestFrame_of_Nil)
next
  assume "cache s = []"
  then show "overlayCanvas (playbackLoop s) = overlayCanvas s"
    and "maskHelperCanvas (playbackLoop s) = maskHelperCanvas s"
    and "activeClasses (playbackLoop s) = activeClasses s"
    using playbackLoop_empty_cache by blast+
next
  assume ne: "frames \<noteq> []"
  from closestFrame_of_split[OF ne, of t]
  obtain pre f post where d: "frames = pre @ f # post" "closestFrame_of frames t = Some f"
    "\<forall>g\<in>set pre. \<bar>timestamp f - t\<bar> < \<bar>timestamp g - t\<bar>"
    "\<forall>g\<in>set post. \<bar>timestamp f - t\<bar> \<le> \<bar>timestamp g - t\<bar>"
    by blast
  have "sorted_wrt (\<lambda>a b. timestamp a < timestamp b) frames \<longrightarrow>
            (\<forall>g\<in>set frames. \<bar>timestamp g - t\<bar> = \<bar>timestamp f - t\<bar>
                 \<longrightarrow> timestamp f \<le> timestamp g)"
    using closestFrame_of_earliest[of pre f post t] d(1,3) by blast
  with d show "\<exists>pre f post. frames = pre @ f # post \<and> closestFrame_of frames t = Some f \<and>
         (\<forall>g\<in>set pre. \<bar>timestamp f - t\<bar> < \<bar>timestamp g - t\<bar>) \<and>
         (\<forall>g\<in>set post. \<bar>timestamp f - t\<bar> \<le> \<bar>timestamp g - t\<bar>) \<and>
         (sorted_wrt (\<lambda>a b. timestamp a < timestamp b) frames \<longrightarrow>
            (\<forall>g\<in>set frames. \<bar>timestamp g - t\<bar> = \<bar>timestamp f - t\<bar>
                 \<longrightarrow> timestamp f \<le> timestamp g))"
    by blast
next
  show "closestFrame_of [\<lparr>timestamp = 0, odResult = r0\<rparr>, \<lparr>timestamp = 1.0, odResult = r1\<rparr>] 0.6
     = Some \<lparr>timestamp = 1.0, odResult = r1\<rparr>"
    by (simp add: closestFrame_of_def lt_minDiff_def)
qed

theorem C1_nearest_frame_witness:
  "cache example_state = [] \<and>
   overlayCanvas (playbackLoop example_state) = overlayCanvas example_state \<and>
   maskHelperCanvas (playbackLoop example_state) = maskHelperCanvas example_state \<and>
   activeClasses (playbackLoop example_state) = activeClasses example_state \<and>
   example_frames \<noteq> [] \<and>
   sorted_wrt (\<lambda>a b. timestamp a < timestamp b) example_frames \<and>
   closestFrame_of example_frames 1.5 = Some \<lparr>timestamp = 1, odResult = []\<rparr> \<and>
   \<lparr>timestamp = 2, odResult = []\<rparr> \<in> set example_frames \<and>
   \<bar>timestamp \<lparr>timestamp = 2, odResult = []\<rparr> - 1.5\<bar>
     = \<bar>timestamp \<lparr>timestamp = 1, odResult = []\<rparr> - 1.5\<bar> \<and>
   timestamp \<lparr>timestamp = 1, odResult = []\<rparr> \<le> timestamp \<lparr>timestamp = 2, odResult = []\<rparr>"
proof -
  let ?f1 = "\<lparr>timestamp = 1, odResult = []\<rparr> :: CachedFrame"
  let ?f2 = "\<lparr>timestamp = 2, odResult = []\<rparr> :: CachedFrame"
  have e: "cache example_state = []" by (simp add: example_state_def)
  have n: "example_frames \<noteq> []" by (simp add: example_frames_def)
  have srt: "sorted_wrt (\<lambda>a b. timestamp a < timestamp b) example_frames"
    by (simp add: example_frames_def)
  have c: "closestFrame_of example_frames 1.5 = Some ?f1"
    by (simp add: example_frames_def closestFrame_of_def lt_minDiff_def)
  have m: "?f2 \<in> set example_frames" by (simp add: example_frames_def)
  have tie: "\<bar>timestamp ?f2 - 1.5\<bar> = \<bar>timestamp ?f1 - 1.5\<bar>" by simp
  note inst = C1_nearest_frame[of "1.5" example_state example_frames]
  from inst e have still:
    "overlayCanvas (playbackLoop example_state) = overlayCanvas example_state \<and>
     maskHelperCanvas (playbackLoop example_state) = maskHelperCanvas example_state \<and>
     activeClasses (playbackLoop example_state) = activeClasses example_state"
    by blast
  from inst n srt obtain f where
    f: "closestFrame_of example_frames 1.5 = Some f"
    and first: "\<forall>g\<in>set example_frames.
                  \<bar>timestamp g - 1.5\<bar> = \<bar>timestamp f - 1.5\<bar> \<longrightarrow> timestamp f \<le> timestamp g"
    by blast
  from f c have "f = ?f1" by simp
  with first m tie have "timestamp ?f1 \<le> timestamp ?f2" by blast
  with e still n srt c m tie show ?thesis by blast
qed

section \<open>Letterboxing and overlay placement\<close>

lemma displayRect_tall:
  assumes "containerRatio_gt cW cH (real vW / real vH)"
  shows "displayRect cW cH vW vH =
           (real cH * (real vW / real vH), real cH,
            (real cW - real cH * (real vW / real vH)) / 2, 0)"
  using assms by (simp add: displayRect_def Let_def)

lemma displayRect_wide:
  assumes "\<not> containerRatio_gt cW cH (real vW / real vH)"
  shows "displayRect cW cH vW vH =
           (real cW, real cW / (real vW / real vH), 0,
            (real cH - real cW / (real vW / real vH)) / 2)"
  using assms by (simp add: displayRect_def Let_def)

lemma tall_fits:
  assumes v: "vW \<noteq> 0" "vH \<noteq> 0" and gt: "containerRatio_gt cW cH (real vW / real vH)"
  shows "real cH * (real vW / real vH) \<le> real cW"
proof (cases "cH = 0")
  case True
  then show ?thesis by simp
next
  case False
  then have pos: "0 < real cH" by simp
  from gt False have "real vW / real vH < real cW / real cH"
    by (simp add: containerRatio_gt_def)
  then have "real cH * (real vW / real vH) < real cH * (real cW / real cH)"
    using pos by (rule mult_strict_left_mono)
  also have "real cH * (real cW / real cH) = real cW" using pos by simp
  finally show ?thesis by simp
qed

lemma wide_fits:
  assumes v: "vW \<noteq> 0" "vH \<noteq> 0" and ngt: "\<not> containerRatio_gt cW cH (real vW / real vH)"
  shows "real cW / (real vW / real vH) \<le> real cH"
proof (cases "cH = 0")
  case True
  with ngt have "cW = 0" by (simp add: containerRatio_gt_def)
  then show ?thesis by simp
next
  case False
  then have pos: "0 < real cH" by simp
  have rpos: "0 < real vW / real vH" using v by simp
  from ngt False have le: "real cW / real cH \<le> real vW / real vH"
    by (simp add: containerRatio_gt_def)
  have "real cW = real cH * (real cW / real cH)" using pos by simp
  also have "\<dots> \<le> real cH * (real vW / real vH)"
    by (rule mult_left_mono[OF le]) (use pos in simp)
  finally have bound: "real cW \<le> real cH * (real vW / real vH)" .
  have "(real cW / (real vW / real vH) \<le> real cH) = (real cW \<le> real cH * (real vW / real vH))"
    by (rule pos_divide_le_eq[OF rpos])
  with bound show ?thesis by blast
qed

lemma displayRect_contained:
  assumes v: "vW \<noteq> 0" "vH \<noteq> 0"
    and r: "displayRect cW cH vW vH = (displayedW, displayedH, offsetX, offsetY)"
  shows "0 \<le> offsetX \<and> 0 \<le> offsetY \<and> 0 \<le> displayedW \<and> 0 \<le> displayedH \<and>
         offsetX + displayedW \<le> real cW \<and> offsetY + displayedH \<le> real cH \<and>
         displayedW * real vH = displayedH * real vW"
proof (cases "containerRatio_gt cW cH (real vW / real vH)")
  case True
  from tall_fits[OF v True] have fit: "real cH * (real vW / real vH) \<le> real cW" .
  have e: "displayedW = real cH * (real vW / real vH)" "displayedH = real cH"
    "offsetX = (real cW - real cH * (real vW / real vH)) / 2" "offsetY = 0"
    using r unfolding displayRect_tall[OF True] by blast+
  have "0 \<le> real cH * (real vW / real vH)" by simp
  then show ?thesis using fit v unfolding e by (simp add: field_simps)
next
  case False
  from wide_fits[OF v False] have fit: "real cW / (real vW / real vH) \<le> real cH" .
  have e: "displayedW = real cW" "displayedH = real cW / (real vW / real vH)"
    "offsetX = 0" "offsetY = (real cH - real cW / (real vW / real vH)) / 2"
    using r unfolding displayRect_wide[OF False] by blast+
  have "0 \<le> real cW / (real vW / real vH)" by simp
  then show ?thesis using fit v unfolding e by (simp add: field_simps)
qed


lemma drawMaskToContext_dst:
  assumes "\<forall>c\<in>set (ov_drawn ctx). dst_x c = x \<and> dst_y c = y \<and> dst_w c = w \<and> dst_h c = h"
  shows "\<forall>c\<in>set (ov_drawn (fst (drawMaskToContext m col ctx x y w h helperRef))).
           dst_x c = x \<and> dst_y c = y \<and> dst_w c = w \<and> dst_h c = h"
  using assms by (simp add: drawMaskToContext_def Let_def split: option.splits)

lemma forEach_item_dst:
  assumes "\<forall>c\<in>set (ov_drawn (fst (snd st))). dst_x c = x \<and> dst_y c = y \<and> dst_w c = w \<and> dst_h c = h"
  shows "\<forall>c\<in>set (ov_drawn (fst (snd (forEach_item x y w h item st)))).
           dst_x c = x \<and> dst_y c = y \<and> dst_w c = w \<and> dst_h c = h"
proof -
  obtain fc ctx hr where st: "st = (fc, ctx, hr)" by (cases st) auto
  obtain co fc' where cm: "colorMapping (toLowerCase (label item)) fc = (co, fc')"
    by (cases "colorMapping (toLowerCase (label item)) fc") auto
  show ?thesis
  proof (cases co)
    case None
    then show ?thesis using assms by (simp add: forEach_item_def st cm)
  next
    case (Some col)
    from drawMaskToContext_dst[of ctx x y w h "mask_img item" col hr] assms
    have "\<forall>c\<in>set (ov_drawn (fst (drawMaskToContext (mask_img item) col ctx x y w h hr))).
           dst_x c = x \<and> dst_y c = y \<and> dst_w c = w \<and> dst_h c = h"
      by (simp add: st)
    then show ?thesis using Some
      by (simp add: forEach_item_def st cm split: prod.splits)
  qed
qed

lemma fold_forEach_item_dst:
  assumes "\<forall>c\<in>set (ov_drawn (fst (snd st))). dst_x c = x \<and> dst_y c = y \<and> dst_w c = w \<and> dst_h c = h"
  shows "\<forall>c\<in>set (ov_drawn (fst (snd (fold (forEach_item x y w h) results st)))).
           dst_x c = x \<and> dst_y c = y \<and> dst_w c = w \<and> dst_h c = h"
  using assms
proof (induction results arbitrary: st)
  case Nil
  then show ?case by simp
next
  case (Cons item results)
  have "\<forall>c\<in>set (ov_drawn (fst (snd (forEach_item x y w h item st)))).
           dst_x c = x \<and> dst_y c = y \<and> dst_w c = w \<and> dst_h c = h"
    using Cons.prems by (rule forEach_item_dst)
  from Cons.IH[OF this] show ?case by simp
qed

lemma render_placement:
  assumes ctx: "ov_ctx canvas" and v: "videoWidth v \<noteq> 0" "videoHeight v \<noteq> 0"
    and r: "displayRect (clientWidth v) (clientHeight v) (videoWidth v) (videoHeight v)
              = (displayedW, displayedH, offsetX, offsetY)"
    and o: "overlayCanvas (renderSegmentationOverlay results canvas v cropPercent s) = Some ctx'"
  shows "\<forall>c\<in>set (ov_drawn ctx').
           dst_x c = offsetX \<and> dst_y c = offsetY + displayedH * cropPercent \<and>
           dst_w c = displayedW \<and> dst_h c = displayedH * (1 - cropPercent)"
proof -
  let ?cleared = "(if ov_width canvas \<noteq> clientWidth v \<or> ov_height canvas \<noteq> clientHeight v
                then canvas\<lparr>ov_width := clientWidth v, ov_height := clientHeight v,
                                     ov_drawn := []\<rparr>
                else canvas)\<lparr>ov_drawn := []\<rparr>"
  let ?st = "fold (forEach_item offsetX (offsetY + displayedH * cropPercent) displayedW
                     (displayedH * (1 - cropPercent))) results ([], ?cleared, maskHelperCanvas s)"
  have init: "\<forall>c\<in>set (ov_drawn (fst (snd ([] :: string list, ?cleared, maskHelperCanvas s)))).
     dst_x c = offsetX \<and> dst_y c = offsetY + displayedH * cropPercent \<and>
           dst_w c = displayedW \<and> dst_h c = displayedH * (1 - cropPercent)"
    by simp
  have inv: "\<forall>c\<in>set (ov_drawn (fst (snd ?st))).
     dst_x c = offsetX \<and> dst_y c = offsetY + displayedH * cropPercent \<and>
           dst_w c = displayedW \<and> dst_h c = displayedH * (1 - cropPercent)"
    using init by (rule fold_forEach_item_dst)
  have "overlayCanvas (renderSegmentationOverlay results canvas v cropPercent s)
          = Some (fst (snd ?st))"
    using ctx v r by (simp add: renderSegmentationOverlay_def Let_def split: prod.splits)
  with o have "ctx' = fst (snd ?st)" by simp
  with inv show ?thesis by simp
qed

lemma render_zero_video:
  assumes "videoWidth v = 0 \<or> videoHeight v = 0"
  shows "maskHelperCanvas (renderSegmentationOverlay results canvas v cropPercent s)
           = maskHelperCanvas s \<and>
         activeClasses (renderSegmentationOverlay results canvas v cropPercent s)
           = activeClasses s \<and>
         (if ov_ctx canvas
          then \<exists>c. overlayCanvas (renderSegmentationOverlay results canvas v cropPercent s) = Some c
                   \<and> ov_drawn c = []
          else renderSegmentationOverlay results canvas v cropPercent s = s)"
  using assms by (auto simp add: renderSegmentationOverlay_def Let_def)

lemma example_render:
  "overlayCanvas (renderSegmentationOverlay example_results example_canvas example_video
                    CROP_PERCENT example_state)
   = Some \<lparr>ov_width = 1280, ov_height = 720, ov_ctx = True,
          ov_drawn =
            [\<lparr>src_pixels = [255, 230, 0, 200, 0, 0, 0, 0, 0, 0, 0, 0, 255, 230, 0, 200], src_w = 2,
                src_h = 2, dst_x = 0, dst_y = 144, dst_w = 1280,
                dst_h = 576, smoothing = False\<rparr>,
             \<lparr>src_pixels = [0, 255, 100, 160, 0, 0, 0, 0, 0, 0, 0, 0, 0, 255, 100, 160], src_w = 2,
                src_h = 2, dst_x = 0, dst_y = 144, dst_w = 1280,
                dst_h = 576, smoothing = False\<rparr>]\<rparr> \<and>
   activeClasses (renderSegmentationOverlay example_results example_canvas example_video
                    CROP_PERCENT example_state) = [''TRAFFIC LIGHT'', ''VEHICLE'']"
proof -
  have l1: "toLowerCase ''Traffic Light'' = ''traffic light''" by code_simp
  have l2: "toLowerCase ''pedestrian'' = ''pedestrian''" by code_simp
  have l3: "toLowerCase ''car'' = ''car''" by code_simp
  have p1: "paint_mask [255, 0, 0, 7] (255, 230, 0, 200) (createImageData 2 2)
              = [255, 230, 0, 200, 0, 0, 0, 0, 0, 0, 0, 0, 255, 230, 0, 200]" by code_simp
  have p2: "paint_mask [255, 0, 0, 7] (0, 255, 100, 160) (createImageData 2 2)
              = [0, 255, 100, 160, 0, 0, 0, 0, 0, 0, 0, 0, 0, 255, 100, 160]" by code_simp
  have d: "displayRect 1280 720 1920 1080 = (1280, 720, 0, 0)"
    by (simp add: displayRect_def containerRatio_gt_def Let_def)
  show ?thesis
    by (simp add: renderSegmentationOverlay_def example_results_def example_canvas_def
          example_video_def example_state_def CROP_PERCENT_def d Let_def forEach_item_def
          colorMapping_def l1 l2 l3 Set_add_def drawMaskToContext_def example_mask_def p1 p2)
qed

text \<open>
  Claim C3. For a video of nonzero dimensions the display rectangle lies inside the
  container and has the video's aspect ratio (exactly, in real arithmetic):
  height-constrained and centred horizontally when the container's ratio exceeds the
  video's, width-constrained and centred vertically otherwise. Every mask the renderer
  draws is placed at \<open>offsetX\<close> with width \<open>displayedW\<close>, at vertical position
  \<open>offsetY + displayedH * cropPercent\<close> with height \<open>displayedH * (1 - cropPercent)\<close>.
  When a video dimension is zero the renderer only clears the overlay and draws nothing.
\<close>

theorem C3_letterbox_overlay:
  "(vW \<noteq> 0 \<and> vH \<noteq> 0 \<longrightarrow>
      (case displayRect cW cH vW vH of
         (displayedW, displayedH, offsetX, offsetY) \<Rightarrow>
           0 \<le> offsetX \<and> 0 \<le> offsetY \<and> 0 \<le> displayedW \<and> 0 \<le> displayedH \<and>
           offsetX + displayedW \<le> real cW \<and> offsetY + displayedH \<le> real cH \<and>
           displayedW * real vH = displayedH * real vW \<and>
           (cH \<noteq> 0 \<and> real cW / real cH > real vW / real vH \<longrightarrow>
              displayedH = real cH \<and> offsetY = 0 \<and> offsetX = (real cW - displayedW) / 2) \<and>
           (cH \<noteq> 0 \<and> \<not> real cW / real cH > real vW / real vH \<longrightarrow>
              displayedW = real cW \<and> offsetX = 0 \<and> offsetY = (real cH - displayedH) / 2))) \<and>
   (ov_ctx canvas \<and> videoWidth v \<noteq> 0 \<and> videoHeight v \<noteq> 0 \<longrightarrow>
      (case displayRect (clientWidth v) (clientHeight v) (videoWidth v) (videoHeight v) of
         (displayedW, displayedH, offsetX, offsetY) \<Rightarrow>
           (\<forall>ctx'. overlayCanvas (renderSegmentationOverlay results canvas v cropPercent s)
                      = Some ctx' \<longrightarrow>
              (\<forall>c\<in>set (ov_drawn ctx').
                 dst_x c = offsetX \<and> dst_w c = displayedW \<and>
                 dst_y c = offsetY + displayedH * cropPercent \<and>
                 dst_h c = displayedH * (1 - cropPercent))))) \<and>
   (videoWidth v = 0 \<or> videoHeight v = 0 \<longrightarrow>
      maskHelperCanvas (renderSegmentationOverlay results canvas v cropPercent s)
        = maskHelperCanvas s \<and>
      activeClasses (renderSegmentationOverlay results canvas v cropPercent s)
        = activeClasses s \<and>
      (if ov_ctx canvas
       then \<exists>c. overlayCanvas (renderSegmentationOverlay results canvas v cropPercent s) = Some c
                \<and> ov_drawn c = []
       else renderSegmentationOverlay results canvas v cropPercent s = s))"
proof (intro conjI impI)
  assume v: "vW \<noteq> 0 \<and> vH \<noteq> 0"
  obtain displayedW displayedH offsetX offsetY
    where r: "displayRect cW cH vW vH = (displayedW, displayedH, offsetX, offsetY)"
    by (cases "displayRect cW cH vW vH") auto
  from v have v1: "vW \<noteq> 0" and v2: "vH \<noteq> 0" by simp_all
  note fit = displayRect_contained[OF v1 v2 r]
  have tall: "cH \<noteq> 0 \<and> real cW / real cH > real vW / real vH \<longrightarrow>
              displayedH = real cH \<and> offsetY = 0 \<and> offsetX = (real cW - displayedW) / 2"
  proof
    assume a: "cH \<noteq> 0 \<and> real cW / real cH > real vW / real vH"
    then have "containerRatio_gt cW cH (real vW / real vH)"
      by (simp add: containerRatio_gt_def)
    from r[unfolded displayRect_tall[OF this]]
    show "displayedH = real cH \<and> offsetY = 0 \<and> offsetX = (real cW - displayedW) / 2"
      by auto
  qed
  have wide: "cH \<noteq> 0 \<and> \<not> real cW / real cH > real vW / real vH \<longrightarrow>
              displayedW = real cW \<and> offsetX = 0 \<and> offsetY = (real cH - displayedH) / 2"
  proof
    assume a: "cH \<noteq> 0 \<and> \<not> real cW / real cH > real vW / real vH"
    then have "\<not> containerRatio_gt cW cH (real vW / real vH)"
      by (simp add: containerRatio_gt_def)
    from r[unfolded displayRect_wide[OF this]]
    show "displayedW = real cW \<and> offsetX = 0 \<and> offsetY = (real cH - displayedH) / 2"
      by auto
  qed
  from fit tall wide
  show "case displayRect cW cH vW vH of
         (displayedW, displayedH, offsetX, offsetY) \<Rightarrow>
           0 \<le> offsetX \<and> 0 \<le> offsetY \<and> 0 \<le> displayedW \<and> 0 \<le> displayedH \<and>
           offsetX + displayedW \<le> real cW \<and> offsetY + displayedH \<le> real cH \<and>
           displayedW * real vH = displayedH * real vW \<and>
           (cH \<noteq> 0 \<and> real cW / real cH > real vW / real vH \<longrightarrow>
              displayedH = real cH \<and> offsetY = 0 \<and> offsetX = (real cW - displayedW) / 2) \<and>
           (cH \<noteq> 0 \<and> \<not> real cW / real cH > real vW / real vH \<longrightarrow>
              displayedW = real cW \<and> offsetX = 0 \<and> offsetY = (real cH - displayedH) / 2)"
    unfolding r prod.case by blast
next
  assume a: "ov_ctx canvas \<and> videoWidth v \<noteq> 0 \<and> videoHeight v \<noteq> 0"
  obtain displayedW displayedH offsetX offsetY
    where r: "displayRect (clientWidth v) (clientHeight v) (videoWidth v) (videoHeight v)
                = (displayedW, displayedH, offsetX, offsetY)"
    by (cases "displayRect (clientWidth v) (clientHeight v) (videoWidth v) (videoHeight v)") auto
  have "\<forall>ctx'. overlayCanvas (renderSegmentationOverlay results canvas v cropPercent s)
                      = Some ctx' \<longrightarrow>
              (\<forall>c\<in>set (ov_drawn ctx').
                 dst_x c = offsetX \<and> dst_w c = displayedW \<and>
                 dst_y c = offsetY + displayedH * cropPercent \<and>
                 dst_h c = displayedH * (1 - cropPercent))"
    using render_placement[of canvas v displayedW displayedH offsetX offsetY results cropPercent s]
      a r by blast
  then show "case displayRect (clientWidth v) (clientHeight v) (videoWidth v) (videoHeight v) of
         (displayedW, displayedH, offsetX, offsetY) \<Rightarrow>
           (\<forall>ctx'. overlayCanvas (renderSegmentationOverlay results canvas v cropPercent s)
                      = Some ctx' \<longrightarrow>
              (\<forall>c\<in>set (ov_drawn ctx').
                 dst_x c = offsetX \<and> dst_w c = displayedW \<and>
                 dst_y c = offsetY + displayedH * cropPercent \<and>
                 dst_h c = displayedH * (1 - cropPercent)))"
    unfolding r prod.case .
next
  assume z: "videoWidth v = 0 \<or> videoHeight v = 0"
  from render_zero_video[OF z, of results canvas cropPercent s]
  show "maskHelperCanvas (renderSegmentationOverlay results canvas v cropPercent s)
        = maskHelperCanvas s"
    and "activeClasses (renderSegmentationOverlay results canvas v cropPercent s)
        = activeClasses s"
    and "if ov_ctx canvas
       then \<exists>c. overlayCanvas (renderSegmentationOverlay results canvas v cropPercent s) = Some c
                \<and> ov_drawn c = []
       else renderSegmentationOverlay results canvas v cropPercent s = s"
    by blast+
qed

theorem C3_letterbox_overlay_witness:
  "(4::nat) \<noteq> 0 \<and> (3::nat) \<noteq> 0 \<and> (500::nat) \<noteq> 0 \<and> real 1000 / real 500 > real 4 / real 3 \<and>
   displayRect 1000 500 4 3 = (2000 / 3, 500, 500 / 3, 0) \<and>
   (16::nat) \<noteq> 0 \<and> (9::nat) \<noteq> 0 \<and> (1000::nat) \<noteq> 0 \<and>
   \<not> real 1280 / real 1000 > real 16 / real 9 \<and>
   displayRect 1280 1000 16 9 = (1280, 720, 0, 140) \<and>
   ov_ctx example_canvas \<and> videoWidth example_video \<noteq> 0 \<and> videoHeight example_video \<noteq> 0 \<and>
   displayRect (clientWidth example_video) (clientHeight example_video)
     (videoWidth example_video) (videoHeight example_video) = (1280, 720, 0, 0) \<and>
   (\<exists>ctx'. overlayCanvas (renderSegmentationOverlay example_results example_canvas
                             example_video CROP_PERCENT example_state) = Some ctx' \<and>
           map dst_y (ov_drawn ctx') = [144, 144] \<and> map dst_h (ov_drawn ctx') = [576, 576] \<and>
           map dst_x (ov_drawn ctx') = [0, 0] \<and> map dst_w (ov_drawn ctx') = [1280, 1280]) \<and>
   videoWidth example_video_zero = 0 \<and>
   activeClasses (renderSegmentationOverlay example_results example_canvas
                    example_video_zero CROP_PERCENT example_state) = activeClasses example_state \<and>
   (\<exists>c. overlayCanvas (renderSegmentationOverlay example_results example_canvas
                          example_video_zero CROP_PERCENT example_state) = Some c \<and>
        ov_drawn c = [])"
proof -
  have d1: "displayRect 1000 500 4 3 = (2000 / 3, 500, 500 / 3, 0)"
    by (simp add: displayRect_def containerRatio_gt_def Let_def)
  have d2: "displayRect (clientWidth example_video) (clientHeight example_video)
     (videoWidth example_video) (videoHeight example_video) = (1280, 720, 0, 0)"
    by (simp add: example_video_def displayRect_def containerRatio_gt_def Let_def)
  have d3: "displayRect 1280 1000 16 9 = (1280, 720, 0, 140)"
    by (simp add: displayRect_def containerRatio_gt_def Let_def)
  have h: "ov_ctx example_canvas \<and> videoWidth example_video \<noteq> 0 \<and> videoHeight example_video \<noteq> 0"
    by (simp add: example_canvas_def example_video_def)
  have z: "videoWidth example_video_zero = 0" by (simp add: example_video_zero_def)
  have c: "ov_ctx example_canvas" by (simp add: example_canvas_def)
  note tall = C3_letterbox_overlay[of 4 3 1000 500 example_canvas example_video example_results
                CROP_PERCENT example_state]
  note wide = C3_letterbox_overlay[of 16 9 1280 1000 example_canvas example_video_zero
                example_results CROP_PERCENT example_state]
  have t: "(4::nat) \<noteq> 0 \<and> (3::nat) \<noteq> 0" "(500::nat) \<noteq> 0 \<and> real 1000 / real 500 > real 4 / real 3"
    by simp_all
  have w: "(16::nat) \<noteq> 0 \<and> (9::nat) \<noteq> 0"
    "(1000::nat) \<noteq> 0 \<and> \<not> real 1280 / real 1000 > real 16 / real 9"
    by simp_all
  from tall t have tall_rect:
    "case displayRect 1000 500 4 3 of
       (displayedW, displayedH, offsetX, offsetY) \<Rightarrow>
          offsetX + displayedW \<le> real 1000 \<and> displayedW * real 3 = displayedH * real 4 \<and>
          displayedH = real 500 \<and> offsetY = 0"
    by (simp add: case_prod_beta)
  from wide w have wide_rect:
    "case displayRect 1280 1000 16 9 of
       (displayedW, displayedH, offsetX, offsetY) \<Rightarrow>
          offsetY + displayedH \<le> real 1000 \<and> displayedW * real 9 = displayedH * real 16 \<and>
          displayedW = real 1280 \<and> offsetX = 0"
    by (simp add: case_prod_beta)
  from tall h have
    "\<forall>ctx'. overlayCanvas (renderSegmentationOverlay example_results example_canvas
                             example_video CROP_PERCENT example_state) = Some ctx' \<longrightarrow>
        (\<forall>c\<in>set (ov_drawn ctx'). dst_x c = 0 \<and> dst_w c = 1280 \<and>
            dst_y c = 0 + 720 * CROP_PERCENT \<and> dst_h c = 720 * (1 - CROP_PERCENT))"
    unfolding d2 prod.case by blast
  with example_render have drawn:
    "\<exists>ctx'. overlayCanvas (renderSegmentationOverlay example_results example_canvas
                             example_video CROP_PERCENT example_state) = Some ctx' \<and>
           map dst_y (ov_drawn ctx') = [144, 144] \<and> map dst_h (ov_drawn ctx') = [576, 576] \<and>
           map dst_x (ov_drawn ctx') = [0, 0] \<and> map dst_w (ov_drawn ctx') = [1280, 1280]"
    by (simp add: CROP_PERCENT_def)
  from wide z c have blank:
    "activeClasses (renderSegmentationOverlay example_results example_canvas
                    example_video_zero CROP_PERCENT example_state) = activeClasses example_state"
    "\<exists>c. overlayCanvas (renderSegmentationOverlay example_results example_canvas
                          example_video_zero CROP_PERCENT example_state) = Some c \<and>
        ov_drawn c = []"
    by simp_all
  from d1 d2 d3 h z drawn blank show ?thesis by simp
qed

section \<open>The mask compositor\<close>

lemma length_paint_pixel [simp]: "length (paint_pixel md col i data) = length data"
  by (cases col) (simp add: paint_pixel_def Let_def)

lemma length_paint_fold [simp]:
  "length (fold (paint_pixel md col) is data) = length data"
  by (induction "is" arbitrary: data) simp_all

lemma paint_pixel_other:
  assumes "k \<noteq> i"
  shows "rgba_at (paint_pixel md col i data) k = rgba_at data k"
proof -
  obtain r g b a where c: "col = (r, g, b, a)" by (cases col) auto
  have ne: "k * 4 \<noteq> i * 4" "k * 4 \<noteq> i * 4 + 1" "k * 4 \<noteq> i * 4 + 2" "k * 4 \<noteq> i * 4 + 3"
    "k * 4 + 1 \<noteq> i * 4" "k * 4 + 1 \<noteq> i * 4 + 1" "k * 4 + 1 \<noteq> i * 4 + 2" "k * 4 + 1 \<noteq> i * 4 + 3"
    "k * 4 + 2 \<noteq> i * 4" "k * 4 + 2 \<noteq> i * 4 + 1" "k * 4 + 2 \<noteq> i * 4 + 2" "k * 4 + 2 \<noteq> i * 4 + 3"
    "k * 4 + 3 \<noteq> i * 4" "k * 4 + 3 \<noteq> i * 4 + 1" "k * 4 + 3 \<noteq> i * 4 + 2" "k * 4 + 3 \<noteq> i * 4 + 3"
    using assms by presburger+
  show ?thesis
    using ne by (simp add: paint_pixel_def rgba_at_def c Let_def)
qed

lemma paint_pixel_same:
  assumes "i * 4 + 3 < length data"
  shows "rgba_at (paint_pixel md (r, g, b, a) i data) i =
           (if md ! i \<noteq> 0 then (clamp8 r, clamp8 g, clamp8 b, clamp8 a) else rgba_at data i)"
  using assms by (simp add: paint_pixel_def rgba_at_def Let_def word_gt_0)

lemma paint_fold_rgba:
  assumes "k * 4 + 3 < length data"
  shows "rgba_at (fold (paint_pixel md (r, g, b, a)) [0..<n] data) k =
           (if k < n \<and> md ! k \<noteq> 0 then (clamp8 r, clamp8 g, clamp8 b, clamp8 a)
            else rgba_at data k)"
proof (induction n)
  case 0
  show ?case by simp
next
  case (Suc n)
  let ?d = "fold (paint_pixel md (r, g, b, a)) [0..<n] data"
  have step: "fold (paint_pixel md (r, g, b, a)) [0..<Suc n] data
                = paint_pixel md (r, g, b, a) n ?d"
    by simp
  show ?case
  proof (cases "k = n")
    case True
    have "n * 4 + 3 < length ?d" using assms True by simp
    from paint_pixel_same[OF this, of md r g b a] Suc.IH True
    show ?thesis unfolding step by simp
  next
    case False
    from paint_pixel_other[OF False, of md "(r, g, b, a)" ?d] Suc.IH False
    show ?thesis unfolding step by (simp add: less_Suc_eq)
  qed
qed

lemma paint_mask_rgba:
  assumes "i < w * h"
  shows "rgba_at (paint_mask md (r, g, b, a) (createImageData w h)) i =
           (if i < length md \<and> md ! i \<noteq> 0 then (clamp8 r, clamp8 g, clamp8 b, clamp8 a)
            else (0, 0, 0, 0))"
proof -
  have len: "i * 4 + 3 < length (createImageData w h)"
    using assms by (simp add: createImageData_def)
  have blank: "rgba_at (createImageData w h) i = (0, 0, 0, 0)"
    using assms by (simp add: createImageData_def rgba_at_def)
  from paint_fold_rgba[OF len, of md r g b a "length md"] blank
  show ?thesis by (simp add: paint_mask_def)
qed

lemma clamp8_byte: "n \<le> 255 \<Longrightarrow> unat (clamp8 n) = n"
  by (simp add: clamp8_def unat_of_nat)

lemma drawMaskToContext_Some:
  assumes "hp_ctx helper"
  shows "drawMaskToContext (Some m) col targetCtx x y w h (Some helper) =
     (targetCtx\<lparr>ov_drawn := ov_drawn targetCtx @
         [\<lparr>src_pixels = paint_mask (img_data m) col (createImageData (img_width m) (img_height m)),
           src_w = img_width m, src_h = img_height m,
           dst_x = x, dst_y = y, dst_w = w, dst_h = h, smoothing = False\<rparr>]\<rparr>,
      Some (helper\<lparr>hp_width := img_width m, hp_height := img_height m,
              hp_pixels := paint_mask (img_data m) col (createImageData (img_width m) (img_height m)),
              hp_resizes := (if hp_width helper \<noteq> img_width m \<or> hp_height helper \<noteq> img_height m
                             then hp_resizes helper + 1 else hp_resizes helper)\<rparr>))"
  using assms by (simp add: drawMaskToContext_def Let_def)

text \<open>
  Claim C4. For a mask and a colour, with a helper canvas that has a context: after the
  call the helper has the mask's dimensions; pixel \<open>i\<close> of the helper is the given
  colour when the mask's value at \<open>i\<close> is nonzero, whatever that value, and transparent
  black otherwise; the helper's size is assigned exactly when it differed from the
  mask's; and the helper's pixels are what is drawn, unsmoothed, on the target. Channels
  within a byte are stored as they are.
\<close>

theorem C4_mask_compositor:
  "(hp_ctx helper \<longrightarrow>
     (\<exists>ctx' helper'.
        drawMaskToContext (Some m) (r, g, b, a) targetCtx x y w h (Some helper)
          = (ctx', Some helper') \<and>
        hp_width helper' = img_width m \<and> hp_height helper' = img_height m \<and>
        length (hp_pixels helper') = 4 * (img_width m * img_height m) \<and>
        (\<forall>i < img_width m * img_height m.
           rgba_at (hp_pixels helper') i =
             (if i < length (img_data m) \<and> img_data m ! i \<noteq> 0
              then (clamp8 r, clamp8 g, clamp8 b, clamp8 a) else (0, 0, 0, 0))) \<and>
        hp_resizes helper' =
          (if hp_width helper \<noteq> img_width m \<or> hp_height helper \<noteq> img_height m
           then hp_resizes helper + 1 else hp_resizes helper) \<and>
        (\<exists>call. ov_drawn ctx' = ov_drawn targetCtx @ [call] \<and>
                src_pixels call = hp_pixels helper' \<and> \<not> smoothing call))) \<and>
   map_option hp_resizes
     (snd (drawMaskToContext (Some m) (r, g, b, a) targetCtx x y w h (Some helper)))
     = Some (if hp_width helper \<noteq> img_width m \<or> hp_height helper \<noteq> img_height m
             then hp_resizes helper + 1 else hp_resizes helper) \<and>
   drawMaskToContext None (r, g, b, a) targetCtx x y w h helperRef = (targetCtx, helperRef) \<and>
   (r \<le> 255 \<and> g \<le> 255 \<and> b \<le> 255 \<and> a \<le> 255 \<longrightarrow>
      unat (clamp8 r) = r \<and> unat (clamp8 g) = g \<and> unat (clamp8 b) = b \<and> unat (clamp8 a) = a)"
proof (intro conjI impI)
  assume c: "hp_ctx helper"
  let ?data = "paint_mask (img_data m) (r, g, b, a) (createImageData (img_width m) (img_height m))"
  let ?helper' = "helper\<lparr>hp_width := img_width m, hp_height := img_height m,
              hp_pixels := ?data,
              hp_resizes := (if hp_width helper \<noteq> img_width m \<or> hp_height helper \<noteq> img_height m
                             then hp_resizes helper + 1 else hp_resizes helper)\<rparr>"
  let ?call = "\<lparr>src_pixels = ?data, src_w = img_width m, src_h = img_height m,
           dst_x = x, dst_y = y, dst_w = w, dst_h = h, smoothing = False\<rparr>"
  let ?ctx' = "targetCtx\<lparr>ov_drawn := ov_drawn targetCtx @ [?call]\<rparr>"
  have eq: "drawMaskToContext (Some m) (r, g, b, a) targetCtx x y w h (Some helper)
          = (?ctx', Some ?helper')"
    by (rule drawMaskToContext_Some[OF c])
  have len: "length (hp_pixels ?helper') = 4 * (img_width m * img_height m)"
    by (simp add: paint_mask_def createImageData_def)
  have px: "\<forall>i < img_width m * img_height m.
           rgba_at (hp_pixels ?helper') i =
             (if i < length (img_data m) \<and> img_data m ! i \<noteq> 0
              then (clamp8 r, clamp8 g, clamp8 b, clamp8 a) else (0, 0, 0, 0))"
    using paint_mask_rgba[of _ "img_width m" "img_height m" "img_data m" r g b a] by simp
  have call: "\<exists>call. ov_drawn ?ctx' = ov_drawn targetCtx @ [call] \<and>
                src_pixels call = hp_pixels ?helper' \<and> \<not> smoothing call"
    by simp
  have dims: "hp_width ?helper' = img_width m \<and> hp_height ?helper' = img_height m" by simp
  have rs: "hp_resizes ?helper' =
          (if hp_width helper \<noteq> img_width m \<or> hp_height helper \<noteq> img_height m
           then hp_resizes helper + 1 else hp_resizes helper)" by simp
  from eq len px call dims rs
  show "\<exists>ctx' helper'.
        drawMaskToContext (Some m) (r, g, b, a) targetCtx x y w h (Some helper)
          = (ctx', Some helper') \<and>
        hp_width helper' = img_width m \<and> hp_height helper' = img_height m \<and>
        length (hp_pixels helper') = 4 * (img_width m * img_height m) \<and>
        (\<forall>i < img_width m * img_height m.
           rgba_at (hp_pixels helper') i =
             (if i < length (img_data m) \<and> img_data m ! i \<noteq> 0
              then (clamp8 r, clamp8 g, clamp8 b, clamp8 a) else (0, 0, 0, 0))) \<and>
        hp_resizes helper' =
          (if hp_width helper \<noteq> img_width m \<or> hp_height helper \<noteq> img_height m
           then hp_resizes helper + 1 else hp_resizes helper) \<and>
        (\<exists>call. ov_drawn ctx' = ov_drawn targetCtx @ [call] \<and>
                src_pixels call = hp_pixels helper' \<and> \<not> smoothing call)"
    by blast
next
  show "map_option hp_resizes
     (snd (drawMaskToContext (Some m) (r, g, b, a) targetCtx x y w h (Some helper)))
     = Some (if hp_width helper \<noteq> img_width m \<or> hp_height helper \<noteq> img_height m
             then hp_resizes helper + 1 else hp_resizes helper)"
    by (simp add: drawMaskToContext_def Let_def)
next
  show "drawMaskToContext None (r, g, b, a) targetCtx x y w h helperRef = (targetCtx, helperRef)"
    by (simp add: drawMaskToContext_def)
next
  assume "r \<le> 255 \<and> g \<le> 255 \<and> b \<le> 255 \<and> a \<le> 255"
  then show "unat (clamp8 r) = r" and "unat (clamp8 g) = g" and "unat (clamp8 b) = b"
    and "unat (clamp8 a) = a"
    by (simp_all add: clamp8_byte)
qed

theorem C4_mask_compositor_witness:
  "hp_ctx example_helper \<and> (255::nat) \<le> 255 \<and> (230::nat) \<le> 255 \<and> (0::nat) \<le> 255 \<and> (200::nat) \<le> 255 \<and>
   unat (clamp8 230) = 230 \<and>
   (\<exists>ctx' helper'.
      drawMaskToContext (Some example_mask) (255, 230, 0, 200) example_canvas 0 144 1280 576
        (Some example_helper) = (ctx', Some helper') \<and>
      hp_width helper' = 2 \<and> hp_height helper' = 2 \<and> hp_resizes helper' = 1 \<and>
      hp_pixels helper' = [255, 230, 0, 200, 0, 0, 0, 0, 0, 0, 0, 0, 255, 230, 0, 200] \<and>
      rgba_at (hp_pixels helper') 3 = (clamp8 255, clamp8 230, clamp8 0, clamp8 200) \<and>
      rgba_at (hp_pixels helper') 2 = (0, 0, 0, 0))"
proof -
  have c: "hp_ctx example_helper" by (simp add: example_helper_def)
  have p1: "paint_mask [255, 0, 0, 7] (255, 230, 0, 200) (createImageData 2 2)
              = [255, 230, 0, 200, 0, 0, 0, 0, 0, 0, 0, 0, 255, 230, 0, 200]" by code_simp
  have ev: "drawMaskToContext (Some example_mask) (255, 230, 0, 200) example_canvas 0 144 1280 576
        (Some example_helper)
      = (example_canvas\<lparr>ov_drawn := [\<lparr>src_pixels = [255, 230, 0, 200, 0, 0, 0, 0, 0, 0, 0, 0, 255, 230, 0, 200],
            src_w = 2, src_h = 2, dst_x = 0, dst_y = 144, dst_w = 1280, dst_h = 576, smoothing = False\<rparr>]\<rparr>,
         Some \<lparr>hp_width = 2, hp_height = 2, hp_ctx = True,
               hp_pixels = [255, 230, 0, 200, 0, 0, 0, 0, 0, 0, 0, 0, 255, 230, 0, 200], hp_resizes = 1\<rparr>)"
    by (simp add: drawMaskToContext_def example_mask_def example_helper_def example_canvas_def p1 Let_def)
  from C4_mask_compositor[of example_helper example_mask 255 230 0 200 example_canvas 0 144 1280 576
         None] c
  obtain ctx' helper' where
    d: "drawMaskToContext (Some example_mask) (255, 230, 0, 200) example_canvas 0 144 1280 576
        (Some example_helper) = (ctx', Some helper')"
    and px: "\<forall>i < img_width example_mask * img_height example_mask.
           rgba_at (hp_pixels helper') i =
             (if i < length (img_data example_mask) \<and> img_data example_mask ! i \<noteq> 0
              then (clamp8 255, clamp8 230, clamp8 0, clamp8 200) else (0, 0, 0, 0))"
    and u: "unat (clamp8 230) = 230"
    by auto
  from px have "rgba_at (hp_pixels helper') 3 = (clamp8 255, clamp8 230, clamp8 0, clamp8 200)"
    and "rgba_at (hp_pixels helper') 2 = (0, 0, 0, 0)"
    by (simp_all add: example_mask_def)
  with d ev c u show ?thesis by auto
qed

section \<open>Label classification\<close>

lemma fst_forEach_item:
  "fst (forEach_item x y w h item (fc, ctx, hr)) = snd (colorMapping (toLowerCase (label item)) fc)"
proof -
  obtain co fc' where cm: "colorMapping (toLowerCase (label item)) fc = (co, fc')"
    by (cases "colorMapping (toLowerCase (label item)) fc") auto
  show ?thesis
    by (cases co) (simp_all add: forEach_item_def cm split: prod.splits)
qed

lemma fst_fold_forEach_item:
  "fst (fold (forEach_item x y w h) results st) =
     fold (\<lambda>item fc. snd (colorMapping (toLowerCase (label item)) fc)) results (fst st)"
proof (induction results arbitrary: st)
  case Nil
  show ?case by simp
next
  case (Cons item results)
  obtain fc ctx hr where st: "st = (fc, ctx, hr)" by (cases st) auto
  show ?case using Cons.IH[of "forEach_item x y w h item st"] fst_forEach_item[of x y w h item fc ctx hr]
    by (simp add: st)
qed

lemma set_snd_colorMapping:
  "set (snd (colorMapping lbl fc)) =
     set fc \<union> (if lbl = ''traffic light'' \<or> lbl = ''traffic_light'' then {''TRAFFIC LIGHT''} else {})
            \<union> (if lbl \<in> set [''car'', ''truck'', ''bus'', ''motorcycle'', ''bicycle'']
               then {''VEHICLE''} else {})"
  by (auto simp add: colorMapping_def Set_add_def)

lemma distinct_snd_colorMapping:
  "distinct fc \<Longrightarrow> distinct (snd (colorMapping lbl fc))"
  by (simp add: colorMapping_def Set_add_def)

lemma set_fold_classes:
  "set (fold (\<lambda>item fc. snd (colorMapping (toLowerCase (label item)) fc)) results fc) =
     set fc \<union>
     (if \<exists>item\<in>set results. toLowerCase (label item) = ''traffic light'' \<or>
                               toLowerCase (label item) = ''traffic_light''
      then {''TRAFFIC LIGHT''} else {}) \<union>
     (if \<exists>item\<in>set results.
           toLowerCase (label item) \<in> set [''car'', ''truck'', ''bus'', ''motorcycle'', ''bicycle'']
      then {''VEHICLE''} else {})"
proof (induction results arbitrary: fc)
  case Nil
  show ?case by simp
next
  case (Cons item results)
  show ?case
    unfolding fold_Cons comp_apply Cons.IH set_snd_colorMapping
    by (auto simp del: set_simps(2) simp add: list.set(2)[of "item" results])
qed

lemma distinct_fold_classes:
  "distinct fc \<Longrightarrow>
   distinct (fold (\<lambda>item fc. snd (colorMapping (toLowerCase (label item)) fc)) results fc)"
  by (induction results arbitrary: fc) (simp_all add: distinct_snd_colorMapping)

lemma fst_colorMapping: "fst (colorMapping lbl fc) = fst (colorMapping lbl [])"
  by (simp add: colorMapping_def)

lemma forEach_item_pixels:
  assumes "hp_ctx hp"
  shows "\<exists>fc' ctx' hp'. forEach_item x y w h item (fc, ctx, Some hp) = (fc', ctx', Some hp') \<and>
           hp_ctx hp' \<and>
           map src_pixels (ov_drawn ctx') = map src_pixels (ov_drawn ctx) @ painted_pixels item"
proof -
  obtain co fc' where cm: "colorMapping (toLowerCase (label item)) fc = (co, fc')"
    by (cases "colorMapping (toLowerCase (label item)) fc") auto
  have co: "fst (colorMapping (toLowerCase (label item)) []) = co"
    using fst_colorMapping[of "toLowerCase (label item)" fc] cm by simp
  show ?thesis
  proof (cases co)
    case None
    then show ?thesis using assms co
      by (simp add: forEach_item_def cm painted_pixels_def)
  next
    case (Some col)
    show ?thesis
    proof (cases "mask_img item")
      case None
      then show ?thesis using assms co Some
        by (simp add: forEach_item_def cm painted_pixels_def drawMaskToContext_def)
    next
      case (Some m)
      from drawMaskToContext_Some[OF assms, of m col ctx x y w h]
      show ?thesis using assms co Some \<open>co = Some col\<close>
        by (simp add: forEach_item_def cm painted_pixels_def)
    qed
  qed
qed

lemma fold_forEach_item_pixels:
  assumes "hp_ctx hp"
  shows "\<exists>fc' ctx' hp'.
           fold (forEach_item x y w h) results (fc, ctx, Some hp) = (fc', ctx', Some hp') \<and>
           hp_ctx hp' \<and>
           map src_pixels (ov_drawn ctx')
             = map src_pixels (ov_drawn ctx) @ concat (map painted_pixels results)"
  using assms
proof (induction results arbitrary: fc ctx hp)
  case Nil
  then show ?case by simp
next
  case (Cons item results)
  from forEach_item_pixels[OF Cons.prems, of x y w h item fc ctx]
  obtain fc1 ctx1 hp1 where
    one: "forEach_item x y w h item (fc, ctx, Some hp) = (fc1, ctx1, Some hp1)"
    and c1: "hp_ctx hp1"
    and p1: "map src_pixels (ov_drawn ctx1) = map src_pixels (ov_drawn ctx) @ painted_pixels item"
    by blast
  from Cons.IH[OF c1, of fc1 ctx1]
  obtain fc' ctx' hp' where
    rest: "fold (forEach_item x y w h) results (fc1, ctx1, Some hp1) = (fc', ctx', Some hp')"
    and c': "hp_ctx hp'"
    and p': "map src_pixels (ov_drawn ctx')
               = map src_pixels (ov_drawn ctx1) @ concat (map painted_pixels results)"
    by blast
  have "fold (forEach_item x y w h) (item # results) (fc, ctx, Some hp) = (fc', ctx', Some hp')"
    using one rest by simp
  moreover have "map src_pixels (ov_drawn ctx')
             = map src_pixels (ov_drawn ctx) @ concat (map painted_pixels (item # results))"
    using p1 p' by simp
  ultimately show ?case using c' by blast
qed

lemma render_unfold:
  assumes ctx: "ov_ctx canvas" and v: "videoWidth v \<noteq> 0" "videoHeight v \<noteq> 0"
  shows "\<exists>x y w h cleared.
           ov_drawn cleared = [] \<and>
           renderSegmentationOverlay results canvas v cropPercent s =
             (case fold (forEach_item x y w h) results ([], cleared, maskHelperCanvas s) of
                (foundClasses, ctx', helperRef) \<Rightarrow>
                   s\<lparr>overlayCanvas := Some ctx', maskHelperCanvas := helperRef,
                     activeClasses := foundClasses\<rparr>)"
proof -
  obtain displayedW displayedH offsetX offsetY
    where r: "displayRect (clientWidth v) (clientHeight v) (videoWidth v) (videoHeight v)
                = (displayedW, displayedH, offsetX, offsetY)"
    by (cases "displayRect (clientWidth v) (clientHeight v) (videoWidth v) (videoHeight v)") auto
  let ?cleared = "(if ov_width canvas \<noteq> clientWidth v \<or> ov_height canvas \<noteq> clientHeight v
                then canvas\<lparr>ov_width := clientWidth v, ov_height := clientHeight v,
                                     ov_drawn := []\<rparr>
                else canvas)\<lparr>ov_drawn := []\<rparr>"
  have "ov_drawn ?cleared = []" by simp
  moreover have "renderSegmentationOverlay results canvas v cropPercent s =
             (case fold (forEach_item offsetX (offsetY + displayedH * cropPercent) displayedW
                           (displayedH * (1 - cropPercent)))
                     results ([], ?cleared, maskHelperCanvas s) of
                (foundClasses, ctx', helperRef) \<Rightarrow>
                   s\<lparr>overlayCanvas := Some ctx', maskHelperCanvas := helperRef,
                     activeClasses := foundClasses\<rparr>)"
    using ctx v r by (simp add: renderSegmentationOverlay_def Let_def)
  ultimately show ?thesis by blast
qed

lemma render_activeClasses:
  assumes ctx: "ov_ctx canvas" and v: "videoWidth v \<noteq> 0" "videoHeight v \<noteq> 0"
  shows "activeClasses (renderSegmentationOverlay results canvas v cropPercent s) =
           fold (\<lambda>item fc. snd (colorMapping (toLowerCase (label item)) fc)) results []"
proof -
  from render_unfold[OF ctx v, of results cropPercent s]
  obtain x y w h cleared where
    u: "renderSegmentationOverlay results canvas v cropPercent s =
             (case fold (forEach_item x y w h) results ([], cleared, maskHelperCanvas s) of
                (foundClasses, ctx', helperRef) \<Rightarrow>
                   s\<lparr>overlayCanvas := Some ctx', maskHelperCanvas := helperRef,
                     activeClasses := foundClasses\<rparr>)"
    by blast
  have "activeClasses (renderSegmentationOverlay results canvas v cropPercent s)
          = fst (fold (forEach_item x y w h) results ([], cleared, maskHelperCanvas s))"
    unfolding u by (simp split: prod.splits)
  then show ?thesis by (simp add: fst_fold_forEach_item)
qed

lemma render_pixels:
  assumes ctx: "ov_ctx canvas" and v: "videoWidth v \<noteq> 0" "videoHeight v \<noteq> 0"
    and hp: "maskHelperCanvas s = Some hp" "hp_ctx hp"
  shows "\<exists>ctx'. overlayCanvas (renderSegmentationOverlay results canvas v cropPercent s) = Some ctx' \<and>
           map src_pixels (ov_drawn ctx') = concat (map painted_pixels results)"
proof -
  from render_unfold[OF ctx v, of results cropPercent s]
  obtain x y w h cleared where
    cl: "ov_drawn cleared = []" and
    u: "renderSegmentationOverlay results canvas v cropPercent s =
             (case fold (forEach_item x y w h) results ([], cleared, maskHelperCanvas s) of
                (foundClasses, ctx', helperRef) \<Rightarrow>
                   s\<lparr>overlayCanvas := Some ctx', maskHelperCanvas := helperRef,
                     activeClasses := foundClasses\<rparr>)"
    by blast
  from fold_forEach_item_pixels[OF hp(2), of x y w h results "[]" cleared]
  obtain fc' ctx' hp' where
    f: "fold (forEach_item x y w h) results ([], cleared, Some hp) = (fc', ctx', Some hp')"
    and p: "map src_pixels (ov_drawn ctx')
             = map src_pixels (ov_drawn cleared) @ concat (map painted_pixels results)"
    by blast
  have "overlayCanvas (renderSegmentationOverlay results canvas v cropPercent s) = Some ctx'"
    unfolding u hp(1) f by simp
  with p cl show ?thesis by simp
qed

text \<open>
  Claim C5. The colour mapping is applied to the lower-cased label: a label that
  lower-cases to \<^verbatim>\<open>traffic light\<close> or \<^verbatim>\<open>traffic_light\<close> gets the colour (255,230,0,200) and
  adds TRAFFIC LIGHT to the found classes; one that lower-cases to \<^verbatim>\<open>car\<close>, \<^verbatim>\<open>truck\<close>,
  \<^verbatim>\<open>bus\<close>, \<^verbatim>\<open>motorcycle\<close> or \<^verbatim>\<open>bicycle\<close> gets (0,255,100,160) and adds VEHICLE; any
  other label gets no colour and adds nothing. After a render the active classes are
  exactly the categories of the labels met, each once, and the images drawn are exactly
  the masks of the mapped results painted in their colours, in order. The label
  \<^verbatim>\<open>Traffic Light\<close> lower-cases to \<^verbatim>\<open>traffic light\<close>; a result labelled \<^verbatim>\<open>pedestrian\<close> alone
  leaves the active classes empty and draws nothing.
\<close>

theorem C5_label_classification:
  "(toLowerCase lbl = ''traffic light'' \<or> toLowerCase lbl = ''traffic_light'' \<longrightarrow>
      colorMapping (toLowerCase lbl) fc
        = (Some (255, 230, 0, 200), Set_add ''TRAFFIC LIGHT'' fc)) \<and>
   (toLowerCase lbl \<in> set [''car'', ''truck'', ''bus'', ''motorcycle'', ''bicycle''] \<longrightarrow>
      colorMapping (toLowerCase lbl) fc = (Some (0, 255, 100, 160), Set_add ''VEHICLE'' fc)) \<and>
   (toLowerCase lbl \<notin> set [''traffic light'', ''traffic_light'', ''car'', ''truck'', ''bus'',
                            ''motorcycle'', ''bicycle''] \<longrightarrow>
      colorMapping (toLowerCase lbl) fc = (None, fc)) \<and>
   toLowerCase ''Traffic Light'' = ''traffic light'' \<and>
   toLowerCase ''pedestrian'' = ''pedestrian'' \<and>
   (ov_ctx canvas \<and> videoWidth v \<noteq> 0 \<and> videoHeight v \<noteq> 0 \<longrightarrow>
      distinct (activeClasses (renderSegmentationOverlay results canvas v cropPercent s)) \<and>
      set (activeClasses (renderSegmentationOverlay results canvas v cropPercent s)) =
        (if \<exists>item\<in>set results. toLowerCase (label item) = ''traffic light'' \<or>
                                  toLowerCase (label item) = ''traffic_light''
         then {''TRAFFIC LIGHT''} else {}) \<union>
        (if \<exists>item\<in>set results.
              toLowerCase (label item) \<in> set [''car'', ''truck'', ''bus'', ''motorcycle'', ''bicycle'']
         then {''VEHICLE''} else {}) \<and>
      (\<forall>hp. maskHelperCanvas s = Some hp \<and> hp_ctx hp \<longrightarrow>
         (\<exists>ctx'. overlayCanvas (renderSegmentationOverlay results canvas v cropPercent s)
                    = Some ctx' \<and>
                 map src_pixels (ov_drawn ctx') = concat (map painted_pixels results))) \<and>
      activeClasses (renderSegmentationOverlay
                       [\<lparr>label = ''pedestrian'', score = sc, mask_img = mk\<rparr>]
                       canvas v cropPercent s) = [] \<and>
      (\<exists>ctx'. overlayCanvas (renderSegmentationOverlay
                               [\<lparr>label = ''pedestrian'', score = sc, mask_img = mk\<rparr>]
                               canvas v cropPercent s) = Some ctx' \<and>
              ov_drawn ctx' = []))"
proof (intro conjI impI allI)
  assume "toLowerCase lbl = ''traffic light'' \<or> toLowerCase lbl = ''traffic_light''"
  then show "colorMapping (toLowerCase lbl) fc
        = (Some (255, 230, 0, 200), Set_add ''TRAFFIC LIGHT'' fc)"
    by (simp add: colorMapping_def)
next
  assume "toLowerCase lbl \<in> set [''car'', ''truck'', ''bus'', ''motorcycle'', ''bicycle'']"
  then show "colorMapping (toLowerCase lbl) fc = (Some (0, 255, 100, 160), Set_add ''VEHICLE'' fc)"
    by (auto simp add: colorMapping_def)
next
  assume "toLowerCase lbl \<notin> set [''traffic light'', ''traffic_light'', ''car'', ''truck'', ''bus'',
                            ''motorcycle'', ''bicycle'']"
  then show "colorMapping (toLowerCase lbl) fc = (None, fc)"
    by (simp add: colorMapping_def)
next
  show "toLowerCase ''Traffic Light'' = ''traffic light''" by code_simp
next
  show "toLowerCase ''pedestrian'' = ''pedestrian''" by code_simp
next
  assume a: "ov_ctx canvas \<and> videoWidth v \<noteq> 0 \<and> videoHeight v \<noteq> 0"
  then have c: "ov_ctx canvas" and v1: "videoWidth v \<noteq> 0" and v2: "videoHeight v \<noteq> 0"
    by simp_all
  note ac = render_activeClasses[OF c v1 v2]
  show "distinct (activeClasses (renderSegmentationOverlay results canvas v cropPercent s))"
    unfolding ac by (rule distinct_fold_classes) simp
  show "set (activeClasses (renderSegmentationOverlay results canvas v cropPercent s)) =
        (if \<exists>item\<in>set results. toLowerCase (label item) = ''traffic light'' \<or>
                                  toLowerCase (label item) = ''traffic_light''
         then {''TRAFFIC LIGHT''} else {}) \<union>
        (if \<exists>item\<in>set results.
              toLowerCase (label item) \<in> set [''car'', ''truck'', ''bus'', ''motorcycle'', ''bicycle'']
         then {''VEHICLE''} else {})"
    unfolding ac set_fold_classes by simp
  have ped: "toLowerCase ''pedestrian'' = ''pedestrian''" by code_simp
  have one: "fold (\<lambda>item fc. snd (colorMapping (toLowerCase (label item)) fc))
               [\<lparr>label = ''pedestrian'', score = sc, mask_img = mk\<rparr>] [] = []"
    by (simp add: ped colorMapping_def)
  show "activeClasses (renderSegmentationOverlay
                       [\<lparr>label = ''pedestrian'', score = sc, mask_img = mk\<rparr>]
                       canvas v cropPercent s) = []"
    unfolding ac one ..
  from render_unfold[OF c v1 v2, of "[\<lparr>label = ''pedestrian'', score = sc, mask_img = mk\<rparr>]"
         cropPercent s]
  show "\<exists>ctx'. overlayCanvas (renderSegmentationOverlay
                               [\<lparr>label = ''pedestrian'', score = sc, mask_img = mk\<rparr>]
                               canvas v cropPercent s) = Some ctx' \<and>
              ov_drawn ctx' = []"
    by (auto simp add: forEach_item_def ped colorMapping_def)
next
  fix hp
  assume a: "ov_ctx canvas \<and> videoWidth v \<noteq> 0 \<and> videoHeight v \<noteq> 0"
    and h: "maskHelperCanvas s = Some hp \<and> hp_ctx hp"
  then show "\<exists>ctx'. overlayCanvas (renderSegmentationOverlay results canvas v cropPercent s)
                    = Some ctx' \<and>
                 map src_pixels (ov_drawn ctx') = concat (map painted_pixels results)"
    using render_pixels[of canvas v s hp results cropPercent] by blast
qed

theorem C5_label_classification_witness:
  "toLowerCase ''TRUCK'' \<in> set [''car'', ''truck'', ''bus'', ''motorcycle'', ''bicycle''] \<and>
   colorMapping (toLowerCase ''TRUCK'') [] = (Some (0, 255, 100, 160), [''VEHICLE'']) \<and>
   toLowerCase ''Traffic_Light'' = ''traffic_light'' \<and>
   colorMapping (toLowerCase ''Traffic_Light'') [''VEHICLE'']
     = (Some (255, 230, 0, 200), [''VEHICLE'', ''TRAFFIC LIGHT'']) \<and>
   toLowerCase ''Pedestrian'' \<notin> set [''traffic light'', ''traffic_light'', ''car'', ''truck'',
                                       ''bus'', ''motorcycle'', ''bicycle''] \<and>
   colorMapping (toLowerCase ''Pedestrian'') [''VEHICLE''] = (None, [''VEHICLE'']) \<and>
   ov_ctx example_canvas \<and> videoWidth example_video \<noteq> 0 \<and> videoHeight example_video \<noteq> 0 \<and>
   maskHelperCanvas example_state = Some example_helper \<and> hp_ctx example_helper \<and>
   set (activeClasses (renderSegmentationOverlay example_results example_canvas example_video
                         CROP_PERCENT example_state)) = {''TRAFFIC LIGHT'', ''VEHICLE''} \<and>
   (\<exists>ctx'. overlayCanvas (renderSegmentationOverlay example_results example_canvas example_video
                            CROP_PERCENT example_state) = Some ctx' \<and>
           map src_pixels (ov_drawn ctx') =
             [[255, 230, 0, 200, 0, 0, 0, 0, 0, 0, 0, 0, 255, 230, 0, 200],
              [0, 255, 100, 160, 0, 0, 0, 0, 0, 0, 0, 0, 0, 255, 100, 160]])"
proof -
  have t1: "toLowerCase ''TRUCK'' = ''truck''" by code_simp
  have t2: "toLowerCase ''Traffic_Light'' = ''traffic_light''" by code_simp
  have l1: "toLowerCase ''Traffic Light'' = ''traffic light''" by code_simp
  have l2: "toLowerCase ''pedestrian'' = ''pedestrian''" by code_simp
  have l3: "toLowerCase ''car'' = ''car''" by code_simp
  have h: "ov_ctx example_canvas \<and> videoWidth example_video \<noteq> 0 \<and> videoHeight example_video \<noteq> 0"
    by (simp add: example_canvas_def example_video_def)
  have hp: "maskHelperCanvas example_state = Some example_helper \<and> hp_ctx example_helper"
    by (simp add: example_state_def example_helper_def)
  have p1: "paint_mask [255, 0, 0, 7] (255, 230, 0, 200) (createImageData 2 2)
              = [255, 230, 0, 200, 0, 0, 0, 0, 0, 0, 0, 0, 255, 230, 0, 200]" by code_simp
  have p2: "paint_mask [255, 0, 0, 7] (0, 255, 100, 160) (createImageData 2 2)
              = [0, 255, 100, 160, 0, 0, 0, 0, 0, 0, 0, 0, 0, 255, 100, 160]" by code_simp
  have pp: "concat (map painted_pixels example_results) =
             [[255, 230, 0, 200, 0, 0, 0, 0, 0, 0, 0, 0, 255, 230, 0, 200],
              [0, 255, 100, 160, 0, 0, 0, 0, 0, 0, 0, 0, 0, 255, 100, 160]]"
    by (simp add: example_results_def painted_pixels_def l1 l2 l3 colorMapping_def
          example_mask_def p1 p2)
  note inst1 = C5_label_classification[of "''TRUCK''" "[]" example_canvas example_video
                 example_results CROP_PERCENT example_state]
  note inst2 = C5_label_classification[of "''Traffic_Light''" "[''VEHICLE'']" example_canvas
                 example_video example_results CROP_PERCENT example_state]
  have t3: "toLowerCase ''Pedestrian'' = ''pedestrian''" by code_simp
  have n3: "toLowerCase ''Pedestrian'' \<notin> set [''traffic light'', ''traffic_light'', ''car'',
              ''truck'', ''bus'', ''motorcycle'', ''bicycle'']"
    unfolding t3 by simp
  note inst3 = C5_label_classification[of "''Pedestrian''" "[''VEHICLE'']" example_canvas
                 example_video example_results CROP_PERCENT example_state]
  have c3: "colorMapping (toLowerCase ''Pedestrian'') [''VEHICLE''] = (None, [''VEHICLE''])"
    using inst3 n3 by blast
  have c1: "colorMapping (toLowerCase ''TRUCK'') [] = (Some (0, 255, 100, 160), [''VEHICLE''])"
    using inst1 t1 by (simp add: Set_add_def)
  have c2: "colorMapping (toLowerCase ''Traffic_Light'') [''VEHICLE'']
     = (Some (255, 230, 0, 200), [''VEHICLE'', ''TRAFFIC LIGHT''])"
    using inst2 t2 by (simp add: Set_add_def)
  have s: "set (activeClasses (renderSegmentationOverlay example_results example_canvas
                 example_video CROP_PERCENT example_state)) = {''TRAFFIC LIGHT'', ''VEHICLE''}"
  proof -
    from inst1 h have
      "set (activeClasses (renderSegmentationOverlay example_results example_canvas
                 example_video CROP_PERCENT example_state)) =
        (if \<exists>item\<in>set example_results. toLowerCase (label item) = ''traffic light'' \<or>
                                  toLowerCase (label item) = ''traffic_light''
         then {''TRAFFIC LIGHT''} else {}) \<union>
        (if \<exists>item\<in>set example_results.
              toLowerCase (label item) \<in> set [''car'', ''truck'', ''bus'', ''motorcycle'', ''bicycle'']
         then {''VEHICLE''} else {})"
      by blast
    also have "\<dots> = {''TRAFFIC LIGHT'', ''VEHICLE''}"
      by (simp add: example_results_def l1 l2 l3 insert_commute)
    finally show ?thesis .
  qed
  have d: "\<exists>ctx'. overlayCanvas (renderSegmentationOverlay example_results example_canvas
                     example_video CROP_PERCENT example_state) = Some ctx' \<and>
           map src_pixels (ov_drawn ctx') = concat (map painted_pixels example_results)"
    using inst1 h hp by blast
  show ?thesis using t1 t2 c1 c2 n3 c3 h hp s d unfolding pp by simp
qed

section \<open>The playback tick and the duration cap\<close>

lemma seek_0_currentTime: "currentTime (seek 0 video) = 0"
  by (simp add: seek_def split: js_duration.splits)

lemma playbackLoop_cap:
  assumes "visibleVideo s = Some video" "\<not> paused video" "\<not> ended video"
    and "currentTime video \<ge> MAX_DEMO_DURATION"
  shows "playbackLoop s = s\<lparr>visibleVideo := Some (seek 0 video), rafRequests := rafRequests s + 1\<rparr>"
  using assms by (simp add: playbackLoop_def)

lemma playbackLoop_below:
  assumes "visibleVideo s = Some video" "\<not> paused video" "\<not> ended video"
    and "currentTime video < MAX_DEMO_DURATION"
  shows "playbackLoop s =
           (let s' = (case closestFrame_of (cache s) (currentTime video) of None \<Rightarrow> s
                      | Some closestFrame \<Rightarrow>
                          (case overlayCanvas s of None \<Rightarrow> s
                           | Some canvas \<Rightarrow>
                               renderSegmentationOverlay (odResult closestFrame) canvas video
                                 CROP_PERCENT s))
            in s'\<lparr>rafRequests := rafRequests s' + 1\<rparr>)"
  using assms by (simp add: playbackLoop_def)

lemma playbackLoop_draws_below_cap:
  assumes "overlayCanvas (playbackLoop s) \<noteq> overlayCanvas s \<or>
           maskHelperCanvas (playbackLoop s) \<noteq> maskHelperCanvas s \<or>
           activeClasses (playbackLoop s) \<noteq> activeClasses s"
  shows "\<exists>video. visibleVideo s = Some video \<and> \<not> paused video \<and> \<not> ended video \<and>
           currentTime video < MAX_DEMO_DURATION"
proof (cases "visibleVideo s")
  case None
  with assms show ?thesis by (simp add: playbackLoop_def)
next
  case (Some video)
  show ?thesis
  proof (cases "paused video \<or> ended video")
    case True
    with assms Some show ?thesis by (simp add: playbackLoop_def)
  next
    case False
    show ?thesis
    proof (cases "currentTime video \<ge> MAX_DEMO_DURATION")
      case True
      with assms Some False show ?thesis by (simp add: playbackLoop_def)
    next
      case False
      with Some \<open>\<not> (paused video \<or> ended video)\<close> show ?thesis by simp
    qed
  qed
qed

text \<open>
  Claim C8. On a tick with the video playing (neither paused nor ended): at a current time
  at or beyond the cap of 15 s the tick only seeks the video to 0 and requests the next
  frame; its result does not depend on the cache, and the overlay, the helper and the
  active classes are untouched. Below the cap (14.95 s is below) the tick looks up the
  nearest frame, renders it when there is one, and requests the next frame. So a tick
  that changes the overlay, the helper or the active classes has a current time below
  the cap.
\<close>

theorem C8_loop_back_at_cap:
  "(visibleVideo s = Some video \<and> \<not> paused video \<and> \<not> ended video \<and>
    currentTime video \<ge> MAX_DEMO_DURATION \<longrightarrow>
      playbackLoop s
        = s\<lparr>visibleVideo := Some (seek 0 video), rafRequests := rafRequests s + 1\<rparr> \<and>
      currentTime (seek 0 video) = 0 \<and>
      playbackLoop (s\<lparr>cache := frames\<rparr>) = (playbackLoop s)\<lparr>cache := frames\<rparr>) \<and>
   (visibleVideo s = Some video \<and> \<not> paused video \<and> \<not> ended video \<and>
    currentTime video < MAX_DEMO_DURATION \<longrightarrow>
      playbackLoop s =
        (let s' = (case closestFrame_of (cache s) (currentTime video) of None \<Rightarrow> s
                   | Some closestFrame \<Rightarrow>
                       (case overlayCanvas s of None \<Rightarrow> s
                        | Some canvas \<Rightarrow>
                            renderSegmentationOverlay (odResult closestFrame) canvas video
                              CROP_PERCENT s))
         in s'\<lparr>rafRequests := rafRequests s' + 1\<rparr>)) \<and>
   MAX_DEMO_DURATION = 15 \<and> 14.95 < MAX_DEMO_DURATION \<and>
   (overlayCanvas (playbackLoop s) \<noteq> overlayCanvas s \<or>
    maskHelperCanvas (playbackLoop s) \<noteq> maskHelperCanvas s \<or>
    activeClasses (playbackLoop s) \<noteq> activeClasses s \<longrightarrow>
      (\<exists>playing. visibleVideo s = Some playing \<and> \<not> paused playing \<and> \<not> ended playing \<and>
         currentTime playing < MAX_DEMO_DURATION))"
proof (intro conjI impI)
  assume a: "visibleVideo s = Some video \<and> \<not> paused video \<and> \<not> ended video \<and>
    currentTime video \<ge> MAX_DEMO_DURATION"
  then show "playbackLoop s
        = s\<lparr>visibleVideo := Some (seek 0 video), rafRequests := rafRequests s + 1\<rparr>"
    using playbackLoop_cap[of s video] by blast
  show "currentTime (seek 0 video) = 0" by (rule seek_0_currentTime)
  from a have "visibleVideo (s\<lparr>cache := frames\<rparr>) = Some video" by simp
  with a have "playbackLoop (s\<lparr>cache := frames\<rparr>)
      = (s\<lparr>cache := frames\<rparr>)\<lparr>visibleVideo := Some (seek 0 video),
            rafRequests := rafRequests (s\<lparr>cache := frames\<rparr>) + 1\<rparr>"
    using playbackLoop_cap[of "s\<lparr>cache := frames\<rparr>" video] by blast
  moreover have "playbackLoop s
        = s\<lparr>visibleVideo := Some (seek 0 video), rafRequests := rafRequests s + 1\<rparr>"
    using a playbackLoop_cap[of s video] by blast
  ultimately show "playbackLoop (s\<lparr>cache := frames\<rparr>) = (playbackLoop s)\<lparr>cache := frames\<rparr>"
    by simp
next
  assume "visibleVideo s = Some video \<and> \<not> paused video \<and> \<not> ended video \<and>
    currentTime video < MAX_DEMO_DURATION"
  then show "playbackLoop s =
        (let s' = (case closestFrame_of (cache s) (currentTime video) of None \<Rightarrow> s
                   | Some closestFrame \<Rightarrow>
                       (case overlayCanvas s of None \<Rightarrow> s
                        | Some canvas \<Rightarrow>
                            renderSegmentationOverlay (odResult closestFrame) canvas video
                              CROP_PERCENT s))
         in s'\<lparr>rafRequests := rafRequests s' + 1\<rparr>)"
    using playbackLoop_below[of s video] by blast
next
  show "MAX_DEMO_DURATION = 15" by (simp add: MAX_DEMO_DURATION_def)
  show "14.95 < MAX_DEMO_DURATION" by (simp add: MAX_DEMO_DURATION_def)
next
  assume "overlayCanvas (playbackLoop s) \<noteq> overlayCanvas s \<or>
    maskHelperCanvas (playbackLoop s) \<noteq> maskHelperCanvas s \<or>
    activeClasses (playbackLoop s) \<noteq> activeClasses s"
  then show "\<exists>playing. visibleVideo s = Some playing \<and> \<not> paused playing \<and> \<not> ended playing \<and>
         currentTime playing < MAX_DEMO_DURATION"
    by (rule playbackLoop_draws_below_cap)
qed

theorem C8_loop_back_at_cap_witness:
  "visibleVideo example_at_cap = Some example_video_at_cap \<and>
   \<not> paused example_video_at_cap \<and> \<not> ended example_video_at_cap \<and>
   currentTime example_video_at_cap \<ge> MAX_DEMO_DURATION \<and>
   map_option currentTime (visibleVideo (playbackLoop example_at_cap)) = Some 0 \<and>
   rafRequests (playbackLoop example_at_cap) = 1 \<and>
   overlayCanvas (playbackLoop example_at_cap) = overlayCanvas example_at_cap \<and>
   visibleVideo example_playing = Some example_video_late \<and>
   \<not> paused example_video_late \<and>
   \<not> ended example_video_late \<and>
   currentTime example_video_late < MAX_DEMO_DURATION \<and>
   closestFrame_of (cache example_playing) 14.95
     = Some \<lparr>timestamp = 15, odResult = example_results\<rparr> \<and>
   activeClasses (playbackLoop example_playing) = [''TRAFFIC LIGHT'', ''VEHICLE''] \<and>
   activeClasses (playbackLoop example_playing) \<noteq> activeClasses example_playing \<and>
   rafRequests (playbackLoop example_playing) = 1"
proof -
  let ?v1 = "example_video_at_cap"
  let ?v2 = "example_video_late"
  have h1: "visibleVideo example_at_cap = Some ?v1 \<and> \<not> paused ?v1 \<and> \<not> ended ?v1 \<and>
            currentTime ?v1 \<ge> MAX_DEMO_DURATION"
    by (simp add: example_at_cap_def example_state_def example_video_def example_video_at_cap_def ended_def
          MAX_DEMO_DURATION_def)
  have h2: "visibleVideo example_playing = Some ?v2 \<and> \<not> paused ?v2 \<and> \<not> ended ?v2 \<and>
            currentTime ?v2 < MAX_DEMO_DURATION"
    by (simp add: example_playing_def example_state_def example_video_def example_video_late_def ended_def
          MAX_DEMO_DURATION_def)
  have near: "closestFrame_of (cache example_playing) 14.95
     = Some \<lparr>timestamp = 15, odResult = example_results\<rparr>"
    by (simp add: example_playing_def example_state_def closestFrame_of_def lt_minDiff_def)
  have canvas: "overlayCanvas example_playing = Some example_canvas"
    by (simp add: example_playing_def example_state_def example_canvas_def)
  note cap = C8_loop_back_at_cap[of example_at_cap ?v1 "[]"]
  note below = C8_loop_back_at_cap[of example_playing ?v2 "[]"]
  from cap h1 have p1: "playbackLoop example_at_cap
        = example_at_cap\<lparr>visibleVideo := Some (seek 0 ?v1),
                          rafRequests := rafRequests example_at_cap + 1\<rparr>"
    and z: "currentTime (seek 0 ?v1) = 0"
    by blast+
  from below h2 have p2: "playbackLoop example_playing =
        (let s' = (case closestFrame_of (cache example_playing) (currentTime ?v2) of
                     None \<Rightarrow> example_playing
                   | Some closestFrame \<Rightarrow>
                       (case overlayCanvas example_playing of None \<Rightarrow> example_playing
                        | Some canvas \<Rightarrow>
                            renderSegmentationOverlay (odResult closestFrame) canvas ?v2
                              CROP_PERCENT example_playing))
         in s'\<lparr>rafRequests := rafRequests s' + 1\<rparr>)"
    by blast
  have t: "currentTime ?v2 = 14.95" by (simp add: example_video_late_def)
  have r: "renderSegmentationOverlay example_results example_canvas ?v2 CROP_PERCENT example_playing
      = example_playing\<lparr>overlayCanvas := Some \<lparr>ov_width = 1280, ov_height = 720, ov_ctx = True,
          ov_drawn =
            [\<lparr>src_pixels = [255, 230, 0, 200, 0, 0, 0, 0, 0, 0, 0, 0, 255, 230, 0, 200],
              src_w = 2, src_h = 2, dst_x = 0, dst_y = 144, dst_w = 1280,
              dst_h = 576, smoothing = False\<rparr>,
             \<lparr>src_pixels = [0, 255, 100, 160, 0, 0, 0, 0, 0, 0, 0, 0, 0, 255, 100, 160],
              src_w = 2, src_h = 2, dst_x = 0, dst_y = 144, dst_w = 1280,
              dst_h = 576, smoothing = False\<rparr>]\<rparr>,
         maskHelperCanvas := Some \<lparr>hp_width = 2, hp_height = 2, hp_ctx = True,
            hp_pixels = [0, 255, 100, 160, 0, 0, 0, 0, 0, 0, 0, 0, 0, 255, 100, 160],
            hp_resizes = 1\<rparr>,
         activeClasses := [''TRAFFIC LIGHT'', ''VEHICLE'']\<rparr>"
    by (simp add: renderSegmentationOverlay_def example_results_def example_canvas_def
          example_video_def example_video_late_def example_state_def example_playing_def
          CROP_PERCENT_def
          example_displayRect Let_def forEach_item_def
          colorMapping_def example_lower Set_add_def drawMaskToContext_def example_mask_def
          example_paint)
  have raf0: "rafRequests example_playing = 0"
    by (simp add: example_playing_def example_state_def)
  have a2: "activeClasses (playbackLoop example_playing) = [''TRAFFIC LIGHT'', ''VEHICLE'']"
    and r2: "rafRequests (playbackLoop example_playing) = 1"
    unfolding p2 t near canvas by (simp_all add: r Let_def raf0)
  have a0: "activeClasses example_playing = []"
    by (simp add: example_playing_def example_state_def)
  have m1: "map_option currentTime (visibleVideo (playbackLoop example_at_cap)) = Some 0"
    unfolding p1 using z by simp
  have r1: "rafRequests (playbackLoop example_at_cap) = 1"
    unfolding p1 by (simp add: example_at_cap_def example_state_def)
  have o1: "overlayCanvas (playbackLoop example_at_cap) = overlayCanvas example_at_cap"
    unfolding p1 by simp
  show ?thesis
    using h1 h2 near a2 r2 a0 m1 r1 o1 by simp
qed

section \<open>Double arithmetic: evaluation and error bound\<close>

lemma binade_up_spec:
  "2 powi k \<le> a \<Longrightarrow> 2 powi (binade_up a k) \<le> a \<and> a < 2 powi (binade_up a k + 1)"
proof (induction a k rule: binade_up.induct)
  case (1 a k)
  show ?case
  proof (cases "2 powi (k + 1) \<le> a")
    case True
    from "1.IH"[OF True True] show ?thesis
      by (subst (1 2) binade_up.simps) (simp add: True)
  next
    case False
    with "1.prems" show ?thesis
      by (subst (1 2) binade_up.simps) simp
  qed
qed

lemma binade_down_spec:
  "0 < a \<Longrightarrow> a < 2 powi (k + 1) \<Longrightarrow>
     2 powi (binade_down a k) \<le> a \<and> a < 2 powi (binade_down a k + 1)"
proof (induction a k rule: binade_down.induct)
  case (1 a k)
  show ?case
  proof (cases "a < 2 powi k")
    case True
    with "1.prems"(1) have c: "0 < a \<and> a < 2 powi k" by simp
    from True have "a < 2 powi (k - 1 + 1)" by simp
    from "1.IH"[OF c "1.prems"(1) this] show ?thesis
      by (subst (1 2) binade_down.simps) (simp add: c)
  next
    case False
    with "1.prems" show ?thesis
      by (subst (1 2) binade_down.simps) simp
  qed
qed

lemma binade_spec:
  assumes "x \<noteq> 0"
  shows "2 powi (binade x) \<le> \<bar>x\<bar> \<and> \<bar>x\<bar> < 2 powi (binade x + 1)"
proof (cases "1 \<le> \<bar>x\<bar>")
  case True
  then have "2 powi 0 \<le> \<bar>x\<bar>" by simp
  from binade_up_spec[OF this] True show ?thesis by (simp add: binade_def)
next
  case False
  then have "\<bar>x\<bar> < 2 powi (- 1 + 1)" by simp
  moreover have "0 < \<bar>x\<bar>" using assms by simp
  ultimately show ?thesis using binade_down_spec[of "\<bar>x\<bar>" "- 1"] False
    by (simp add: binade_def)
qed

lemma binade_less:
  assumes "x \<noteq> 0" "\<bar>x\<bar> < 2 powi (k + 1)"
  shows "binade x \<le> k"
proof (rule ccontr)
  assume "\<not> binade x \<le> k"
  then have "k + 1 \<le> binade x" by simp
  then have "(2::real) powi (k + 1) \<le> 2 powi (binade x)"
    by (intro power_int_increasing) simp_all
  with binade_spec[OF assms(1)] assms(2) show False by linarith
qed

lemma binade_eq:
  assumes "2 powi k \<le> \<bar>x\<bar>" "\<bar>x\<bar> < 2 powi (k + 1)"
  shows "binade x = k"
proof -
  have "(0::real) < 2 powi k" by (rule zero_less_power_int) simp
  then have "0 < \<bar>x\<bar>" using assms(1) by (rule less_le_trans)
  then have nz: "x \<noteq> 0" by simp
  have le: "binade x \<le> k" by (rule binade_less[OF nz assms(2)])
  have "k \<le> binade x"
  proof (rule ccontr)
    assume "\<not> k \<le> binade x"
    then have "binade x + 1 \<le> k" by simp
    then have "(2::real) powi (binade x + 1) \<le> 2 powi k"
      by (intro power_int_increasing) simp_all
    with binade_spec[OF nz] assms(1) show False by linarith
  qed
  with le show ?thesis by simp
qed

lemma rd_eval:
  assumes "2 powi k \<le> \<bar>x\<bar>" "\<bar>x\<bar> < 2 powi (k + 1)"
  shows "rd x = of_int (rne (x / 2 powi (k - 52))) * 2 powi (k - 52)"
proof -
  have "(0::real) < 2 powi k" by (rule zero_less_power_int) simp
  then have "0 < \<bar>x\<bar>" using assms(1) by (rule less_le_trans)
  then have "x \<noteq> 0" by simp
  then show ?thesis by (simp add: rd_def binade_eq[OF assms])
qed

lemma rne_error: "\<bar>real_of_int (rne y) - y\<bar> \<le> 1 / 2"
  unfolding rne_def Let_def by (auto simp add: abs_le_iff)

lemma rne_nonneg: "0 \<le> y \<Longrightarrow> 0 \<le> rne y"
  unfolding rne_def Let_def by auto

text \<open>Rounding moves a number below \<open>2 ^ (k + 1)\<close> by at most half a unit in the last place
  of that binade.\<close>

lemma rd_error:
  assumes "\<bar>x\<bar> < 2 powi (k + 1)"
  shows "\<bar>rd x - x\<bar> \<le> 2 powi (k - 53)"
proof (cases "x = 0")
  case True
  then show ?thesis by (simp add: rd_def)
next
  case False
  let ?u = "(2::real) powi (binade x - 52)"
  have upos: "0 < ?u" by simp
  have "binade x \<le> k" by (rule binade_less[OF False assms])
  then have "binade x - 52 \<le> k - 52" by simp
  then have ule: "?u \<le> 2 powi (k - 52)"
    by (intro power_int_increasing) simp_all
  have "rd x - x = (real_of_int (rne (x / ?u)) - x / ?u) * ?u"
    using False upos by (simp add: rd_def field_simps)
  then have "\<bar>rd x - x\<bar> = \<bar>real_of_int (rne (x / ?u)) - x / ?u\<bar> * ?u"
    using upos by (simp add: abs_mult)
  also have "\<dots> \<le> (1 / 2) * ?u"
    by (rule mult_right_mono[OF rne_error]) simp
  also have "\<dots> \<le> (1 / 2) * 2 powi (k - 52)" using ule by simp
  also have "\<dots> = 2 powi (k - 53)"
    by (simp add: power_int_diff)
  finally show ?thesis .
qed

lemma rd_nonneg: "0 \<le> x \<Longrightarrow> 0 \<le> rd x"
  by (simp add: rd_def rne_nonneg)

text \<open>The doubles of the two literals of the scheduler.\<close>

lemma interval_value: "ANALYSIS_INTERVAL = 3602879701896397 / 18014398509481984"
  unfolding ANALYSIS_INTERVAL_def
  by (subst rd_eval[of "- 3"]) (simp_all add: rne_def power_int_minus Let_def)

lemma slack_value: "rd 0.1 = 3602879701896397 / 36028797018963968"
  by (subst rd_eval[of "- 4"]) (simp_all add: rne_def power_int_minus Let_def)

lemma pow2_values:
  "(2::real) powi (- 48) = 1 / 281474976710656"
  "(2::real) powi (- 49) = 1 / 562949953421312"
  "(2::real) powi (- 50) = 1 / 1125899906842624"
  "(2::real) powi (- 41) = 1 / 2199023255552"
  "(2::real) powi (- 39) = 1 / 549755813888"
  "(2::real) powi (- 40) = 1 / 1099511627776"
  "(2::real) powi (- 47) = 1 / 140737488355328"
  by (simp_all add: power_int_minus)

section \<open>The accumulated sampling times\<close>

lemma accumulated_nonneg: "0 \<le> accumulated k"
proof (induction k)
  case 0
  show ?case by simp
next
  case (Suc k)
  then have "0 \<le> accumulated k + ANALYSIS_INTERVAL" by (simp add: interval_value)
  from rd_nonneg[OF this] show ?case by (simp add: fadd_def)
qed

text \<open>One addition of the interval to a time of at most 16 seconds adds a fifth of a
  second up to \<open>2 ^ -48\<close>.\<close>

lemma fadd_interval:
  assumes "0 \<le> t" "t \<le> 16"
  shows "\<bar>fadd t ANALYSIS_INTERVAL - (t + 1 / 5)\<bar> \<le> 2 powi (- 48)"
proof -
  have "\<bar>t + ANALYSIS_INTERVAL\<bar> < 2 powi (4 + 1)"
    using assms by (simp add: interval_value)
  from rd_error[OF this]
  have "\<bar>fadd t ANALYSIS_INTERVAL - (t + ANALYSIS_INTERVAL)\<bar> \<le> 2 powi (- 49)"
    by (simp add: fadd_def)
  then show ?thesis
    unfolding pow2_values interval_value by linarith
qed

lemma accumulated_drift:
  "k \<le> 79 \<Longrightarrow> \<bar>accumulated k - real k / 5\<bar> \<le> real k * 2 powi (- 48)"
proof (induction k)
  case 0
  show ?case by simp
next
  case (Suc k)
  then have k: "k \<le> 78" and IH: "\<bar>accumulated k - real k / 5\<bar> \<le> real k * 2 powi (- 48)"
    by simp_all
  have "real k \<le> 78" using k by simp
  then have "accumulated k \<le> 16"
    using IH unfolding pow2_values by linarith
  from fadd_interval[OF accumulated_nonneg this]
  have "\<bar>accumulated (Suc k) - (accumulated k + 1 / 5)\<bar> \<le> 2 powi (- 48)" by simp
  then have "\<bar>accumulated (Suc k) - (1 + real k) / 5\<bar> \<le> (1 + real k) * 2 powi (- 48)"
    using IH unfolding pow2_values by argo
  then show ?case by (simp only: of_nat_Suc)
qed

lemma accumulated_step:
  assumes "k \<le> 78"
  shows "\<bar>accumulated (Suc k) - accumulated k - 1 / 5\<bar> \<le> 2 powi (- 48)"
    and "accumulated k < accumulated (Suc k)"
proof -
  have "real k \<le> 78" using assms by simp
  then have "accumulated k \<le> 16"
    using accumulated_drift[of k] assms unfolding pow2_values by linarith
  from fadd_interval[OF accumulated_nonneg this]
  have b: "\<bar>accumulated (Suc k) - (accumulated k + 1 / 5)\<bar> \<le> 2 powi (- 48)" by simp
  then show "\<bar>accumulated (Suc k) - accumulated k - 1 / 5\<bar> \<le> 2 powi (- 48)"
    by (simp add: algebra_simps)
  from b show "accumulated k < accumulated (Suc k)"
    unfolding pow2_values by linarith
qed

lemma accumulated_strict_mono:
  assumes "i < j" "j \<le> 79"
  shows "accumulated i < accumulated j"
  using assms
proof (induction j)
  case 0
  then show ?case by simp
next
  case (Suc j)
  then have j: "j \<le> 78" by simp
  show ?case
  proof (cases "i = j")
    case True
    with accumulated_step(2)[OF j] show ?thesis by simp
  next
    case False
    with Suc.prems have "i < j" by simp
    with Suc.IH j have "accumulated i < accumulated j" by simp
    with accumulated_step(2)[OF j] show ?thesis by simp
  qed
qed

section \<open>The bound and the number of passes of the loop\<close>

lemma loop_bound_near:
  assumes "0 \<le> e" "e \<le> 15"
  shows "\<bar>loop_bound e - (e + 1 / 10)\<bar> \<le> 2 powi (- 49)"
proof -
  have "\<bar>e + rd 0.1\<bar> < 2 powi (3 + 1)"
    using assms by (simp add: slack_value)
  from rd_error[OF this]
  have "\<bar>loop_bound e - (e + rd 0.1)\<bar> \<le> 2 powi (- 50)"
    by (simp add: loop_bound_def fadd_def)
  then show ?thesis
    unfolding pow2_values slack_value by linarith
qed

lemma passes_iff:
  "passes e n \<longleftrightarrow>
     (\<forall>k < n. accumulated k \<le> loop_bound e) \<and> \<not> accumulated n \<le> loop_bound e"
  by (auto simp add: passes_def list_all_iff)

lemma passes_unique:
  assumes "passes e n" "passes e m"
  shows "n = m"
proof (rule ccontr)
  assume "n \<noteq> m"
  then consider "n < m" | "m < n" by linarith
  then show False
    using assms unfolding passes_iff by cases blast+
qed

text \<open>For an effective duration of at most 15 seconds the loop ends, after at least one
  and at most 77 passes.\<close>

lemma passes_ex:
  assumes "0 \<le> e" "e \<le> 15"
  shows "\<exists>n. passes e n \<and> 0 < n \<and> n \<le> 77"
proof -
  note B = loop_bound_near[OF assms]
  have "\<bar>accumulated 77 - real 77 / 5\<bar> \<le> real 77 * 2 powi (- 48)"
    by (rule accumulated_drift) simp
  then have over: "\<not> accumulated 77 \<le> loop_bound e"
    using B assms unfolding pow2_values by linarith
  define n where "n = (LEAST k. \<not> accumulated k \<le> loop_bound e)"
  have n1: "\<not> accumulated n \<le> loop_bound e"
    unfolding n_def using over by (rule LeastI)
  have n2: "\<forall>k < n. accumulated k \<le> loop_bound e"
    unfolding n_def using not_less_Least by blast
  have n3: "n \<le> 77" unfolding n_def using over by (rule Least_le)
  have "0 \<le> loop_bound e"
    using B assms unfolding pow2_values by linarith
  then have "accumulated 0 \<le> loop_bound e" by simp
  with n1 have "n \<noteq> 0" by (metis)
  with n1 n2 n3 show ?thesis unfolding passes_iff by blast
qed

lemma passes_range:
  assumes "0 \<le> e" "e \<le> 15" "passes e n"
  shows "0 < n" "n \<le> 77"
proof -
  from passes_ex[OF assms(1,2)] obtain m where m: "passes e m" "0 < m" "m \<le> 77" by blast
  from passes_unique[OF assms(3) m(1)] m show "0 < n" "n \<le> 77" by simp_all
qed

text \<open>The number of passes is the one of exact arithmetic, \<open>\<lfloor>(e + 0.1) / 0.2\<rfloor> + 1\<close>, unless
  \<open>e + 0.1\<close> is within \<open>2 ^ -41\<close> of a multiple of a fifth.\<close>

lemma passes_exact:
  assumes "0 \<le> e" "e \<le> 15"
    and "real m / 5 + 2 powi (- 41) \<le> e + 1 / 10"
    and "e + 1 / 10 + 2 powi (- 41) < real (Suc m) / 5"
  shows "passes e (Suc m)"
proof -
  note B = loop_bound_near[OF assms(1,2)]
  have m: "real m \<le> 76" using assms(2,3) unfolding pow2_values by simp
  then have m': "Suc m \<le> 79" by simp
  have "\<not> accumulated (Suc m) \<le> loop_bound e"
  proof -
    have "\<not> accumulated (Suc m) \<le> loop_bound e"
      using accumulated_drift[OF m', unfolded of_nat_Suc] B assms(4)[unfolded of_nat_Suc] m
      unfolding pow2_values distrib_right by linarith
    then show ?thesis .
  qed
  moreover have "accumulated k \<le> loop_bound e" if "k < Suc m" for k
  proof -
    have k: "k \<le> 79" using that m' by simp
    have km: "real k \<le> real m" using that by simp
    have "real k \<le> 76" using km m by simp
    then show ?thesis
      using accumulated_drift[OF k] B assms(3) km unfolding pow2_values
      by linarith
  qed
  ultimately show ?thesis unfolding passes_iff by blast
qed

lemma passes_near:
  assumes "0 \<le> e" "e \<le> 15" "passes e n"
  shows "real (n - 1) / 5 \<le> e + 1 / 10 + 2 powi (- 41)"
    and "e + 1 / 10 - 2 powi (- 41) < real n / 5"
proof -
  note B = loop_bound_near[OF assms(1,2)]
  note r = passes_range[OF assms]
  have n: "n \<le> 79" "n - 1 \<le> 79" using r by simp_all
  have rn: "real n \<le> 77" "real (n - 1) \<le> 77" using r by simp_all
  have "n - 1 < n" using r by simp
  then have le: "accumulated (n - 1) \<le> loop_bound e"
    using assms(3) unfolding passes_iff by blast
  have gt: "\<not> accumulated n \<le> loop_bound e"
    using assms(3) unfolding passes_iff by blast
  show "real (n - 1) / 5 \<le> e + 1 / 10 + 2 powi (- 41)"
    using accumulated_drift[OF n(2)] B le rn(2) unfolding pow2_values
    by linarith
  show "e + 1 / 10 - 2 powi (- 41) < real n / 5"
    using accumulated_drift[OF n(1)] B gt rn(1) unfolding pow2_values
    by linarith
qed

section \<open>The analysis scheduler\<close>

text \<open>When the loop makes \<open>n\<close> passes it is a fold of the step over the indices below
  \<open>n\<close>: pass \<open>j\<close> runs at the accumulated time \<open>j\<close> with \<open>j\<close> frames counted.\<close>

lemma analysisLoop_continue:
  assumes "t \<le> loop_bound e"
  shows "analysisLoop p e st t fc s =
           analysisLoop p e st (fadd t ANALYSIS_INTERVAL) (fc + 1) (analysisStep p e st t fc s)"
  using assms by (subst analysisLoop.simps) (simp add: loop_bound_def)

lemma analysisLoop_stop:
  assumes "\<not> t \<le> loop_bound e"
  shows "analysisLoop p e st t fc s = Some s"
  using assms by (subst analysisLoop.simps) (simp add: loop_bound_def)

lemma analysisLoop_fold:
  assumes "\<forall>j < n. accumulated j \<le> loop_bound e" "\<not> accumulated n \<le> loop_bound e"
  shows "k \<le> n \<Longrightarrow>
         analysisLoop p e st (accumulated k) k s =
           Some (fold (\<lambda>j. analysisStep p e st (accumulated j) j) [k..<n] s)"
proof (induction "n - k" arbitrary: k s)
  case 0
  then have "k = n" by simp
  with analysisLoop_stop[OF assms(2)] show ?case by simp
next
  case (Suc m)
  then have lt: "k < n" by simp
  then have le: "accumulated k \<le> loop_bound e" using assms(1) by blast
  have m: "m = n - Suc k" using Suc.hyps(2) by simp
  have k': "Suc k \<le> n" using lt by simp
  have "analysisLoop p e st (accumulated k) k s =
          analysisLoop p e st (accumulated (Suc k)) (Suc k)
            (analysisStep p e st (accumulated k) k s)"
    using analysisLoop_continue[OF le, of p st k s] by simp
  also have "\<dots> = Some (fold (\<lambda>j. analysisStep p e st (accumulated j) j) [Suc k..<n]
                            (analysisStep p e st (accumulated k) k s))"
    by (rule Suc.hyps(1)[OF m k'])
  also have "\<dots> = Some (fold (\<lambda>j. analysisStep p e st (accumulated j) j) [k..<n] s)"
    using lt by (simp add: upt_conv_Cons)
  finally show ?case .
qed

lemma analysisLoop_from_0:
  assumes "passes e n"
  shows "analysisLoop p e st 0 0 s =
           Some (fold (\<lambda>j. analysisStep p e st (accumulated j) j) [0..<n] s)"
  using analysisLoop_fold[of n e 0 p st s] assms unfolding passes_iff by simp

text \<open>What one step, and a run of steps, does to each field of the state.\<close>

lemma analysisStep_sampled: "sampled (analysisStep p e n t fc s) = sampled s @ [t]"
  by (simp add: analysisStep_def Let_def seek_video_def split: option.splits)

lemma analysisStep_cache:
  "cache (analysisStep p e n t fc s) = cache s @ List.map_filter (cached_entry p) [t]"
  by (simp add: analysisStep_def Let_def seek_video_def cached_entry_def List.map_filter_def
           split: option.splits)

lemma analysisStep_errorLog:
  "errorLog (analysisStep p e n t fc s)
     = errorLog s @ map Analysis_failed (filter (\<lambda>t. p t = None) [t])"
  by (simp add: analysisStep_def Let_def seek_video_def split: option.splits)

lemma analysisStep_progressLog:
  "progressLog (analysisStep p e n t fc s) = progressLog s @ [reported n (fc + 1)]"
  by (simp add: analysisStep_def Let_def seek_video_def reported_def split: option.splits)

lemma analysisStep_progress:
  "progress (analysisStep p e n t fc s) = reported n (fc + 1)"
  by (simp add: analysisStep_def Let_def seek_video_def reported_def split: option.splits)

lemma analysisStep_frame:
  "analysisStatus (analysisStep p e n t fc s) = analysisStatus s"
  "isPlaying (analysisStep p e n t fc s) = isPlaying s"
  "overlayCanvas (analysisStep p e n t fc s) = overlayCanvas s"
  "maskHelperCanvas (analysisStep p e n t fc s) = maskHelperCanvas s"
  "activeClasses (analysisStep p e n t fc s) = activeClasses s"
  "rafRequests (analysisStep p e n t fc s) = rafRequests s"
  by (simp_all add: analysisStep_def Let_def seek_video_def split: option.splits)

lemma analysisStep_video:
  assumes "visibleVideo s = Some (v\<lparr>currentTime := c\<rparr>)"
  shows "\<exists>c'. visibleVideo (analysisStep p e n t fc s) = Some (v\<lparr>currentTime := c'\<rparr>)"
  using assms
  by (auto simp add: analysisStep_def Let_def seek_video_def seek_def split: option.splits)

abbreviation (input) steps_upto ::
  "predictor \<Rightarrow> real \<Rightarrow> int \<Rightarrow> nat \<Rightarrow> VideoProcessor \<Rightarrow> VideoProcessor" where
  "steps_upto p e n m s \<equiv> fold (\<lambda>j. analysisStep p e n (accumulated j) j) [0..<m] s"

lemma steps_sampled:
  "sampled (steps_upto p e n m s) = sampled s @ map accumulated [0..<m]"
  by (induction m) (simp_all add: analysisStep_sampled)

lemma map_filter_snoc:
  "List.map_filter f (xs @ [x]) = List.map_filter f xs @ List.map_filter f [x]"
  by (simp add: List.map_filter_def)

lemma steps_cache:
  "cache (steps_upto p e n m s)
     = cache s @ List.map_filter (cached_entry p) (map accumulated [0..<m])"
proof (induction m)
  case 0
  show ?case by (simp add: List.map_filter_def)
next
  case (Suc m)
  have "cache (steps_upto p e n (Suc m) s)
          = cache (steps_upto p e n m s) @ List.map_filter (cached_entry p) [accumulated m]"
    by (simp add: analysisStep_cache)
  also have "\<dots> = cache s @ (List.map_filter (cached_entry p) (map accumulated [0..<m])
                                @ List.map_filter (cached_entry p) [accumulated m])"
    unfolding Suc.IH by simp
  also have "List.map_filter (cached_entry p) (map accumulated [0..<m])
               @ List.map_filter (cached_entry p) [accumulated m]
             = List.map_filter (cached_entry p) (map accumulated [0..<m] @ [accumulated m])"
    by (rule map_filter_snoc[symmetric])
  also have "map accumulated [0..<m] @ [accumulated m] = map accumulated [0..<Suc m]" by simp
  finally show ?case .
qed

lemma steps_errorLog:
  "errorLog (steps_upto p e n m s)
     = errorLog s @ map Analysis_failed
                      (filter (\<lambda>t. p t = None) (map accumulated [0..<m]))"
  by (induction m) (simp_all add: analysisStep_errorLog)

lemma steps_progressLog:
  "progressLog (steps_upto p e n m s)
     = progressLog s @ map (\<lambda>j. reported n (j + 1)) [0..<m]"
  by (induction m) (simp_all add: analysisStep_progressLog)

lemma steps_progress:
  "0 < m \<Longrightarrow> progress (steps_upto p e n m s) = reported n m"
  by (cases m) (simp_all add: analysisStep_progress)

lemma steps_frame:
  "analysisStatus (steps_upto p e n m s) = analysisStatus s"
  "isPlaying (steps_upto p e n m s) = isPlaying s"
  "overlayCanvas (steps_upto p e n m s) = overlayCanvas s"
  "maskHelperCanvas (steps_upto p e n m s) = maskHelperCanvas s"
  "activeClasses (steps_upto p e n m s) = activeClasses s"
  "rafRequests (steps_upto p e n m s) = rafRequests s"
  by (induction m) (simp_all add: analysisStep_frame)

lemma steps_video:
  assumes "visibleVideo s = Some (v\<lparr>currentTime := c\<rparr>)"
  shows "\<exists>c'. visibleVideo (steps_upto p e n m s) = Some (v\<lparr>currentTime := c'\<rparr>)"
proof (induction m)
  case 0
  with assms show ?case by auto
next
  case (Suc m)
  then obtain c' where "visibleVideo (steps_upto p e n m s) = Some (v\<lparr>currentTime := c'\<rparr>)"
    by blast
  from analysisStep_video[OF this, of p e n "accumulated m" m]
  show ?case by simp
qed

text \<open>What rendering, a playback tick and the play toggle leave alone, and the state at the
  end of the pass.\<close>

lemma render_frame:
  "visibleVideo (renderSegmentationOverlay r c v cp s) = visibleVideo s"
  "isPlaying (renderSegmentationOverlay r c v cp s) = isPlaying s"
  "analysisStatus (renderSegmentationOverlay r c v cp s) = analysisStatus s"
  "progress (renderSegmentationOverlay r c v cp s) = progress s"
  "cache (renderSegmentationOverlay r c v cp s) = cache s"
  "rafRequests (renderSegmentationOverlay r c v cp s) = rafRequests s"
  "sampled (renderSegmentationOverlay r c v cp s) = sampled s"
  "progressLog (renderSegmentationOverlay r c v cp s) = progressLog s"
  "errorLog (renderSegmentationOverlay r c v cp s) = errorLog s"
  by (simp_all add: renderSegmentationOverlay_def Let_def split: prod.splits)

lemma playbackLoop_frame:
  "analysisStatus (playbackLoop s) = analysisStatus s"
  "progress (playbackLoop s) = progress s"
  "cache (playbackLoop s) = cache s"
  "sampled (playbackLoop s) = sampled s"
  "progressLog (playbackLoop s) = progressLog s"
  "errorLog (playbackLoop s) = errorLog s"
  by (simp_all add: playbackLoop_def Let_def render_frame split: option.splits)

lemma playbackLoop_start:
  assumes "visibleVideo s = Some video" "\<not> paused video" "\<not> ended video"
    and "currentTime video < MAX_DEMO_DURATION"
  shows "isPlaying (playbackLoop s) = isPlaying s"
    and "visibleVideo (playbackLoop s) = Some video"
    and "rafRequests (playbackLoop s) = rafRequests s + 1"
  using assms by (simp_all add: playbackLoop_def Let_def render_frame split: option.splits)

lemma togglePlay_frame:
  "analysisStatus (togglePlay pr seen s) = analysisStatus s"
  "progress (togglePlay pr seen s) = progress s"
  "cache (togglePlay pr seen s) = cache s"
  "sampled (togglePlay pr seen s) = sampled s"
  "progressLog (togglePlay pr seen s) = progressLog s"
  by (simp_all add: togglePlay_def playbackLoop_frame split: option.splits)

lemma togglePlay_errorLog:
  assumes "visibleVideo s = Some v"
  shows "errorLog (togglePlay pr seen s)
           = errorLog s @ (if \<not> seen \<and> \<not> pr then [Play_failed] else [])"
  using assms by (simp add: togglePlay_def playbackLoop_frame)

lemma togglePlay_seen:
  assumes "visibleVideo s = Some v"
  shows "togglePlay pr True s
           = s\<lparr>visibleVideo := Some (v\<lparr>paused := True\<rparr>), isPlaying := False,
               rafRequests := rafRequests s - 1\<rparr>"
  using assms by (simp add: togglePlay_def)

lemma togglePlay_rejected:
  assumes "visibleVideo s = Some v"
  shows "togglePlay False False s = s\<lparr>errorLog := errorLog s @ [Play_failed]\<rparr>"
  using assms by (simp add: togglePlay_def)

lemma togglePlay_resolved:
  assumes "visibleVideo s = Some v"
  shows "togglePlay True False s
           = playbackLoop (s\<lparr>visibleVideo := Some (v\<lparr>paused := False\<rparr>), isPlaying := True\<rparr>)"
  using assms by (simp add: togglePlay_def)

lemma seek_0_update: "seek 0 (v\<lparr>currentTime := c\<rparr>) = v\<lparr>currentTime := 0\<rparr>"
  by (simp add: seek_def split: js_duration.splits)

text \<open>The state in which the pass ends when the loop makes \<open>n\<close> passes.\<close>

abbreviation (input) pass_result ::
  "predictor \<Rightarrow> HTMLVideoElement \<Rightarrow> real \<Rightarrow> nat \<Rightarrow> VideoProcessor \<Rightarrow> VideoProcessor" where
  "pass_result p video e n s \<equiv>
     seek_video 0
       ((steps_upto p e (total_steps e) n
           (seek_video 0 (s\<lparr>analysisStatus := analyzing, isPlaying := False,
                            visibleVideo := Some (video\<lparr>paused := True\<rparr>), cache := []\<rparr>)))
        \<lparr>analysisStatus := complete\<rparr>)"

lemma analysisPass_result:
  assumes "passes e n"
  shows "analysisPass p video e s = Some (pass_result p video e n s)"
  by (simp add: analysisPass_def Let_def analysisLoop_from_0[OF assms] total_steps_def)

lemma pass_result_fields:
  "analysisStatus (pass_result p video e n s) = complete"
  "isPlaying (pass_result p video e n s) = False"
  "rafRequests (pass_result p video e n s) = rafRequests s"
  "cache (pass_result p video e n s)
     = List.map_filter (cached_entry p) (map accumulated [0..<n])"
  "sampled (pass_result p video e n s) = sampled s @ map accumulated [0..<n]"
  "progressLog (pass_result p video e n s)
     = progressLog s @ map (\<lambda>j. reported (total_steps e) (j + 1)) [0..<n]"
  "errorLog (pass_result p video e n s)
     = errorLog s @ map Analysis_failed (filter (\<lambda>t. p t = None) (map accumulated [0..<n]))"
  by (simp_all add: seek_video_def
        steps_frame steps_cache steps_sampled steps_progressLog steps_errorLog)

lemma pass_result_video:
  "visibleVideo (pass_result p video e n s) = Some (video\<lparr>paused := True, currentTime := 0\<rparr>)"
proof -
  let ?s2 = "seek_video 0 (s\<lparr>analysisStatus := analyzing, isPlaying := False,
                 visibleVideo := Some (video\<lparr>paused := True\<rparr>), cache := []\<rparr>)"
  have "visibleVideo ?s2 = Some ((video\<lparr>paused := True\<rparr>)\<lparr>currentTime := currentTime (seek 0 (video\<lparr>paused := True\<rparr>))\<rparr>)"
    by (simp add: seek_video_def seek_def)
  from steps_video[OF this, of p e "total_steps e" n]
  obtain c' where "visibleVideo (steps_upto p e (total_steps e) n ?s2)
                     = Some ((video\<lparr>paused := True\<rparr>)\<lparr>currentTime := c'\<rparr>)"
    by blast
  then show ?thesis
    by (simp add: seek_video_def seek_0_update)
qed

lemma pass_result_progress:
  assumes "0 < n"
  shows "progress (pass_result p video e n s) = reported (total_steps e) n"
  using steps_progress[OF assms] by (simp add: seek_video_def)

text \<open>The guard, and the run after it: for a duration that passes the guard the effective
  duration is above 0 and at most the cap, the loop makes a number \<open>n\<close> of passes, and
  \<^verbatim>\<open>startAnalysis\<close> returns the state of the play toggle applied to the end of the pass.\<close>

lemma effective_range:
  assumes "duration video = Seconds d \<and> 0 < d \<and> e = min d MAX_DEMO_DURATION \<or>
           duration video = Infinity \<and> e = MAX_DEMO_DURATION"
  shows "0 < e" "e \<le> 15"
  using assms by (auto simp add: MAX_DEMO_DURATION_def)

lemma startAnalysis_run:
  assumes "visibleVideo s = Some video"
    and "duration video = Seconds d \<and> 0 < d \<and> e = min d MAX_DEMO_DURATION \<or>
         duration video = Infinity \<and> e = MAX_DEMO_DURATION"
    and "passes e n"
  shows "startAnalysis p pr seen s = Some (togglePlay pr seen (pass_result p video e n s))"
  using assms(1,2) analysisPass_result[OF assms(3), of p video s]
  by (auto simp add: startAnalysis_def runAnalysis_def)

lemma startAnalysis_guard:
  assumes "visibleVideo s = Some video"
    and "duration video = Seconds 0 \<or> duration video = NaN"
  shows "startAnalysis p pr seen s = Some s"
  using assms by (auto simp add: startAnalysis_def)

lemma run_passes:
  assumes "duration video = Seconds d \<and> 0 < d \<and> e = min d MAX_DEMO_DURATION \<or>
           duration video = Infinity \<and> e = MAX_DEMO_DURATION"
  obtains n where "passes e n" "0 < n" "n \<le> 77"
proof -
  from effective_range[OF assms] have "0 \<le> e" "e \<le> 15" by simp_all
  from passes_ex[OF this] that show ?thesis by blast
qed

lemma set_map_filter: "x \<in> set (List.map_filter f xs) \<longleftrightarrow> (\<exists>y\<in>set xs. f y = Some x)"
  by (auto simp add: List.map_filter_def image_iff)

lemma timestamps_map_filter:
  "map timestamp (List.map_filter (cached_entry p) ts) = filter (\<lambda>t. p t \<noteq> None) ts"
  by (induction ts) (auto simp add: List.map_filter_def cached_entry_def)

lemma example_clip_video:
  "visibleVideo (example_clip d) = Some (example_video\<lparr>currentTime := 0, duration := Seconds d\<rparr>)"
  "duration (example_video\<lparr>currentTime := 0, duration := Seconds d\<rparr>) = Seconds d"
  "sampled (example_clip d) = []"
  "errorLog (example_clip d) = []"
  "progressLog (example_clip d) = []"
  "rafRequests (example_clip d) = 0"
  by (simp_all add: example_clip_def example_state_def)

section \<open>The double values of the example runs\<close>

lemma interval_step_0: "fadd (0) ANALYSIS_INTERVAL = 3602879701896397 / 18014398509481984"
  unfolding fadd_def interval_value by (subst rd_eval[of "- 3"]) (simp_all add: rne_def power_int_minus Let_def)

lemma interval_step_1: "fadd (3602879701896397 / 18014398509481984) ANALYSIS_INTERVAL = 3602879701896397 / 9007199254740992"
  unfolding fadd_def interval_value by (subst rd_eval[of "- 2"]) (simp_all add: rne_def power_int_minus Let_def)

lemma interval_step_2: "fadd (3602879701896397 / 9007199254740992) ANALYSIS_INTERVAL = 1351079888211149 / 2251799813685248"
  unfolding fadd_def interval_value by (subst rd_eval[of "- 1"]) (simp_all add: rne_def power_int_minus Let_def)

lemma interval_step_3: "fadd (1351079888211149 / 2251799813685248) ANALYSIS_INTERVAL = 3602879701896397 / 4503599627370496"
  unfolding fadd_def interval_value by (subst rd_eval[of "- 1"]) (simp_all add: rne_def power_int_minus Let_def)

lemma interval_step_4: "fadd (3602879701896397 / 4503599627370496) ANALYSIS_INTERVAL = 1"
  unfolding fadd_def interval_value by (subst rd_eval[of "0"]) (simp_all add: rne_def power_int_minus Let_def)

lemma interval_step_5: "fadd (1) ANALYSIS_INTERVAL = 5404319552844595 / 4503599627370496"
  unfolding fadd_def interval_value by (subst rd_eval[of "0"]) (simp_all add: rne_def power_int_minus Let_def)

lemmas interval_steps = interval_step_0 interval_step_1 interval_step_2 interval_step_3 interval_step_4 interval_step_5

lemma accumulated_values:
  "accumulated (Suc 0) = 3602879701896397 / 18014398509481984"
  "accumulated (Suc (Suc 0)) = 3602879701896397 / 9007199254740992"
  "accumulated (Suc (Suc (Suc 0))) = 1351079888211149 / 2251799813685248"
  "accumulated (Suc (Suc (Suc (Suc 0)))) = 3602879701896397 / 4503599627370496"
  "accumulated (Suc (Suc (Suc (Suc (Suc 0))))) = 1"
  "accumulated (Suc (Suc (Suc (Suc (Suc (Suc 0)))))) = 5404319552844595 / 4503599627370496"
  by (simp_all only: accumulated.simps interval_steps)

lemma loop_bound_value_0: "loop_bound (0) = 3602879701896397 / 36028797018963968"
  unfolding loop_bound_def fadd_def slack_value by (subst rd_eval[of "- 4"]) (simp_all add: rne_def power_int_minus Let_def)

lemma loop_bound_value_1: "loop_bound (1 / 2) = 5404319552844595 / 9007199254740992"
  unfolding loop_bound_def fadd_def slack_value by (subst rd_eval[of "- 1"]) (simp_all add: rne_def power_int_minus Let_def)

lemma loop_bound_value_2: "loop_bound (3 / 4) = 7656119366529843 / 9007199254740992"
  unfolding loop_bound_def fadd_def slack_value by (subst rd_eval[of "- 1"]) (simp_all add: rne_def power_int_minus Let_def)

lemma loop_bound_value_3: "loop_bound (1) = 2476979795053773 / 2251799813685248"
  unfolding loop_bound_def fadd_def slack_value by (subst rd_eval[of "0"]) (simp_all add: rne_def power_int_minus Let_def)

lemmas loop_bound_values = loop_bound_value_0 loop_bound_value_1 loop_bound_value_2 loop_bound_value_3

lemma total_steps_value_0: "total_steps (1 / 2) = 4"
  unfolding total_steps_def fdiv_def interval_value by (subst rd_eval[of "1"]) (simp_all add: rne_def power_int_minus Let_def)

lemma total_steps_value_1: "total_steps (3 / 4) = 5"
  unfolding total_steps_def fdiv_def interval_value by (subst rd_eval[of "1"]) (simp_all add: rne_def power_int_minus Let_def)

lemma total_steps_value_2: "total_steps (1) = 6"
  unfolding total_steps_def fdiv_def interval_value by (subst rd_eval[of "2"]) (simp_all add: rne_def power_int_minus Let_def)

lemma total_steps_value_3: "total_steps (31 / 4) = 40"
  unfolding total_steps_def fdiv_def interval_value by (subst rd_eval[of "5"]) (simp_all add: rne_def power_int_minus Let_def)

lemma total_steps_value_4: "total_steps (15) = 76"
  unfolding total_steps_def fdiv_def interval_value by (subst rd_eval[of "6"]) (simp_all add: rne_def power_int_minus Let_def)

lemmas total_steps_values = total_steps_value_0 total_steps_value_1 total_steps_value_2 total_steps_value_3 total_steps_value_4

lemma quotient_1_4: "fdiv 1 4 = 1 / 4"
  unfolding fdiv_def by (subst rd_eval[of "- 2"]) (simp_all add: rne_def power_int_minus Let_def)

lemma product_1_4: "fmul (1 / 4) 100 = 25"
  unfolding fmul_def by (subst rd_eval[of "4"]) (simp_all add: rne_def power_int_minus Let_def)

lemma quotient_2_4: "fdiv 2 4 = 1 / 2"
  unfolding fdiv_def by (subst rd_eval[of "- 1"]) (simp_all add: rne_def power_int_minus Let_def)

lemma product_2_4: "fmul (1 / 2) 100 = 50"
  unfolding fmul_def by (subst rd_eval[of "5"]) (simp_all add: rne_def power_int_minus Let_def)

lemma quotient_3_4: "fdiv 3 4 = 3 / 4"
  unfolding fdiv_def by (subst rd_eval[of "- 1"]) (simp_all add: rne_def power_int_minus Let_def)

lemma product_3_4: "fmul (3 / 4) 100 = 75"
  unfolding fmul_def by (subst rd_eval[of "6"]) (simp_all add: rne_def power_int_minus Let_def)

lemma quotient_1_6: "fdiv 1 6 = 6004799503160661 / 36028797018963968"
  unfolding fdiv_def by (subst rd_eval[of "- 3"]) (simp_all add: rne_def power_int_minus Let_def)

lemma product_1_6: "fmul (6004799503160661 / 36028797018963968) 100 = 2345624805922133 / 140737488355328"
  unfolding fmul_def by (subst rd_eval[of "4"]) (simp_all add: rne_def power_int_minus Let_def)

lemma quotient_2_6: "fdiv 2 6 = 6004799503160661 / 18014398509481984"
  unfolding fdiv_def by (subst rd_eval[of "- 2"]) (simp_all add: rne_def power_int_minus Let_def)

lemma product_2_6: "fmul (6004799503160661 / 18014398509481984) 100 = 2345624805922133 / 70368744177664"
  unfolding fmul_def by (subst rd_eval[of "5"]) (simp_all add: rne_def power_int_minus Let_def)

lemma quotient_3_6: "fdiv 3 6 = 1 / 2"
  unfolding fdiv_def by (subst rd_eval[of "- 1"]) (simp_all add: rne_def power_int_minus Let_def)

lemma quotient_4_6: "fdiv 4 6 = 6004799503160661 / 9007199254740992"
  unfolding fdiv_def by (subst rd_eval[of "- 1"]) (simp_all add: rne_def power_int_minus Let_def)

lemma product_4_6: "fmul (6004799503160661 / 9007199254740992) 100 = 2345624805922133 / 35184372088832"
  unfolding fmul_def by (subst rd_eval[of "6"]) (simp_all add: rne_def power_int_minus Let_def)

lemma quotient_5_6: "fdiv 5 6 = 7505999378950827 / 9007199254740992"
  unfolding fdiv_def by (subst rd_eval[of "- 1"]) (simp_all add: rne_def power_int_minus Let_def)

lemma product_5_6: "fmul (7505999378950827 / 9007199254740992) 100 = 2932031007402667 / 35184372088832"
  unfolding fmul_def by (subst rd_eval[of "6"]) (simp_all add: rne_def power_int_minus Let_def)

lemma quotient_6_6: "fdiv 6 6 = 1"
  unfolding fdiv_def by (subst rd_eval[of "0"]) (simp_all add: rne_def power_int_minus Let_def)

lemma product_6_6: "fmul (1) 100 = 100"
  unfolding fmul_def by (subst rd_eval[of "6"]) (simp_all add: rne_def power_int_minus Let_def)

lemma quotient_23_40: "fdiv 23 40 = 2589569785738035 / 4503599627370496"
  unfolding fdiv_def by (subst rd_eval[of "- 1"]) (simp_all add: rne_def power_int_minus Let_def)

lemma product_23_40: "fmul (2589569785738035 / 4503599627370496) 100 = 8092405580431359 / 140737488355328"
  unfolding fmul_def by (subst rd_eval[of "5"]) (simp_all add: rne_def power_int_minus Let_def)

lemma reported_values:
  "reported 4 (Suc 0) = 25"
  "reported 4 (Suc (Suc 0)) = 50"
  "reported 4 (Suc (Suc (Suc 0))) = 75"
  "reported 6 (Suc 0) = 17"
  "reported 6 (Suc (Suc 0)) = 33"
  "reported 6 (Suc (Suc (Suc 0))) = 50"
  "reported 6 (Suc (Suc (Suc (Suc 0)))) = 67"
  "reported 6 (Suc (Suc (Suc (Suc (Suc 0))))) = 83"
  "reported 6 (Suc (Suc (Suc (Suc (Suc (Suc 0)))))) = 100"
  "reported 40 23 = 57"
  unfolding reported_def
  by (simp_all add: quotient_1_4 quotient_2_4 quotient_3_4 quotient_1_6 quotient_2_6 quotient_3_6 quotient_4_6 quotient_5_6 quotient_6_6 quotient_23_40
        product_1_4 product_2_4 product_3_4 product_1_6 product_2_6 product_4_6 product_5_6 product_6_6 product_23_40 round_def)

lemma upt_values:
  "[0..<1] = [0]"
  "[0..<3] = [0, Suc 0, Suc (Suc 0)]"
  "[0..<5] = [0, Suc 0, Suc (Suc 0), Suc (Suc (Suc 0)), Suc (Suc (Suc (Suc 0)))]"
  "[0..<6] = [0, Suc 0, Suc (Suc 0), Suc (Suc (Suc 0)), Suc (Suc (Suc (Suc 0))),
              Suc (Suc (Suc (Suc (Suc 0))))]"
  by (simp_all add: upt_conv_Cons del: upt_Suc)

lemma passes_values:
  "passes 0 1" "passes (1 / 2) 3" "passes (3 / 4) 5" "passes 1 6"
  unfolding passes_def loop_bound_values upt_values
  by (simp_all add: accumulated_values eval_nat_numeral del: accumulated.simps(2))

lemma times_values:
  "map accumulated [0..<3]
     = [0, 3602879701896397 / 18014398509481984, 3602879701896397 / 9007199254740992]"
  "map accumulated [0..<5]
     = [0, 3602879701896397 / 18014398509481984, 3602879701896397 / 9007199254740992,
        1351079888211149 / 2251799813685248, 3602879701896397 / 4503599627370496]"
  "map accumulated [0..<6]
     = [0, 3602879701896397 / 18014398509481984, 3602879701896397 / 9007199254740992,
        1351079888211149 / 2251799813685248, 3602879701896397 / 4503599627370496, 1]"
  unfolding upt_values
  by (simp_all add: accumulated_values del: accumulated.simps(2))

section \<open>The reported progress\<close>

lemma total_steps_pos:
  assumes "0 \<le> e"
  shows "0 < total_steps e"
proof -
  have "0 \<le> e / ANALYSIS_INTERVAL" using assms by (simp add: interval_value)
  from rd_nonneg[OF this] have "0 \<le> fdiv e ANALYSIS_INTERVAL" by (simp add: fdiv_def)
  moreover have "fdiv e ANALYSIS_INTERVAL \<le> real_of_int \<lceil>fdiv e ANALYSIS_INTERVAL\<rceil>"
    by simp
  ultimately have "0 \<le> real_of_int \<lceil>fdiv e ANALYSIS_INTERVAL\<rceil>" by linarith
  then have "0 \<le> \<lceil>fdiv e ANALYSIS_INTERVAL\<rceil>" by simp
  then show ?thesis by (simp add: total_steps_def)
qed

lemma reported_range:
  assumes "0 < st"
  shows "0 \<le> reported st k" "reported st k \<le> 100"
proof -
  have "0 \<le> real k / real_of_int st" using assms by simp
  from rd_nonneg[OF this] have "0 \<le> fdiv (real k) (real_of_int st) * 100"
    by (simp add: fdiv_def)
  from rd_nonneg[OF this] have "0 \<le> fmul (fdiv (real k) (real_of_int st)) 100"
    by (simp add: fmul_def)
  from round_mono[OF this] show "0 \<le> reported st k" by (simp add: reported_def)
  show "reported st k \<le> 100" by (simp add: reported_def)
qed

text \<open>The double product is within \<open>2 ^ -39\<close> of the exact percentage, so the reported
  value is the exact rounding or next to it.\<close>

lemma progress_value_near:
  assumes "0 < st" "k \<le> 100"
  shows "\<bar>fmul (fdiv (real k) (real_of_int st)) 100 - 100 * real k / real_of_int st\<bar>
           \<le> 2 powi (- 39)"
proof -
  let ?x = "real k / real_of_int st"
  have st1: "1 \<le> real_of_int st" using assms(1) by simp
  have x0: "0 \<le> ?x" using assms(1) by simp
  have "real k / real_of_int st \<le> real k / 1"
    by (rule divide_left_mono) (use st1 in simp_all)
  then have x1: "?x \<le> 100" using assms(2) by simp
  have "\<bar>?x\<bar> < 2 powi (6 + 1)" using x0 x1 by simp
  from rd_error[OF this] have e1: "\<bar>fdiv (real k) (real_of_int st) - ?x\<bar> \<le> 2 powi (- 47)"
    by (simp add: fdiv_def)
  let ?y = "fdiv (real k) (real_of_int st) * 100"
  have y: "\<bar>?y - 100 * ?x\<bar> \<le> 100 * 2 powi (- 47)"
    using e1 unfolding pow2_values by linarith
  then have "\<bar>?y\<bar> < 2 powi (13 + 1)"
    using x0 x1 unfolding pow2_values by (simp add: abs_if split: if_splits)
  from rd_error[OF this] have e2: "\<bar>fmul (fdiv (real k) (real_of_int st)) 100 - ?y\<bar> \<le> 2 powi (- 40)"
    by (simp add: fmul_def)
  have "\<bar>fmul (fdiv (real k) (real_of_int st)) 100 - 100 * ?x\<bar> \<le> 2 powi (- 39)"
    using y e2 unfolding pow2_values by linarith
  then show ?thesis by simp
qed

lemma round_near:
  fixes a b :: real
  assumes "\<bar>a - b\<bar> \<le> 1"
  shows "\<bar>round a - round b\<bar> \<le> 1"
proof -
  have p: "round (x + 1) = round x + 1" for x :: real
  proof -
    have "x + 1 + 1 / 2 = x + 1 / 2 + 1" by simp
    then show ?thesis unfolding round_def using floor_add_int[of "x + 1 / 2" 1] by simp
  qed
  have "a \<le> b + 1" "b \<le> a + 1" using assms by linarith+
  from round_mono[OF this(1)] round_mono[OF this(2)] show ?thesis
    unfolding p by linarith
qed

lemma reported_near:
  assumes "0 < st" "k \<le> 100"
  shows "\<bar>reported st k - min 100 (round (100 * real k / real_of_int st))\<bar> \<le> 1"
proof -
  have "\<bar>fmul (fdiv (real k) (real_of_int st)) 100 - 100 * real k / real_of_int st\<bar> \<le> 1"
    using progress_value_near[OF assms] unfolding pow2_values by linarith
  from round_near[OF this] show ?thesis
    unfolding reported_def by linarith
qed

text \<open>The loop makes at most \<open>total_steps\<close> passes.\<close>

lemma quotient_below:
  assumes "0 \<le> e" "e \<le> 15"
  shows "5 * e - 2 powi (- 41) \<le> fdiv e ANALYSIS_INTERVAL"
proof -
  let ?q = "e / ANALYSIS_INTERVAL"
  have q0: "0 \<le> ?q" using assms by (simp add: interval_value)
  have q1: "?q \<le> 5 * e" using assms by (simp add: interval_value field_simps)
  have q2: "5 * e - 2 powi (- 47) \<le> ?q"
    using assms unfolding pow2_values by (simp add: interval_value field_simps)
  have "\<bar>?q\<bar> < 2 powi (6 + 1)" using q0 q1 assms by simp
  from rd_error[OF this] have "\<bar>fdiv e ANALYSIS_INTERVAL - ?q\<bar> \<le> 2 powi (- 47)"
    by (simp add: fdiv_def)
  with q2 show ?thesis unfolding pow2_values by linarith
qed

lemma passes_le_total_steps:
  assumes "0 \<le> e" "e \<le> 15" "passes e n"
  shows "int n \<le> total_steps e"
proof -
  note r = passes_range[OF assms]
  have n1: "real (n - 1) = real n - 1" using r by simp
  have "real n - 1 \<le> 5 * e + 1 / 2 + 5 * 2 powi (- 41)"
    using passes_near(1)[OF assms] unfolding n1 pow2_values by argo
  moreover have "fdiv e ANALYSIS_INTERVAL \<le> real_of_int \<lceil>fdiv e ANALYSIS_INTERVAL\<rceil>"
    by simp
  ultimately have "real n - 1 < real_of_int \<lceil>fdiv e ANALYSIS_INTERVAL\<rceil> + 1"
    using quotient_below[OF assms(1,2)] unfolding pow2_values by linarith
  then have "real n < real_of_int (total_steps e) + 1" by (simp add: total_steps_def)
  then have "int n < total_steps e + 1" by linarith
  then show ?thesis by simp
qed

section \<open>Order, range and spacing of the sampled times\<close>

lemma sorted_accumulated:
  assumes "n \<le> 79"
  shows "sorted_wrt (<) (map accumulated [0..<n])"
proof -
  have "sorted_wrt (\<lambda>i j. accumulated i < accumulated j) [0..<n]"
  proof (rule sorted_wrt_mono_rel[OF _ sorted_wrt_upt])
    fix i j
    assume "i \<in> set [0..<n]" "j \<in> set [0..<n]" "i < j"
    then have "i < j" "j \<le> 79" using assms by simp_all
    then show "accumulated i < accumulated j" by (rule accumulated_strict_mono)
  qed
  then show ?thesis by (simp add: sorted_wrt_map)
qed

lemma accumulated_range:
  assumes "passes e n" "t \<in> set (map accumulated [0..<n])"
  shows "0 \<le> t" "t \<le> loop_bound e"
proof -
  from assms(2) obtain k where k: "k < n" "t = accumulated k" by auto
  show "0 \<le> t" unfolding k(2) by (rule accumulated_nonneg)
  show "t \<le> loop_bound e" unfolding k(2) using assms(1) k(1) unfolding passes_iff by blast
qed

lemma accumulated_ends:
  assumes "0 \<le> e" "e \<le> 15" "passes e n"
  shows "map accumulated [0..<n] \<noteq> []"
    and "hd (map accumulated [0..<n]) = 0"
    and "\<not> fadd (last (map accumulated [0..<n])) ANALYSIS_INTERVAL \<le> loop_bound e"
    and "e - 1 / 10 - 2 powi (- 47) < last (map accumulated [0..<n])"
proof -
  note r = passes_range[OF assms]
  from r(1) obtain m where m: "n = Suc m" by (cases n) auto
  have m78: "m \<le> 78" using r(2) m by simp
  show "map accumulated [0..<n] \<noteq> []" by (simp add: m)
  show "hd (map accumulated [0..<n]) = 0"
    by (simp add: m upt_conv_Cons del: upt_Suc)
  have l: "last (map accumulated [0..<n]) = accumulated m" by (simp add: m)
  have over: "\<not> accumulated (Suc m) \<le> loop_bound e"
    using assms(3) unfolding passes_iff m by blast
  then show "\<not> fadd (last (map accumulated [0..<n])) ANALYSIS_INTERVAL \<le> loop_bound e"
    unfolding l by simp
  from over accumulated_step(1)[OF m78] loop_bound_near[OF assms(1,2)]
  show "e - 1 / 10 - 2 powi (- 47) < last (map accumulated [0..<n])"
    unfolding l pow2_values by linarith
qed

lemma accumulated_spacing:
  assumes "n \<le> 79" "Suc i < length (map accumulated [0..<n])"
  shows "map accumulated [0..<n] ! Suc i = fadd (map accumulated [0..<n] ! i) ANALYSIS_INTERVAL"
    and "\<bar>map accumulated [0..<n] ! Suc i - map accumulated [0..<n] ! i - 1 / 5\<bar>
           \<le> 2 powi (- 48)"
proof -
  have i: "Suc i < n" "i < n" "i \<le> 78" using assms by simp_all
  have a: "map accumulated [0..<n] ! Suc i = accumulated (Suc i)"
    and b: "map accumulated [0..<n] ! i = accumulated i"
    using i by (simp_all del: accumulated.simps)
  show "map accumulated [0..<n] ! Suc i = fadd (map accumulated [0..<n] ! i) ANALYSIS_INTERVAL"
    unfolding a b by simp
  show "\<bar>map accumulated [0..<n] ! Suc i - map accumulated [0..<n] ! i - 1 / 5\<bar>
           \<le> 2 powi (- 48)"
    unfolding a b by (rule accumulated_step(1)[OF i(3)])
qed

text \<open>
  Claim C2, as amended. For a video whose duration passes the guard (a positive number of
  seconds, or infinite), with \<open>effectiveDuration = min duration 15\<close>, the run ends and the
  scheduler samples, in order, the times that the loop accumulates: 0, and then the double
  sum of the previous time and the interval, for as long as the time is at most the double
  sum \<open>effectiveDuration + 0.1\<close>. There are between 1 and 77 of them; the time of index \<open>k\<close>
  is within \<open>k * 2 ^ -48\<close> of \<open>k / 5\<close>; and their number is that of exact arithmetic,
  \<open>\<lfloor>(effectiveDuration + 0.1) / 0.2\<rfloor> + 1\<close>, whenever \<open>effectiveDuration + 0.1\<close> is not within
  \<open>2 ^ -41\<close> of a multiple of a fifth. For a duration of 1 s these are six times, the
  doubles printed as 0, 0.2, 0.4, 0.6000000000000001, 0.8 and 1.
  A duration of 0 (the only way to an effective duration of 0) or \<^verbatim>\<open>NaN\<close> stops at the
  guard: the scheduler returns the state as it was and samples nothing. The loop alone,
  entered with an effective duration of 0, makes exactly one pass, at time 0.
\<close>

theorem C2_sampling_sequence:
  "(visibleVideo s = Some video \<and>
    (duration video = Seconds d \<and> 0 < d \<and> e = min d MAX_DEMO_DURATION \<or>
     duration video = Infinity \<and> e = MAX_DEMO_DURATION) \<longrightarrow>
      (\<exists>r n. startAnalysis p pr seen s = Some r \<and>
             sampled r = sampled s @ map accumulated [0..<n] \<and>
             passes e n \<and> 0 < n \<and> n \<le> 77 \<and>
             (\<forall>k<n. \<bar>accumulated k - real k / 5\<bar> \<le> real k * 2 powi (- 48)) \<and>
             (\<forall>m. real m / 5 + 2 powi (- 41) \<le> e + 1 / 10 \<and>
                  e + 1 / 10 + 2 powi (- 41) < real (Suc m) / 5 \<longrightarrow> n = Suc m))) \<and>
   (visibleVideo s = Some video \<and> duration video = Seconds 1 \<longrightarrow>
      (\<exists>r. startAnalysis p pr seen s = Some r \<and>
           sampled r = sampled s @
             [0, 3602879701896397 / 18014398509481984, 3602879701896397 / 9007199254740992,
              1351079888211149 / 2251799813685248, 3602879701896397 / 4503599627370496, 1])) \<and>
   (visibleVideo s = Some video \<and> (duration video = Seconds 0 \<or> duration video = NaN) \<longrightarrow>
      startAnalysis p pr seen s = Some s) \<and>
   (\<exists>r. analysisLoop p 0 st 0 0 s = Some r \<and> sampled r = sampled s @ [0])"
proof (intro conjI impI)
  assume a: "visibleVideo s = Some video \<and>
    (duration video = Seconds d \<and> 0 < d \<and> e = min d MAX_DEMO_DURATION \<or>
     duration video = Infinity \<and> e = MAX_DEMO_DURATION)"
  then have v: "visibleVideo s = Some video"
    and g: "duration video = Seconds d \<and> 0 < d \<and> e = min d MAX_DEMO_DURATION \<or>
            duration video = Infinity \<and> e = MAX_DEMO_DURATION"
    by blast+
  from effective_range[OF g] have e: "0 \<le> e" "e \<le> 15" by simp_all
  from run_passes[OF g] obtain n where n: "passes e n" "0 < n" "n \<le> 77" by blast
  let ?r = "togglePlay pr seen (pass_result p video e n s)"
  have run: "startAnalysis p pr seen s = Some ?r" by (rule startAnalysis_run[OF v g n(1)])
  have sm: "sampled ?r = sampled s @ map accumulated [0..<n]"
    by (simp only: togglePlay_frame pass_result_fields)
  have drift: "\<forall>k<n. \<bar>accumulated k - real k / 5\<bar> \<le> real k * 2 powi (- 48)"
  proof (intro allI impI)
    fix k assume "k < n"
    with n(3) have "k \<le> 79" by simp
    then show "\<bar>accumulated k - real k / 5\<bar> \<le> real k * 2 powi (- 48)"
      by (rule accumulated_drift)
  qed
  have exact: "\<forall>m. real m / 5 + 2 powi (- 41) \<le> e + 1 / 10 \<and>
                  e + 1 / 10 + 2 powi (- 41) < real (Suc m) / 5 \<longrightarrow> n = Suc m"
  proof (intro allI impI)
    fix m
    assume c: "real m / 5 + 2 powi (- 41) \<le> e + 1 / 10 \<and>
               e + 1 / 10 + 2 powi (- 41) < real (Suc m) / 5"
    then have "passes e (Suc m)" using passes_exact[OF e, of m] by blast
    with n(1) show "n = Suc m" by (rule passes_unique)
  qed
  from run sm n drift exact
  show "\<exists>r n. startAnalysis p pr seen s = Some r \<and>
             sampled r = sampled s @ map accumulated [0..<n] \<and>
             passes e n \<and> 0 < n \<and> n \<le> 77 \<and>
             (\<forall>k<n. \<bar>accumulated k - real k / 5\<bar> \<le> real k * 2 powi (- 48)) \<and>
             (\<forall>m. real m / 5 + 2 powi (- 41) \<le> e + 1 / 10 \<and>
                  e + 1 / 10 + 2 powi (- 41) < real (Suc m) / 5 \<longrightarrow> n = Suc m)"
    by blast
next
  assume a: "visibleVideo s = Some video \<and> duration video = Seconds 1"
  have "min 1 MAX_DEMO_DURATION = (1::real)" by (simp add: MAX_DEMO_DURATION_def)
  with a have g: "duration video = Seconds 1 \<and> (0::real) < 1 \<and> 1 = min 1 MAX_DEMO_DURATION \<or>
                  duration video = Infinity \<and> 1 = MAX_DEMO_DURATION"
    by simp
  from a have v: "visibleVideo s = Some video" by blast
  let ?r = "togglePlay pr seen (pass_result p video 1 6 s)"
  have run: "startAnalysis p pr seen s = Some ?r"
    by (rule startAnalysis_run[OF v g passes_values(4)])
  have "sampled ?r = sampled s @
             [0, 3602879701896397 / 18014398509481984, 3602879701896397 / 9007199254740992,
              1351079888211149 / 2251799813685248, 3602879701896397 / 4503599627370496, 1]"
    by (simp only: togglePlay_frame pass_result_fields times_values)
  with run show "\<exists>r. startAnalysis p pr seen s = Some r \<and>
           sampled r = sampled s @
             [0, 3602879701896397 / 18014398509481984, 3602879701896397 / 9007199254740992,
              1351079888211149 / 2251799813685248, 3602879701896397 / 4503599627370496, 1]"
    by blast
next
  assume "visibleVideo s = Some video \<and> (duration video = Seconds 0 \<or> duration video = NaN)"
  then show "startAnalysis p pr seen s = Some s"
    using startAnalysis_guard[of s video p pr seen] by blast
next
  show "\<exists>r. analysisLoop p 0 st 0 0 s = Some r \<and> sampled r = sampled s @ [0]"
    by (simp add: analysisLoop_from_0[OF passes_values(1)] analysisStep_sampled)
qed

theorem C2_sampling_sequence_witness:
  "visibleVideo (example_clip 1) = Some (example_video\<lparr>currentTime := 0, duration := Seconds 1\<rparr>) \<and>
   duration (example_video\<lparr>currentTime := 0, duration := Seconds 1\<rparr>) = Seconds 1 \<and>
   map_option sampled (startAnalysis (\<lambda>t. Some []) True False (example_clip 1))
     = Some [0, 3602879701896397 / 18014398509481984, 3602879701896397 / 9007199254740992,
             1351079888211149 / 2251799813685248, 3602879701896397 / 4503599627370496, 1] \<and>
   visibleVideo (example_clip (1 / 2))
     = Some (example_video\<lparr>currentTime := 0, duration := Seconds (1 / 2)\<rparr>) \<and>
   duration (example_video\<lparr>currentTime := 0, duration := Seconds (1 / 2)\<rparr>) = Seconds (1 / 2) \<and>
   (0::real) < 1 / 2 \<and> min (1 / 2) MAX_DEMO_DURATION = (1 / 2 :: real) \<and> passes (1 / 2) 3 \<and>
   map_option sampled (startAnalysis (\<lambda>t. Some []) True False (example_clip (1 / 2)))
     = Some [0, 3602879701896397 / 18014398509481984, 3602879701896397 / 9007199254740992] \<and>
   visibleVideo (example_clip 0) = Some (example_video\<lparr>currentTime := 0, duration := Seconds 0\<rparr>) \<and>
   duration (example_video\<lparr>currentTime := 0, duration := Seconds 0\<rparr>) = Seconds 0 \<and>
   startAnalysis (\<lambda>t. Some []) True False (example_clip 0) = Some (example_clip 0) \<and>
   visibleVideo example_stream
     = Some (example_video\<lparr>currentTime := 0, duration := Infinity\<rparr>) \<and>
   duration (example_video\<lparr>currentTime := 0, duration := Infinity\<rparr>) = Infinity \<and>
   real 75 / 5 + 2 powi (- 41) \<le> MAX_DEMO_DURATION + 1 / 10 \<and>
   MAX_DEMO_DURATION + 1 / 10 + 2 powi (- 41) < real (Suc 75) / 5 \<and>
   passes MAX_DEMO_DURATION 76 \<and>
   map_option (length \<circ> sampled) (startAnalysis (\<lambda>t. Some []) True False example_stream)
     = Some 76"
proof -
  let ?p = "\<lambda>t :: real. Some ([] :: SegmentedClass list)"
  let ?v1 = "example_video\<lparr>currentTime := 0, duration := Seconds 1\<rparr>"
  let ?vh = "example_video\<lparr>currentTime := 0, duration := Seconds (1 / 2)\<rparr>"
  let ?v0 = "example_video\<lparr>currentTime := 0, duration := Seconds 0\<rparr>"
  let ?vs = "example_video\<lparr>currentTime := 0, duration := Infinity\<rparr>"
  have h1: "visibleVideo (example_clip 1) = Some ?v1 \<and> duration ?v1 = Seconds 1"
    by (simp add: example_clip_def)
  from C2_sampling_sequence[of "example_clip 1" ?v1 1 1 ?p True False 0] h1
  obtain r1 where r1: "startAnalysis ?p True False (example_clip 1) = Some r1"
     "sampled r1 = sampled (example_clip 1) @
             [0, 3602879701896397 / 18014398509481984, 3602879701896397 / 9007199254740992,
              1351079888211149 / 2251799813685248, 3602879701896397 / 4503599627370496, 1]"
    by blast
  have s1: "map_option sampled (startAnalysis ?p True False (example_clip 1))
     = Some [0, 3602879701896397 / 18014398509481984, 3602879701896397 / 9007199254740992,
             1351079888211149 / 2251799813685248, 3602879701896397 / 4503599627370496, 1]"
    using r1 by (simp add: example_clip_video)
  have mh: "min (1 / 2) MAX_DEMO_DURATION = (1 / 2 :: real)" by (simp add: MAX_DEMO_DURATION_def)
  have hh: "visibleVideo (example_clip (1 / 2)) = Some ?vh \<and>
            (duration ?vh = Seconds (1 / 2) \<and> (0::real) < 1 / 2 \<and>
               1 / 2 = min (1 / 2) MAX_DEMO_DURATION \<or>
             duration ?vh = Infinity \<and> 1 / 2 = MAX_DEMO_DURATION)"
    using mh by (simp add: example_clip_def)
  from C2_sampling_sequence[of "example_clip (1 / 2)" ?vh "1 / 2" "1 / 2" ?p True False 0] hh
  obtain rh n where rh: "startAnalysis ?p True False (example_clip (1 / 2)) = Some rh"
     "sampled rh = sampled (example_clip (1 / 2)) @ map accumulated [0..<n]"
     "passes (1 / 2) n"
    by blast
  from passes_unique[OF rh(3) passes_values(2)] have n3: "n = 3" .
  have sh: "map_option sampled (startAnalysis ?p True False (example_clip (1 / 2)))
     = Some [0, 3602879701896397 / 18014398509481984, 3602879701896397 / 9007199254740992]"
    using rh(1,2) unfolding n3 times_values by (simp add: example_clip_video)
  have h0: "visibleVideo (example_clip 0) = Some ?v0 \<and>
            (duration ?v0 = Seconds 0 \<or> duration ?v0 = NaN)"
    by (simp add: example_clip_def)
  from C2_sampling_sequence[of "example_clip 0" ?v0 0 0 ?p True False 0] h0
  have s0: "startAnalysis ?p True False (example_clip 0) = Some (example_clip 0)"
    by blast
  have c75: "real 75 / 5 + 2 powi (- 41) \<le> MAX_DEMO_DURATION + 1 / 10 \<and>
             MAX_DEMO_DURATION + 1 / 10 + 2 powi (- 41) < real (Suc 75) / 5"
    unfolding pow2_values by (simp add: MAX_DEMO_DURATION_def)
  have hs: "visibleVideo example_stream = Some ?vs \<and>
            (duration ?vs = Seconds 0 \<and> (0::real) < 0 \<and>
               MAX_DEMO_DURATION = min 0 MAX_DEMO_DURATION \<or>
             duration ?vs = Infinity \<and> MAX_DEMO_DURATION = MAX_DEMO_DURATION)"
    by (simp add: example_stream_def)
  from C2_sampling_sequence[of example_stream ?vs 0 MAX_DEMO_DURATION ?p True False 0] hs
  obtain rs m where rs: "startAnalysis ?p True False example_stream = Some rs"
     "sampled rs = sampled example_stream @ map accumulated [0..<m]"
     "passes MAX_DEMO_DURATION m"
     "\<forall>k. real k / 5 + 2 powi (- 41) \<le> MAX_DEMO_DURATION + 1 / 10 \<and>
          MAX_DEMO_DURATION + 1 / 10 + 2 powi (- 41) < real (Suc k) / 5 \<longrightarrow> m = Suc k"
    by blast
  from rs(4) c75 have "m = Suc 75" by blast
  then have m76: "m = 76" by simp
  have es: "sampled example_stream = []" by (simp add: example_stream_def example_state_def)
  have ss: "map_option (length \<circ> sampled) (startAnalysis ?p True False example_stream) = Some 76"
    using rs(1,2) unfolding m76 es by simp
  have p76: "passes MAX_DEMO_DURATION 76" using rs(3) unfolding m76 .
  have hs': "visibleVideo example_stream = Some ?vs \<and> duration ?vs = Infinity"
    by (simp add: example_stream_def)
  have hh': "visibleVideo (example_clip (1 / 2)) = Some ?vh \<and> duration ?vh = Seconds (1 / 2)"
    by (simp add: example_clip_def)
  have h0': "visibleVideo (example_clip 0) = Some ?v0 \<and> duration ?v0 = Seconds 0"
    by (simp add: example_clip_def)
  have half: "(0::real) < 1 / 2" by simp
  from h1 s1 hh' half mh passes_values(2) sh h0' s0 hs' c75 p76 ss
  show ?thesis by blast
qed

text \<open>
  Claim C2 as stated fails at a video of duration 0: the effective duration is 0 and the
  scheduler performs no sampling step, where the claim has one step at time 0.
\<close>

theorem C2_zero_duration_counterexample:
  "duration (example_video\<lparr>currentTime := 0, duration := Seconds 0\<rparr>) = Seconds 0 \<and>
   visibleVideo (example_clip 0) = Some (example_video\<lparr>currentTime := 0, duration := Seconds 0\<rparr>) \<and>
   min 0 MAX_DEMO_DURATION = (0::real) \<and>
   sampled (example_clip 0) = [] \<and>
   map_option sampled (startAnalysis (\<lambda>t. Some []) True False (example_clip 0)) = Some [] \<and>
   map_option sampled (startAnalysis (\<lambda>t. Some []) True False (example_clip 0)) \<noteq> Some [0]"
  by (simp add: example_clip_def example_state_def startAnalysis_def MAX_DEMO_DURATION_def)

text \<open>
  Claim C6. For a duration that passes the guard the run ends, and with the times sampled,
  which are the accumulated times of the passes of the loop: the cache after the run holds,
  in order, exactly the entries of the sampled times whose prediction succeeded, so it has
  an entry for a time \<open>t\<close> exactly when \<open>t\<close> was sampled and the call at \<open>t\<close> succeeded; a
  failed call adds no entry and is only logged. The times sampled do not depend on the
  predictor (a run with any other predictor samples the same times), so a failure neither
  stops the loop nor skips a later time, and the run ends in state \<open>complete\<close>.
\<close>

theorem C6_failed_inference_skipped:
  "visibleVideo s = Some video \<and>
   (duration video = Seconds d \<and> 0 < d \<and> e = min d MAX_DEMO_DURATION \<or>
    duration video = Infinity \<and> e = MAX_DEMO_DURATION) \<longrightarrow>
     (\<exists>r n. startAnalysis p pr seen s = Some r \<and> passes e n \<and>
        sampled r = sampled s @ map accumulated [0..<n] \<and>
        cache r = List.map_filter (cached_entry p) (map accumulated [0..<n]) \<and>
        (\<forall>t res. \<lparr>timestamp = t, odResult = res\<rparr> \<in> set (cache r)
                  \<longleftrightarrow> t \<in> set (map accumulated [0..<n]) \<and> p t = Some res) \<and>
        (\<forall>t. t \<in> set (map timestamp (cache r))
              \<longleftrightarrow> t \<in> set (map accumulated [0..<n]) \<and> p t \<noteq> None) \<and>
        analysisStatus r = complete \<and>
        errorLog r
          = errorLog s
              @ map Analysis_failed (filter (\<lambda>t. p t = None) (map accumulated [0..<n]))
              @ (if \<not> seen \<and> \<not> pr then [Play_failed] else []) \<and>
        (\<forall>p'. \<exists>r'. startAnalysis p' pr seen s = Some r' \<and> sampled r' = sampled r))"
proof (intro impI)
  assume a: "visibleVideo s = Some video \<and>
   (duration video = Seconds d \<and> 0 < d \<and> e = min d MAX_DEMO_DURATION \<or>
    duration video = Infinity \<and> e = MAX_DEMO_DURATION)"
  then have v: "visibleVideo s = Some video"
    and g: "duration video = Seconds d \<and> 0 < d \<and> e = min d MAX_DEMO_DURATION \<or>
            duration video = Infinity \<and> e = MAX_DEMO_DURATION"
    by blast+
  from run_passes[OF g] obtain n where n: "passes e n" by blast
  let ?ts = "map accumulated [0..<n]"
  let ?r = "togglePlay pr seen (pass_result p video e n s)"
  have run: "startAnalysis p pr seen s = Some ?r" by (rule startAnalysis_run[OF v g n])
  have sm: "sampled ?r = sampled s @ ?ts"
    by (simp only: togglePlay_frame pass_result_fields)
  have c: "cache ?r = List.map_filter (cached_entry p) ?ts"
    by (simp only: togglePlay_frame pass_result_fields)
  have m: "\<forall>t res. \<lparr>timestamp = t, odResult = res\<rparr> \<in> set (cache ?r)
             \<longleftrightarrow> t \<in> set ?ts \<and> p t = Some res"
    unfolding c set_map_filter by (auto simp add: cached_entry_def)
  have ts: "\<forall>t. t \<in> set (map timestamp (cache ?r)) \<longleftrightarrow> t \<in> set ?ts \<and> p t \<noteq> None"
    unfolding c timestamps_map_filter by simp
  have st: "analysisStatus ?r = complete"
    by (simp only: togglePlay_frame pass_result_fields)
  have el: "errorLog ?r
       = errorLog s @ map Analysis_failed (filter (\<lambda>t. p t = None) ?ts)
           @ (if \<not> seen \<and> \<not> pr then [Play_failed] else [])"
    unfolding togglePlay_errorLog[OF pass_result_video]
    by (simp only: pass_result_fields append_assoc)
  have ind: "\<forall>p'. \<exists>r'. startAnalysis p' pr seen s = Some r' \<and> sampled r' = sampled ?r"
  proof
    fix p'
    let ?r' = "togglePlay pr seen (pass_result p' video e n s)"
    have "startAnalysis p' pr seen s = Some ?r'" by (rule startAnalysis_run[OF v g n])
    moreover have "sampled ?r' = sampled ?r"
      by (simp only: togglePlay_frame pass_result_fields)
    ultimately show "\<exists>r'. startAnalysis p' pr seen s = Some r' \<and> sampled r' = sampled ?r"
      by blast
  qed
  from run n sm c m ts st el ind
  show "\<exists>r n. startAnalysis p pr seen s = Some r \<and> passes e n \<and>
        sampled r = sampled s @ map accumulated [0..<n] \<and>
        cache r = List.map_filter (cached_entry p) (map accumulated [0..<n]) \<and>
        (\<forall>t res. \<lparr>timestamp = t, odResult = res\<rparr> \<in> set (cache r)
                  \<longleftrightarrow> t \<in> set (map accumulated [0..<n]) \<and> p t = Some res) \<and>
        (\<forall>t. t \<in> set (map timestamp (cache r))
              \<longleftrightarrow> t \<in> set (map accumulated [0..<n]) \<and> p t \<noteq> None) \<and>
        analysisStatus r = complete \<and>
        errorLog r
          = errorLog s
              @ map Analysis_failed (filter (\<lambda>t. p t = None) (map accumulated [0..<n]))
              @ (if \<not> seen \<and> \<not> pr then [Play_failed] else []) \<and>
        (\<forall>p'. \<exists>r'. startAnalysis p' pr seen s = Some r' \<and> sampled r' = sampled r)"
    by blast
qed

theorem C6_failed_inference_skipped_witness:
  "visibleVideo (example_clip 1) = Some (example_video\<lparr>currentTime := 0, duration := Seconds 1\<rparr>) \<and>
   duration (example_video\<lparr>currentTime := 0, duration := Seconds 1\<rparr>) = Seconds 1 \<and>
   (0::real) < 1 \<and> (1::real) = min 1 MAX_DEMO_DURATION \<and>
   example_failing ANALYSIS_INTERVAL = None \<and>
   ANALYSIS_INTERVAL = 3602879701896397 / 18014398509481984 \<and>
   map_option cache (startAnalysis example_failing True False (example_clip 1))
     = Some [\<lparr>timestamp = 0, odResult = []\<rparr>,
             \<lparr>timestamp = 3602879701896397 / 9007199254740992, odResult = []\<rparr>,
             \<lparr>timestamp = 1351079888211149 / 2251799813685248, odResult = []\<rparr>,
             \<lparr>timestamp = 3602879701896397 / 4503599627370496, odResult = []\<rparr>,
             \<lparr>timestamp = 1, odResult = []\<rparr>] \<and>
   map_option sampled (startAnalysis example_failing True False (example_clip 1))
     = Some [0, 3602879701896397 / 18014398509481984, 3602879701896397 / 9007199254740992,
             1351079888211149 / 2251799813685248, 3602879701896397 / 4503599627370496, 1] \<and>
   map_option analysisStatus (startAnalysis example_failing True False (example_clip 1))
     = Some complete \<and>
   map_option errorLog (startAnalysis example_failing True False (example_clip 1))
     = Some [Analysis_failed (3602879701896397 / 18014398509481984)] \<and>
   map_option sampled (startAnalysis (\<lambda>t. Some []) True False (example_clip 1))
     = map_option sampled (startAnalysis example_failing True False (example_clip 1))"
proof -
  let ?v = "example_video\<lparr>currentTime := 0, duration := Seconds 1\<rparr>"
  let ?ts = "[0, 3602879701896397 / 18014398509481984, 3602879701896397 / 9007199254740992,
              1351079888211149 / 2251799813685248, 3602879701896397 / 4503599627370496, 1 :: real]"
  have m: "(1::real) = min 1 MAX_DEMO_DURATION" by (simp add: MAX_DEMO_DURATION_def)
  have f: "example_failing ANALYSIS_INTERVAL = None" by (simp add: example_failing_def)
  have h: "visibleVideo (example_clip 1) = Some ?v \<and>
     (duration ?v = Seconds 1 \<and> (0::real) < 1 \<and> 1 = min 1 MAX_DEMO_DURATION \<or>
      duration ?v = Infinity \<and> 1 = MAX_DEMO_DURATION)"
    using m by (simp add: example_clip_video)
  from C6_failed_inference_skipped[of "example_clip 1" ?v 1 1 example_failing True False] h
  obtain r n where r: "startAnalysis example_failing True False (example_clip 1) = Some r"
    and n: "passes 1 n"
    and sm: "sampled r = sampled (example_clip 1) @ map accumulated [0..<n]"
    and c: "cache r = List.map_filter (cached_entry example_failing) (map accumulated [0..<n])"
    and st: "analysisStatus r = complete"
    and el: "errorLog r = errorLog (example_clip 1)
           @ map Analysis_failed (filter (\<lambda>t. example_failing t = None) (map accumulated [0..<n]))
           @ (if \<not> False \<and> \<not> True then [Play_failed] else [])"
    and ind: "\<forall>p'. \<exists>r'. startAnalysis p' True False (example_clip 1) = Some r' \<and>
                sampled r' = sampled r"
    by blast
  from passes_unique[OF n passes_values(4)] have n6: "n = 6" .
  have c': "cache r
     = [\<lparr>timestamp = 0, odResult = []\<rparr>,
        \<lparr>timestamp = 3602879701896397 / 9007199254740992, odResult = []\<rparr>,
        \<lparr>timestamp = 1351079888211149 / 2251799813685248, odResult = []\<rparr>,
        \<lparr>timestamp = 3602879701896397 / 4503599627370496, odResult = []\<rparr>,
        \<lparr>timestamp = 1, odResult = []\<rparr>]"
    unfolding c n6 times_values
    by (simp add: List.map_filter_def cached_entry_def example_failing_def interval_value)
  have sm': "sampled r = ?ts"
    unfolding sm n6 times_values example_clip_video by simp
  have el': "errorLog r = [Analysis_failed (3602879701896397 / 18014398509481984)]"
    unfolding el n6 times_values example_clip_video
    by (simp add: example_failing_def interval_value)
  from ind obtain r' where r': "startAnalysis (\<lambda>t. Some []) True False (example_clip 1) = Some r'"
    "sampled r' = sampled r"
    by blast
  show ?thesis
    using m f interval_value example_clip_video(1,2)[of 1] r c' sm' st el' r' by simp
qed

text \<open>
  Claim C7, as amended. After an analysis pass the timestamps of the cache are the sampled
  times whose prediction succeeded: strictly ascending, each between 0 and the bound of
  the loop, which is the double sum \<open>effectiveDuration + 0.1\<close> (within \<open>2 ^ -49\<close> of the
  exact sum). When every prediction succeeds they are all the sampled times: the first is
  0, each next one is the double sum of the one before and the interval (a fifth of a
  second up to \<open>2 ^ -48\<close>), one more interval would pass the bound, and the last is above
  \<open>effectiveDuration - 0.1 - 2 ^ -47\<close>.
\<close>

theorem C7_cache_order:
  "visibleVideo s = Some video \<and>
   (duration video = Seconds d \<and> 0 < d \<and> e = min d MAX_DEMO_DURATION \<or>
    duration video = Infinity \<and> e = MAX_DEMO_DURATION) \<longrightarrow>
     (\<exists>r n. startAnalysis p pr seen s = Some r \<and> passes e n \<and>
        map timestamp (cache r) = filter (\<lambda>t. p t \<noteq> None) (map accumulated [0..<n]) \<and>
        sorted_wrt (<) (map timestamp (cache r)) \<and>
        (\<forall>t\<in>set (map timestamp (cache r)). 0 \<le> t \<and> t \<le> loop_bound e) \<and>
        \<bar>loop_bound e - (e + 1 / 10)\<bar> \<le> 2 powi (- 49) \<and>
        ((\<forall>t. p t \<noteq> None) \<longrightarrow>
           map timestamp (cache r) = map accumulated [0..<n] \<and>
           map timestamp (cache r) \<noteq> [] \<and> hd (map timestamp (cache r)) = 0 \<and>
           \<not> fadd (last (map timestamp (cache r))) ANALYSIS_INTERVAL \<le> loop_bound e \<and>
           e - 1 / 10 - 2 powi (- 47) < last (map timestamp (cache r)) \<and>
           (\<forall>i. Suc i < length (cache r) \<longrightarrow>
              timestamp (cache r ! Suc i) = fadd (timestamp (cache r ! i)) ANALYSIS_INTERVAL \<and>
              \<bar>timestamp (cache r ! Suc i) - timestamp (cache r ! i) - 1 / 5\<bar>
                \<le> 2 powi (- 48))))"
proof (intro impI)
  assume a: "visibleVideo s = Some video \<and>
   (duration video = Seconds d \<and> 0 < d \<and> e = min d MAX_DEMO_DURATION \<or>
    duration video = Infinity \<and> e = MAX_DEMO_DURATION)"
  then have v: "visibleVideo s = Some video"
    and g: "duration video = Seconds d \<and> 0 < d \<and> e = min d MAX_DEMO_DURATION \<or>
            duration video = Infinity \<and> e = MAX_DEMO_DURATION"
    by blast+
  from effective_range[OF g] have e: "0 \<le> e" "e \<le> 15" by simp_all
  from run_passes[OF g] obtain n where n: "passes e n" "0 < n" "n \<le> 77" by blast
  then have n79: "n \<le> 79" by simp
  let ?acc = "map accumulated [0..<n]"
  let ?r = "togglePlay pr seen (pass_result p video e n s)"
  have run: "startAnalysis p pr seen s = Some ?r" by (rule startAnalysis_run[OF v g n(1)])
  have c: "cache ?r = List.map_filter (cached_entry p) ?acc"
    by (simp only: togglePlay_frame pass_result_fields)
  have ts: "map timestamp (cache ?r) = filter (\<lambda>t. p t \<noteq> None) ?acc"
    unfolding c by (rule timestamps_map_filter)
  have srt: "sorted_wrt (<) (map timestamp (cache ?r))"
    unfolding ts by (rule sorted_wrt_filter[OF sorted_accumulated[OF n79]])
  have rng: "\<forall>t\<in>set (map timestamp (cache ?r)). 0 \<le> t \<and> t \<le> loop_bound e"
    unfolding ts using accumulated_range[OF n(1)] by simp
  note bnd = loop_bound_near[OF e]
  have full: "(\<forall>t. p t \<noteq> None) \<longrightarrow>
           map timestamp (cache ?r) = ?acc \<and>
           map timestamp (cache ?r) \<noteq> [] \<and> hd (map timestamp (cache ?r)) = 0 \<and>
           \<not> fadd (last (map timestamp (cache ?r))) ANALYSIS_INTERVAL \<le> loop_bound e \<and>
           e - 1 / 10 - 2 powi (- 47) < last (map timestamp (cache ?r)) \<and>
           (\<forall>i. Suc i < length (cache ?r) \<longrightarrow>
              timestamp (cache ?r ! Suc i) = fadd (timestamp (cache ?r ! i)) ANALYSIS_INTERVAL \<and>
              \<bar>timestamp (cache ?r ! Suc i) - timestamp (cache ?r ! i) - 1 / 5\<bar>
                \<le> 2 powi (- 48))"
  proof
    assume all: "\<forall>t. p t \<noteq> None"
    then have eq: "map timestamp (cache ?r) = ?acc" unfolding ts by simp
    have len: "length (cache ?r) = length ?acc"
      using arg_cong[OF eq, of length] by (simp only: length_map)
    have nth: "timestamp (cache ?r ! i) = ?acc ! i" if "i < length (cache ?r)" for i
      using nth_map[OF that, of timestamp] unfolding eq by simp
    have sp: "\<forall>i. Suc i < length (cache ?r) \<longrightarrow>
              timestamp (cache ?r ! Suc i) = fadd (timestamp (cache ?r ! i)) ANALYSIS_INTERVAL \<and>
              \<bar>timestamp (cache ?r ! Suc i) - timestamp (cache ?r ! i) - 1 / 5\<bar>
                \<le> 2 powi (- 48)"
    proof (intro allI impI)
      fix i
      assume i: "Suc i < length (cache ?r)"
      then have i': "i < length (cache ?r)" by simp
      from i have j: "Suc i < length ?acc" unfolding len .
      show "timestamp (cache ?r ! Suc i) = fadd (timestamp (cache ?r ! i)) ANALYSIS_INTERVAL \<and>
            \<bar>timestamp (cache ?r ! Suc i) - timestamp (cache ?r ! i) - 1 / 5\<bar> \<le> 2 powi (- 48)"
        unfolding nth[OF i] nth[OF i'] using accumulated_spacing[OF n79 j] by blast
    qed
    from accumulated_ends[OF e n(1)] sp
    show "map timestamp (cache ?r) = ?acc \<and>
           map timestamp (cache ?r) \<noteq> [] \<and> hd (map timestamp (cache ?r)) = 0 \<and>
           \<not> fadd (last (map timestamp (cache ?r))) ANALYSIS_INTERVAL \<le> loop_bound e \<and>
           e - 1 / 10 - 2 powi (- 47) < last (map timestamp (cache ?r)) \<and>
           (\<forall>i. Suc i < length (cache ?r) \<longrightarrow>
              timestamp (cache ?r ! Suc i) = fadd (timestamp (cache ?r ! i)) ANALYSIS_INTERVAL \<and>
              \<bar>timestamp (cache ?r ! Suc i) - timestamp (cache ?r ! i) - 1 / 5\<bar>
                \<le> 2 powi (- 48))"
      unfolding eq by blast
  qed
  from run n(1) ts srt rng bnd full
  show "\<exists>r n. startAnalysis p pr seen s = Some r \<and> passes e n \<and>
        map timestamp (cache r) = filter (\<lambda>t. p t \<noteq> None) (map accumulated [0..<n]) \<and>
        sorted_wrt (<) (map timestamp (cache r)) \<and>
        (\<forall>t\<in>set (map timestamp (cache r)). 0 \<le> t \<and> t \<le> loop_bound e) \<and>
        \<bar>loop_bound e - (e + 1 / 10)\<bar> \<le> 2 powi (- 49) \<and>
        ((\<forall>t. p t \<noteq> None) \<longrightarrow>
           map timestamp (cache r) = map accumulated [0..<n] \<and>
           map timestamp (cache r) \<noteq> [] \<and> hd (map timestamp (cache r)) = 0 \<and>
           \<not> fadd (last (map timestamp (cache r))) ANALYSIS_INTERVAL \<le> loop_bound e \<and>
           e - 1 / 10 - 2 powi (- 47) < last (map timestamp (cache r)) \<and>
           (\<forall>i. Suc i < length (cache r) \<longrightarrow>
              timestamp (cache r ! Suc i) = fadd (timestamp (cache r ! i)) ANALYSIS_INTERVAL \<and>
              \<bar>timestamp (cache r ! Suc i) - timestamp (cache r ! i) - 1 / 5\<bar>
                \<le> 2 powi (- 48)))"
    by blast
qed

theorem C7_cache_order_witness:
  "visibleVideo (example_clip (3 / 4))
     = Some (example_video\<lparr>currentTime := 0, duration := Seconds (3 / 4)\<rparr>) \<and>
   duration (example_video\<lparr>currentTime := 0, duration := Seconds (3 / 4)\<rparr>) = Seconds (3 / 4) \<and>
   (0::real) < 3 / 4 \<and> (3 / 4 :: real) = min (3 / 4) MAX_DEMO_DURATION \<and>
   map_option (map timestamp \<circ> cache)
       (startAnalysis example_failing True False (example_clip (3 / 4)))
     = Some [0, 3602879701896397 / 9007199254740992, 1351079888211149 / 2251799813685248,
             3602879701896397 / 4503599627370496] \<and>
   map_option (sorted_wrt (<) \<circ> map timestamp \<circ> cache)
       (startAnalysis example_failing True False (example_clip (3 / 4))) = Some True \<and>
   map_option (map timestamp \<circ> cache)
       (startAnalysis (\<lambda>t. Some []) True False (example_clip (3 / 4)))
     = Some [0, 3602879701896397 / 18014398509481984, 3602879701896397 / 9007199254740992,
             1351079888211149 / 2251799813685248, 3602879701896397 / 4503599627370496]"
proof -
  let ?v = "example_video\<lparr>currentTime := 0, duration := Seconds (3 / 4)\<rparr>"
  let ?p = "\<lambda>t :: real. Some ([] :: SegmentedClass list)"
  have m: "(3 / 4 :: real) = min (3 / 4) MAX_DEMO_DURATION" by (simp add: MAX_DEMO_DURATION_def)
  have pos: "(0::real) < 3 / 4" by simp
  have h: "visibleVideo (example_clip (3 / 4)) = Some ?v \<and>
     (duration ?v = Seconds (3 / 4) \<and> (0::real) < 3 / 4 \<and> 3 / 4 = min (3 / 4) MAX_DEMO_DURATION \<or>
      duration ?v = Infinity \<and> 3 / 4 = MAX_DEMO_DURATION)"
    using m by (simp add: example_clip_video)
  from C7_cache_order[of "example_clip (3 / 4)" ?v "3 / 4" "3 / 4" example_failing True False] h
  obtain r1 n1 where r1: "startAnalysis example_failing True False (example_clip (3 / 4)) = Some r1"
    and n1: "passes (3 / 4) n1"
    and t1: "map timestamp (cache r1)
               = filter (\<lambda>t. example_failing t \<noteq> None) (map accumulated [0..<n1])"
    and s1: "sorted_wrt (<) (map timestamp (cache r1))"
    by blast
  from passes_unique[OF n1 passes_values(3)] have n15: "n1 = 5" .
  have t1': "map timestamp (cache r1)
     = [0, 3602879701896397 / 9007199254740992, 1351079888211149 / 2251799813685248,
        3602879701896397 / 4503599627370496]"
    unfolding t1 n15 times_values by (simp add: example_failing_def interval_value)
  have all: "\<forall>t. ?p t \<noteq> None" by simp
  from C7_cache_order[of "example_clip (3 / 4)" ?v "3 / 4" "3 / 4" ?p True False] h all
  obtain r2 n2 where r2: "startAnalysis ?p True False (example_clip (3 / 4)) = Some r2"
    and n2: "passes (3 / 4) n2"
    and t2: "map timestamp (cache r2) = map accumulated [0..<n2]"
    by blast
  from passes_unique[OF n2 passes_values(3)] have n25: "n2 = 5" .
  have t2': "map timestamp (cache r2)
     = [0, 3602879701896397 / 18014398509481984, 3602879701896397 / 9007199254740992,
        1351079888211149 / 2251799813685248, 3602879701896397 / 4503599627370496]"
    unfolding t2 n25 times_values ..
  have c1: "map_option (map timestamp \<circ> cache)
       (startAnalysis example_failing True False (example_clip (3 / 4)))
     = Some [0, 3602879701896397 / 9007199254740992, 1351079888211149 / 2251799813685248,
             3602879701896397 / 4503599627370496]"
    using r1 t1' by simp
  have c2: "map_option (sorted_wrt (<) \<circ> map timestamp \<circ> cache)
       (startAnalysis example_failing True False (example_clip (3 / 4))) = Some True"
    using r1 s1 by simp
  have c3: "map_option (map timestamp \<circ> cache)
       (startAnalysis ?p True False (example_clip (3 / 4)))
     = Some [0, 3602879701896397 / 18014398509481984, 3602879701896397 / 9007199254740992,
             1351079888211149 / 2251799813685248, 3602879701896397 / 4503599627370496]"
    using r2 t2' by simp
  from example_clip_video(1,2)[of "3 / 4"] pos m c1 c2 c3 show ?thesis by blast
qed

text \<open>
  Claim C7 as stated fails for a video of 0.75 s: with the prediction of the second frame
  failing, the first two cached timestamps are 0 and the double 0.4, two intervals apart;
  and with or without the failure the last timestamp is the double 0.8, beyond the
  effective duration of 0.75.
\<close>

theorem C7_gap_and_overshoot_counterexample:
  "duration (example_video\<lparr>currentTime := 0, duration := Seconds (3 / 4)\<rparr>) = Seconds (3 / 4) \<and>
   visibleVideo (example_clip (3 / 4))
     = Some (example_video\<lparr>currentTime := 0, duration := Seconds (3 / 4)\<rparr>) \<and>
   min (3 / 4) MAX_DEMO_DURATION = (3 / 4 :: real) \<and>
   map_option (map timestamp \<circ> cache)
       (startAnalysis example_failing True False (example_clip (3 / 4)))
     = Some [0, 3602879701896397 / 9007199254740992, 1351079888211149 / 2251799813685248,
             3602879701896397 / 4503599627370496] \<and>
   (3602879701896397 / 9007199254740992 :: real) - 0 \<noteq> ANALYSIS_INTERVAL \<and>
   (3602879701896397 / 4503599627370496 :: real) > min (3 / 4) MAX_DEMO_DURATION \<and>
   map_option (map timestamp \<circ> cache)
       (startAnalysis (\<lambda>t. Some []) True False (example_clip (3 / 4)))
     = Some [0, 3602879701896397 / 18014398509481984, 3602879701896397 / 9007199254740992,
             1351079888211149 / 2251799813685248, 3602879701896397 / 4503599627370496] \<and>
   last [0, 3602879701896397 / 18014398509481984, 3602879701896397 / 9007199254740992,
         1351079888211149 / 2251799813685248, 3602879701896397 / 4503599627370496 :: real]
     > min (3 / 4) MAX_DEMO_DURATION"
proof -
  let ?v = "example_video\<lparr>currentTime := 0, duration := Seconds (3 / 4)\<rparr>"
  let ?p = "\<lambda>t :: real. Some ([] :: SegmentedClass list)"
  have m: "min (3 / 4) MAX_DEMO_DURATION = (3 / 4 :: real)" by (simp add: MAX_DEMO_DURATION_def)
  have g: "duration ?v = Seconds (3 / 4) \<and> (0::real) < 3 / 4 \<and> 3 / 4 = min (3 / 4) MAX_DEMO_DURATION \<or>
      duration ?v = Infinity \<and> 3 / 4 = MAX_DEMO_DURATION"
    using m by simp
  note run = startAnalysis_run[OF example_clip_video(1) g passes_values(3)]
  have c1: "map_option (map timestamp \<circ> cache)
       (startAnalysis example_failing True False (example_clip (3 / 4)))
     = Some [0, 3602879701896397 / 9007199254740992, 1351079888211149 / 2251799813685248,
             3602879701896397 / 4503599627370496]"
    unfolding run
    by (simp only: option.map comp_apply togglePlay_frame pass_result_fields
          timestamps_map_filter times_values)
       (simp add: example_failing_def interval_value)
  have c2: "map_option (map timestamp \<circ> cache)
       (startAnalysis ?p True False (example_clip (3 / 4)))
     = Some [0, 3602879701896397 / 18014398509481984, 3602879701896397 / 9007199254740992,
             1351079888211149 / 2251799813685248, 3602879701896397 / 4503599627370496]"
    unfolding run
    by (simp only: option.map comp_apply togglePlay_frame pass_result_fields
          timestamps_map_filter times_values)
       simp
  have a: "(3602879701896397 / 9007199254740992 :: real) - 0 \<noteq> ANALYSIS_INTERVAL"
    by (simp add: interval_value)
  have b: "(3602879701896397 / 4503599627370496 :: real) > min (3 / 4) MAX_DEMO_DURATION"
    by (simp add: MAX_DEMO_DURATION_def)
  have l: "last [0, 3602879701896397 / 18014398509481984, 3602879701896397 / 9007199254740992,
         1351079888211149 / 2251799813685248, 3602879701896397 / 4503599627370496 :: real]
     > min (3 / 4) MAX_DEMO_DURATION"
    by (simp add: MAX_DEMO_DURATION_def)
  from example_clip_video(2)[of "3 / 4"] example_clip_video(1)[of "3 / 4"] m c1 a b c2 l
  show ?thesis by blast
qed

text \<open>
  Claim C9, as amended. For a duration that passes the guard, with
  \<open>steps = \<lceil>effectiveDuration / interval\<rceil> + 1\<close> computed in doubles: the run ends, the
  values reported after its passes \<open>k = 1, 2, \<dots>, n\<close> are the values the code computes,
  \<^verbatim>\<open>Math.min(100, Math.round((k / steps) * 100))\<close> with the quotient and the product rounded
  to doubles, and the last of them is the progress at the end. The number of passes is at
  most \<open>steps\<close>. Every reported value lies between 0 and 100. The double product is within
  \<open>2 ^ -39\<close> of the exact percentage \<open>100 * k / steps\<close>, so a reported value is
  \<open>round (100 * k / steps)\<close> or next to it.
\<close>

theorem C9_progress:
  "visibleVideo s = Some video \<and>
   (duration video = Seconds d \<and> 0 < d \<and> e = min d MAX_DEMO_DURATION \<or>
    duration video = Infinity \<and> e = MAX_DEMO_DURATION) \<and>
   steps = \<lceil>fdiv e ANALYSIS_INTERVAL\<rceil> + 1 \<longrightarrow>
     (\<exists>r n. startAnalysis p pr seen s = Some r \<and> passes e n \<and> 0 < n \<and>
        progressLog r = progressLog s @ map (reported steps) [1..<Suc n] \<and>
        progress r = reported steps n \<and>
        0 < steps \<and> int n \<le> steps \<and>
        (\<forall>k. 0 \<le> reported steps k \<and> reported steps k \<le> 100) \<and>
        (\<forall>k\<le>n. \<bar>fmul (fdiv (real k) (real_of_int steps)) 100
                     - 100 * real k / real_of_int steps\<bar> \<le> 2 powi (- 39) \<and>
                 \<bar>reported steps k - round (100 * real k / real_of_int steps)\<bar> \<le> 1))"
proof (intro impI)
  assume a: "visibleVideo s = Some video \<and>
   (duration video = Seconds d \<and> 0 < d \<and> e = min d MAX_DEMO_DURATION \<or>
    duration video = Infinity \<and> e = MAX_DEMO_DURATION) \<and>
   steps = \<lceil>fdiv e ANALYSIS_INTERVAL\<rceil> + 1"
  then have v: "visibleVideo s = Some video"
    and g: "duration video = Seconds d \<and> 0 < d \<and> e = min d MAX_DEMO_DURATION \<or>
            duration video = Infinity \<and> e = MAX_DEMO_DURATION"
    and "steps = \<lceil>fdiv e ANALYSIS_INTERVAL\<rceil> + 1"
    by blast+
  then have st: "steps = total_steps e" by (simp add: total_steps_def)
  from effective_range[OF g] have e: "0 \<le> e" "e \<le> 15" by simp_all
  from run_passes[OF g] obtain n where n: "passes e n" "0 < n" "n \<le> 77" by blast
  have sp: "0 < steps" unfolding st by (rule total_steps_pos[OF e(1)])
  have nle: "int n \<le> steps" unfolding st by (rule passes_le_total_steps[OF e n(1)])
  let ?r = "togglePlay pr seen (pass_result p video e n s)"
  have run: "startAnalysis p pr seen s = Some ?r" by (rule startAnalysis_run[OF v g n(1)])
  have "progressLog ?r = progressLog s @ map (\<lambda>j. reported steps (j + 1)) [0..<n]"
    unfolding st by (simp only: togglePlay_frame pass_result_fields)
  also have "map (\<lambda>j. reported steps (j + 1)) [0..<n] = map (reported steps) (map Suc [0..<n])"
    by (simp add: comp_def)
  also have "map Suc [0..<n] = [1..<Suc n]" by (simp add: map_Suc_upt)
  finally have pl: "progressLog ?r = progressLog s @ map (reported steps) [1..<Suc n]" .
  have pg: "progress ?r = reported steps n"
    unfolding st by (simp only: togglePlay_frame pass_result_progress[OF n(2)])
  have rng: "\<forall>k. 0 \<le> reported steps k \<and> reported steps k \<le> 100"
    using reported_range[OF sp] by blast
  have near: "\<forall>k\<le>n. \<bar>fmul (fdiv (real k) (real_of_int steps)) 100
                     - 100 * real k / real_of_int steps\<bar> \<le> 2 powi (- 39) \<and>
                 \<bar>reported steps k - round (100 * real k / real_of_int steps)\<bar> \<le> 1"
  proof (intro allI impI)
    fix k
    assume kn: "k \<le> n"
    with n(3) have k100: "k \<le> 100" by simp
    have "real k \<le> real_of_int steps" using kn nle by linarith
    then have "real k / real_of_int steps \<le> 1" using sp by (simp add: divide_le_eq)
    then have "100 * real k / real_of_int steps \<le> 100" by simp
    from round_mono[OF this] have "round (100 * real k / real_of_int steps) \<le> 100" by simp
    then have "min 100 (round (100 * real k / real_of_int steps))
                 = round (100 * real k / real_of_int steps)"
      by (rule min_absorb2)
    with progress_value_near[OF sp k100] reported_near[OF sp k100]
    show "\<bar>fmul (fdiv (real k) (real_of_int steps)) 100
                     - 100 * real k / real_of_int steps\<bar> \<le> 2 powi (- 39) \<and>
          \<bar>reported steps k - round (100 * real k / real_of_int steps)\<bar> \<le> 1"
      by simp
  qed
  from run n(1,2) pl pg sp nle rng near
  show "\<exists>r n. startAnalysis p pr seen s = Some r \<and> passes e n \<and> 0 < n \<and>
        progressLog r = progressLog s @ map (reported steps) [1..<Suc n] \<and>
        progress r = reported steps n \<and>
        0 < steps \<and> int n \<le> steps \<and>
        (\<forall>k. 0 \<le> reported steps k \<and> reported steps k \<le> 100) \<and>
        (\<forall>k\<le>n. \<bar>fmul (fdiv (real k) (real_of_int steps)) 100
                     - 100 * real k / real_of_int steps\<bar> \<le> 2 powi (- 39) \<and>
                 \<bar>reported steps k - round (100 * real k / real_of_int steps)\<bar> \<le> 1)"
    by blast
qed

theorem C9_progress_witness:
  "visibleVideo (example_clip 1) = Some (example_video\<lparr>currentTime := 0, duration := Seconds 1\<rparr>) \<and>
   duration (example_video\<lparr>currentTime := 0, duration := Seconds 1\<rparr>) = Seconds 1 \<and>
   (0::real) < 1 \<and> (1::real) = min 1 MAX_DEMO_DURATION \<and>
   (6::int) = \<lceil>fdiv 1 ANALYSIS_INTERVAL\<rceil> + 1 \<and>
   map_option progressLog (startAnalysis (\<lambda>t. Some []) True False (example_clip 1))
     = Some [17, 33, 50, 67, 83, 100] \<and>
   map_option progress (startAnalysis (\<lambda>t. Some []) True False (example_clip 1)) = Some 100 \<and>
   (3::nat) \<le> 6 \<and>
   \<bar>reported 6 3 - round (100 * real 3 / real_of_int 6)\<bar> \<le> 1 \<and>
   visibleVideo (example_clip (1 / 2))
     = Some (example_video\<lparr>currentTime := 0, duration := Seconds (1 / 2)\<rparr>) \<and>
   duration (example_video\<lparr>currentTime := 0, duration := Seconds (1 / 2)\<rparr>) = Seconds (1 / 2) \<and>
   (0::real) < 1 / 2 \<and> (1 / 2 :: real) = min (1 / 2) MAX_DEMO_DURATION \<and>
   (4::int) = \<lceil>fdiv (1 / 2) ANALYSIS_INTERVAL\<rceil> + 1 \<and>
   map_option progressLog (startAnalysis (\<lambda>t. Some []) True False (example_clip (1 / 2)))
     = Some [25, 50, 75] \<and>
   map_option progress (startAnalysis (\<lambda>t. Some []) True False (example_clip (1 / 2)))
     = Some 75"
proof -
  let ?p = "\<lambda>t :: real. Some ([] :: SegmentedClass list)"
  let ?v = "example_video\<lparr>currentTime := 0, duration := Seconds 1\<rparr>"
  let ?vh = "example_video\<lparr>currentTime := 0, duration := Seconds (1 / 2)\<rparr>"
  have m: "(1::real) = min 1 MAX_DEMO_DURATION" by (simp add: MAX_DEMO_DURATION_def)
  have mh: "(1 / 2 :: real) = min (1 / 2) MAX_DEMO_DURATION" by (simp add: MAX_DEMO_DURATION_def)
  have s6: "(6::int) = \<lceil>fdiv 1 ANALYSIS_INTERVAL\<rceil> + 1"
    using total_steps_values(3) by (simp add: total_steps_def)
  have s4: "(4::int) = \<lceil>fdiv (1 / 2) ANALYSIS_INTERVAL\<rceil> + 1"
    using total_steps_values(1) by (simp add: total_steps_def)
  have u6: "[1..<Suc 6] = map Suc [0..<6]" and u3: "[1..<Suc 3] = map Suc [0..<3]"
    by (simp_all only: map_Suc_upt One_nat_def)
  have l6: "map (reported 6) [1..<Suc 6] = [17, 33, 50, 67, 83, 100]"
    unfolding u6 upt_values by (simp add: reported_values)
  have l4: "map (reported 4) [1..<Suc 3] = [25, 50, 75]"
    unfolding u3 upt_values by (simp add: reported_values)
  have r66: "reported 6 6 = 100" and r43: "reported 4 3 = 75" and r63: "reported 6 3 = 50"
    using reported_values by (simp_all add: eval_nat_numeral)
  have h: "visibleVideo (example_clip 1) = Some ?v \<and>
     (duration ?v = Seconds 1 \<and> (0::real) < 1 \<and> 1 = min 1 MAX_DEMO_DURATION \<or>
      duration ?v = Infinity \<and> 1 = MAX_DEMO_DURATION) \<and>
     (6::int) = \<lceil>fdiv 1 ANALYSIS_INTERVAL\<rceil> + 1"
    using m s6 by (simp add: example_clip_video)
  from C9_progress[of "example_clip 1" ?v 1 1 6 ?p True False] h
  obtain r n where r: "startAnalysis ?p True False (example_clip 1) = Some r"
    and n: "passes 1 n"
    and pl: "progressLog r = progressLog (example_clip 1) @ map (reported 6) [1..<Suc n]"
    and pg: "progress r = reported 6 n"
    and near: "\<forall>k\<le>n. \<bar>fmul (fdiv (real k) (real_of_int 6)) 100
                     - 100 * real k / real_of_int 6\<bar> \<le> 2 powi (- 39) \<and>
                 \<bar>reported 6 k - round (100 * real k / real_of_int 6)\<bar> \<le> 1"
    by blast
  from passes_unique[OF n passes_values(4)] have n6: "n = 6" .
  have pl': "progressLog r = [17, 33, 50, 67, 83, 100]"
    unfolding pl n6 l6 example_clip_video by simp
  have pg': "progress r = 100" unfolding pg n6 r66 ..
  have le: "(3::nat) \<le> 6" by simp
  from near[unfolded n6] le
  have nr: "\<bar>reported 6 3 - round (100 * real 3 / real_of_int 6)\<bar> \<le> 1" by blast
  have hh: "visibleVideo (example_clip (1 / 2)) = Some ?vh \<and>
     (duration ?vh = Seconds (1 / 2) \<and> (0::real) < 1 / 2 \<and> 1 / 2 = min (1 / 2) MAX_DEMO_DURATION \<or>
      duration ?vh = Infinity \<and> 1 / 2 = MAX_DEMO_DURATION) \<and>
     (4::int) = \<lceil>fdiv (1 / 2) ANALYSIS_INTERVAL\<rceil> + 1"
    using mh s4 by (simp add: example_clip_video)
  from C9_progress[of "example_clip (1 / 2)" ?vh "1 / 2" "1 / 2" 4 ?p True False] hh
  obtain rh nh where rh: "startAnalysis ?p True False (example_clip (1 / 2)) = Some rh"
    and nh: "passes (1 / 2) nh"
    and plh: "progressLog rh = progressLog (example_clip (1 / 2)) @ map (reported 4) [1..<Suc nh]"
    and pgh: "progress rh = reported 4 nh"
    by blast
  from passes_unique[OF nh passes_values(2)] have n3: "nh = 3" .
  have plh': "progressLog rh = [25, 50, 75]"
    unfolding plh n3 l4 example_clip_video by simp
  have pgh': "progress rh = 75" unfolding pgh n3 r43 ..
  have c1: "map_option progressLog (startAnalysis ?p True False (example_clip 1))
              = Some [17, 33, 50, 67, 83, 100]"
    and c2: "map_option progress (startAnalysis ?p True False (example_clip 1)) = Some 100"
    using r pl' pg' by simp_all
  have c3: "map_option progressLog (startAnalysis ?p True False (example_clip (1 / 2)))
              = Some [25, 50, 75]"
    and c4: "map_option progress (startAnalysis ?p True False (example_clip (1 / 2))) = Some 75"
    using rh plh' pgh' by simp_all
  have pos: "(0::real) < 1" "(0::real) < 1 / 2" by simp_all
  from example_clip_video(1,2)[of 1] example_clip_video(1,2)[of "1 / 2"]
    pos m s6 c1 c2 le nr mh s4 c3 c4
  show ?thesis by blast
qed

text \<open>
  Claim C9 as stated fails for a video of 7.75 s: there are 40 steps, and after the 23rd
  the scheduler reports 57, where \<open>round (100 * 23 / 40)\<close> is 58. The double quotient
  \<open>23 / 40\<close> times 100 is the double just below 57.5.
\<close>

theorem C9_rounded_progress_counterexample:
  "visibleVideo (example_clip (31 / 4))
     = Some (example_video\<lparr>currentTime := 0, duration := Seconds (31 / 4)\<rparr>) \<and>
   duration (example_video\<lparr>currentTime := 0, duration := Seconds (31 / 4)\<rparr>) = Seconds (31 / 4) \<and>
   min (31 / 4) MAX_DEMO_DURATION = (31 / 4 :: real) \<and>
   \<lceil>fdiv (31 / 4) ANALYSIS_INTERVAL\<rceil> + 1 = 40 \<and>
   map_option (length \<circ> progressLog)
       (startAnalysis (\<lambda>t. Some []) True False (example_clip (31 / 4))) = Some 40 \<and>
   map_option (\<lambda>r. progressLog r ! 22)
       (startAnalysis (\<lambda>t. Some []) True False (example_clip (31 / 4))) = Some 57 \<and>
   fmul (fdiv 23 40) 100 = 8092405580431359 / 140737488355328 \<and>
   (8092405580431359 / 140737488355328 :: real) < 115 / 2 \<and>
   round (100 * real 23 / real_of_int 40) = 58"
proof -
  let ?p = "\<lambda>t :: real. Some ([] :: SegmentedClass list)"
  let ?v = "example_video\<lparr>currentTime := 0, duration := Seconds (31 / 4)\<rparr>"
  have m: "min (31 / 4) MAX_DEMO_DURATION = (31 / 4 :: real)" by (simp add: MAX_DEMO_DURATION_def)
  have g: "duration ?v = Seconds (31 / 4) \<and> (0::real) < 31 / 4 \<and>
             31 / 4 = min (31 / 4) MAX_DEMO_DURATION \<or>
           duration ?v = Infinity \<and> 31 / 4 = MAX_DEMO_DURATION"
    using m by simp
  have p40: "passes (31 / 4) (Suc 39)"
    by (rule passes_exact) (simp_all add: pow2_values)
  have st: "\<lceil>fdiv (31 / 4) ANALYSIS_INTERVAL\<rceil> + 1 = (40::int)"
    using total_steps_values(4) by (simp add: total_steps_def)
  note run = startAnalysis_run[OF example_clip_video(1) g p40]
  have f: "progressLog (togglePlay True False
                 (pass_result ?p ?v (31 / 4) (Suc 39) (example_clip (31 / 4))))
             = progressLog (example_clip (31 / 4))
                 @ map (\<lambda>j. reported (total_steps (31 / 4)) (j + 1)) [0..<Suc 39]"
    by (simp only: togglePlay_frame pass_result_fields)
  have "map_option progressLog (startAnalysis ?p True False (example_clip (31 / 4)))
          = Some (progressLog (example_clip (31 / 4))
                    @ map (\<lambda>j. reported (total_steps (31 / 4)) (j + 1)) [0..<Suc 39])"
    unfolding run option.map f ..
  then have pl: "map_option progressLog (startAnalysis ?p True False (example_clip (31 / 4)))
              = Some (map (\<lambda>j. reported 40 (j + 1)) [0..<Suc 39])"
    by (simp only: total_steps_values example_clip_video append_Nil)
  have len: "map_option (length \<circ> progressLog)
       (startAnalysis ?p True False (example_clip (31 / 4))) = Some 40"
    using pl by (auto simp add: map_option_case split: option.splits)
  have "map (\<lambda>j. reported 40 (j + 1)) [0..<Suc 39] ! 22 = reported 40 23"
    by (simp del: upt_Suc)
  then have at: "map_option (\<lambda>r. progressLog r ! 22)
       (startAnalysis ?p True False (example_clip (31 / 4))) = Some 57"
    using pl by (auto simp add: map_option_case reported_values split: option.splits)
  have q: "fmul (fdiv 23 40) 100 = 8092405580431359 / 140737488355328"
    by (simp only: quotient_23_40 product_23_40)
  have lt: "(8092405580431359 / 140737488355328 :: real) < 115 / 2" by simp
  have ex: "round (100 * real 23 / real_of_int 40) = 58" by (simp add: round_def)
  from example_clip_video(1,2)[of "31 / 4"] m st len at q lt ex
  show ?thesis by blast
qed

text \<open>
  Claim C10, as amended. For a duration that passes the guard, the pass ends with the
  state \<open>complete\<close>, the video paused at time 0 and \<open>isPlaying\<close> false, and then calls the play
  toggle. When the toggle sees \<open>isPlaying\<close> false and the promise of \<^verbatim>\<open>video.play()\<close> resolves,
  the video plays from 0, \<open>isPlaying\<close> is set and one playback tick is scheduled. When the
  promise is rejected the error is logged, the video stays paused and nothing is
  scheduled. When the toggle sees a stale \<open>isPlaying\<close> true it pauses instead.
\<close>

theorem C10_auto_play:
  "visibleVideo s = Some video \<and>
   (duration video = Seconds d \<and> 0 < d \<and> e = min d MAX_DEMO_DURATION \<or>
    duration video = Infinity \<and> e = MAX_DEMO_DURATION) \<longrightarrow>
     (\<exists>pass r.
        analysisPass p video e s = Some pass \<and>
        startAnalysis p pr seen s = Some r \<and>
        r = togglePlay pr seen pass \<and>
        analysisStatus pass = complete \<and>
        visibleVideo pass = Some (video\<lparr>paused := True, currentTime := 0\<rparr>) \<and>
        \<not> isPlaying pass \<and>
        analysisStatus r = complete \<and>
        (\<not> seen \<and> pr \<longrightarrow>
           isPlaying r \<and>
           visibleVideo r = Some (video\<lparr>paused := False, currentTime := 0\<rparr>) \<and>
           rafRequests r = rafRequests s + 1) \<and>
        (\<not> seen \<and> \<not> pr \<longrightarrow>
           \<not> isPlaying r \<and>
           visibleVideo r = Some (video\<lparr>paused := True, currentTime := 0\<rparr>) \<and>
           rafRequests r = rafRequests s \<and>
           last (errorLog r) = Play_failed) \<and>
        (seen \<longrightarrow>
           \<not> isPlaying r \<and>
           visibleVideo r = Some (video\<lparr>paused := True, currentTime := 0\<rparr>) \<and>
           rafRequests r = rafRequests s - 1))"
proof (intro impI)
  assume a: "visibleVideo s = Some video \<and>
   (duration video = Seconds d \<and> 0 < d \<and> e = min d MAX_DEMO_DURATION \<or>
    duration video = Infinity \<and> e = MAX_DEMO_DURATION)"
  then have v: "visibleVideo s = Some video"
    and g: "duration video = Seconds d \<and> 0 < d \<and> e = min d MAX_DEMO_DURATION \<or>
            duration video = Infinity \<and> e = MAX_DEMO_DURATION"
    by blast+
  from run_passes[OF g] obtain n where n: "passes e n" by blast
  define pass where "pass = pass_result p video e n s"
  define r where "r = togglePlay pr seen pass"
  let ?v4 = "video\<lparr>paused := True, currentTime := 0\<rparr>"
  have ap: "analysisPass p video e s = Some pass"
    unfolding pass_def by (rule analysisPass_result[OF n])
  have run: "startAnalysis p pr seen s = Some r"
    unfolding r_def pass_def by (rule startAnalysis_run[OF v g n])
  have v4: "visibleVideo pass = Some ?v4" unfolding pass_def by (rule pass_result_video)
  have st4: "analysisStatus pass = complete" and np4: "\<not> isPlaying pass"
    and raf4: "rafRequests pass = rafRequests s"
    unfolding pass_def by (simp_all only: pass_result_fields simp_thms)
  have st: "analysisStatus r = complete"
    unfolding r_def by (simp add: togglePlay_frame st4)
  have resolved: "\<not> seen \<and> pr \<longrightarrow>
        isPlaying r \<and>
        visibleVideo r = Some (video\<lparr>paused := False, currentTime := 0\<rparr>) \<and>
        rafRequests r = rafRequests s + 1"
  proof
    assume c: "\<not> seen \<and> pr"
    let ?v5 = "video\<lparr>paused := False, currentTime := 0\<rparr>"
    let ?s5 = "pass\<lparr>visibleVideo := Some (?v4\<lparr>paused := False\<rparr>), isPlaying := True\<rparr>"
    have eq: "r = playbackLoop ?s5"
      unfolding r_def using c togglePlay_resolved[OF v4] by simp
    have v5: "visibleVideo ?s5 = Some ?v5" by simp
    have np: "\<not> paused ?v5" by simp
    have ne: "\<not> ended ?v5" using g by (auto simp add: ended_def)
    have lt: "currentTime ?v5 < MAX_DEMO_DURATION" by (simp add: MAX_DEMO_DURATION_def)
    from playbackLoop_start[OF v5 np ne lt]
    show "isPlaying r \<and>
        visibleVideo r = Some (video\<lparr>paused := False, currentTime := 0\<rparr>) \<and>
        rafRequests r = rafRequests s + 1"
      unfolding eq using raf4 by simp
  qed
  have rejected: "\<not> seen \<and> \<not> pr \<longrightarrow>
        \<not> isPlaying r \<and>
        visibleVideo r = Some (video\<lparr>paused := True, currentTime := 0\<rparr>) \<and>
        rafRequests r = rafRequests s \<and>
        last (errorLog r) = Play_failed"
  proof
    assume c: "\<not> seen \<and> \<not> pr"
    have eq: "r = pass\<lparr>errorLog := errorLog pass @ [Play_failed]\<rparr>"
      unfolding r_def using c togglePlay_rejected[OF v4] by simp
    show "\<not> isPlaying r \<and>
        visibleVideo r = Some (video\<lparr>paused := True, currentTime := 0\<rparr>) \<and>
        rafRequests r = rafRequests s \<and>
        last (errorLog r) = Play_failed"
      unfolding eq using v4 np4 raf4 by simp
  qed
  have stale: "seen \<longrightarrow>
        \<not> isPlaying r \<and>
        visibleVideo r = Some (video\<lparr>paused := True, currentTime := 0\<rparr>) \<and>
        rafRequests r = rafRequests s - 1"
  proof
    assume c: seen
    have eq: "r = pass\<lparr>visibleVideo := Some (?v4\<lparr>paused := True\<rparr>), isPlaying := False,
                       rafRequests := rafRequests pass - 1\<rparr>"
      unfolding r_def using c togglePlay_seen[OF v4] by simp
    show "\<not> isPlaying r \<and>
        visibleVideo r = Some (video\<lparr>paused := True, currentTime := 0\<rparr>) \<and>
        rafRequests r = rafRequests s - 1"
      unfolding eq using raf4 by simp
  qed
  from ap run r_def v4 st4 np4 st resolved rejected stale
  show "\<exists>pass r.
        analysisPass p video e s = Some pass \<and>
        startAnalysis p pr seen s = Some r \<and>
        r = togglePlay pr seen pass \<and>
        analysisStatus pass = complete \<and>
        visibleVideo pass = Some (video\<lparr>paused := True, currentTime := 0\<rparr>) \<and>
        \<not> isPlaying pass \<and>
        analysisStatus r = complete \<and>
        (\<not> seen \<and> pr \<longrightarrow>
           isPlaying r \<and>
           visibleVideo r = Some (video\<lparr>paused := False, currentTime := 0\<rparr>) \<and>
           rafRequests r = rafRequests s + 1) \<and>
        (\<not> seen \<and> \<not> pr \<longrightarrow>
           \<not> isPlaying r \<and>
           visibleVideo r = Some (video\<lparr>paused := True, currentTime := 0\<rparr>) \<and>
           rafRequests r = rafRequests s \<and>
           last (errorLog r) = Play_failed) \<and>
        (seen \<longrightarrow>
           \<not> isPlaying r \<and>
           visibleVideo r = Some (video\<lparr>paused := True, currentTime := 0\<rparr>) \<and>
           rafRequests r = rafRequests s - 1)"
    by blast
qed

theorem C10_auto_play_witness:
  "visibleVideo (example_clip 1) = Some (example_video\<lparr>currentTime := 0, duration := Seconds 1\<rparr>) \<and>
   duration (example_video\<lparr>currentTime := 0, duration := Seconds 1\<rparr>) = Seconds 1 \<and>
   (0::real) < 1 \<and> (1::real) = min 1 MAX_DEMO_DURATION \<and>
   map_option analysisStatus (startAnalysis (\<lambda>t. Some []) True False (example_clip 1))
     = Some complete \<and>
   map_option isPlaying (startAnalysis (\<lambda>t. Some []) True False (example_clip 1)) = Some True \<and>
   map_option (map_option paused \<circ> visibleVideo)
     (startAnalysis (\<lambda>t. Some []) True False (example_clip 1)) = Some (Some False) \<and>
   map_option (map_option currentTime \<circ> visibleVideo)
     (startAnalysis (\<lambda>t. Some []) True False (example_clip 1)) = Some (Some 0) \<and>
   map_option rafRequests (startAnalysis (\<lambda>t. Some []) True False (example_clip 1)) = Some 1 \<and>
   map_option analysisStatus (startAnalysis example_failing False False (example_clip 1))
     = Some complete \<and>
   map_option isPlaying (startAnalysis example_failing False False (example_clip 1))
     = Some False \<and>
   map_option rafRequests (startAnalysis example_failing False False (example_clip 1))
     = Some 0 \<and>
   map_option (last \<circ> errorLog) (startAnalysis example_failing False False (example_clip 1))
     = Some Play_failed \<and>
   map_option isPlaying (startAnalysis example_failing True True (example_clip 1))
     = Some False \<and>
   map_option (map_option paused \<circ> visibleVideo)
     (startAnalysis example_failing True True (example_clip 1)) = Some (Some True)"
proof -
  let ?v = "example_video\<lparr>currentTime := 0, duration := Seconds 1\<rparr>"
  let ?p = "\<lambda>t :: real. Some ([] :: SegmentedClass list)"
  have m: "(1::real) = min 1 MAX_DEMO_DURATION" by (simp add: MAX_DEMO_DURATION_def)
  have pos: "(0::real) < 1" by simp
  have h: "visibleVideo (example_clip 1) = Some ?v \<and>
     (duration ?v = Seconds 1 \<and> (0::real) < 1 \<and> 1 = min 1 MAX_DEMO_DURATION \<or>
      duration ?v = Infinity \<and> 1 = MAX_DEMO_DURATION)"
    using m by (simp add: example_clip_video)
  have c: "\<not> False \<and> True" and rj: "\<not> False \<and> \<not> False" and t: True by simp_all
  from C10_auto_play[of "example_clip 1" ?v 1 1 ?p True False] h c
  obtain r1 where r1: "startAnalysis ?p True False (example_clip 1) = Some r1"
    "analysisStatus r1 = complete" "isPlaying r1"
    "visibleVideo r1 = Some (?v\<lparr>paused := False, currentTime := 0\<rparr>)"
    "rafRequests r1 = rafRequests (example_clip 1) + 1"
    by blast
  from C10_auto_play[of "example_clip 1" ?v 1 1 example_failing False False] h rj
  obtain r2 where r2: "startAnalysis example_failing False False (example_clip 1) = Some r2"
    "analysisStatus r2 = complete" "\<not> isPlaying r2"
    "rafRequests r2 = rafRequests (example_clip 1)"
    "last (errorLog r2) = Play_failed"
    by blast
  from C10_auto_play[of "example_clip 1" ?v 1 1 example_failing True True] h t
  obtain r3 where r3: "startAnalysis example_failing True True (example_clip 1) = Some r3"
    "\<not> isPlaying r3"
    "visibleVideo r3 = Some (?v\<lparr>paused := True, currentTime := 0\<rparr>)"
    by blast
  have a1: "map_option analysisStatus (startAnalysis ?p True False (example_clip 1))
              = Some complete"
    and a2: "map_option isPlaying (startAnalysis ?p True False (example_clip 1)) = Some True"
    and a3: "map_option (map_option paused \<circ> visibleVideo)
               (startAnalysis ?p True False (example_clip 1)) = Some (Some False)"
    and a4: "map_option (map_option currentTime \<circ> visibleVideo)
               (startAnalysis ?p True False (example_clip 1)) = Some (Some 0)"
    and a5: "map_option rafRequests (startAnalysis ?p True False (example_clip 1)) = Some 1"
    using r1 by (simp_all add: example_clip_video)
  have b1: "map_option analysisStatus (startAnalysis example_failing False False (example_clip 1))
              = Some complete"
    and b2: "map_option isPlaying (startAnalysis example_failing False False (example_clip 1))
              = Some False"
    and b3: "map_option rafRequests (startAnalysis example_failing False False (example_clip 1))
              = Some 0"
    and b4: "map_option (last \<circ> errorLog)
               (startAnalysis example_failing False False (example_clip 1)) = Some Play_failed"
    using r2 by (simp_all add: example_clip_video)
  have c1: "map_option isPlaying (startAnalysis example_failing True True (example_clip 1))
              = Some False"
    and c2: "map_option (map_option paused \<circ> visibleVideo)
               (startAnalysis example_failing True True (example_clip 1)) = Some (Some True)"
    using r3 by simp_all
  from example_clip_video(1,2)[of 1] pos m a1 a2 a3 a4 a5 b1 b2 b3 b4 c1 c2
  show ?thesis by blast
qed

text \<open>
  Claim C10 as stated fails when the promise of \<^verbatim>\<open>video.play()\<close> is rejected: the analysis
  is complete, yet the video is paused, \<open>isPlaying\<close> is false and no playback tick is
  scheduled; the rejection is only logged.
\<close>

theorem C10_play_rejected_counterexample:
  "visibleVideo (example_clip 1) = Some (example_video\<lparr>currentTime := 0, duration := Seconds 1\<rparr>) \<and>
   map_option analysisStatus (startAnalysis (\<lambda>t. Some []) False False (example_clip 1))
     = Some complete \<and>
   map_option isPlaying (startAnalysis (\<lambda>t. Some []) False False (example_clip 1))
     = Some False \<and>
   map_option (map_option paused \<circ> visibleVideo)
     (startAnalysis (\<lambda>t. Some []) False False (example_clip 1)) = Some (Some True) \<and>
   map_option rafRequests (startAnalysis (\<lambda>t. Some []) False False (example_clip 1)) = Some 0 \<and>
   map_option errorLog (startAnalysis (\<lambda>t. Some []) False False (example_clip 1))
     = Some [Play_failed]"
proof -
  let ?v = "example_video\<lparr>currentTime := 0, duration := Seconds 1\<rparr>"
  let ?p = "\<lambda>t :: real. Some ([] :: SegmentedClass list)"
  define pass where "pass = pass_result ?p ?v 1 6 (example_clip 1)"
  have g: "duration ?v = Seconds 1 \<and> (0::real) < 1 \<and> 1 = min 1 MAX_DEMO_DURATION \<or>
      duration ?v = Infinity \<and> 1 = MAX_DEMO_DURATION"
    by (simp add: MAX_DEMO_DURATION_def)
  have run: "startAnalysis ?p False False (example_clip 1) = Some (togglePlay False False pass)"
    unfolding pass_def by (rule startAnalysis_run[OF example_clip_video(1) g passes_values(4)])
  have vp: "visibleVideo pass = Some (?v\<lparr>paused := True, currentTime := 0\<rparr>)"
    unfolding pass_def by (rule pass_result_video)
  have f: "analysisStatus pass = complete" "isPlaying pass = False"
    "rafRequests pass = rafRequests (example_clip 1)"
    "errorLog pass = errorLog (example_clip 1)
       @ map Analysis_failed (filter (\<lambda>t. ?p t = None) (map accumulated [0..<6]))"
    unfolding pass_def by (simp_all only: pass_result_fields)
  have eq: "togglePlay False False pass = pass\<lparr>errorLog := errorLog pass @ [Play_failed]\<rparr>"
    by (rule togglePlay_rejected[OF vp])
  have c1: "map_option analysisStatus (startAnalysis ?p False False (example_clip 1))
              = Some complete"
    and c2: "map_option isPlaying (startAnalysis ?p False False (example_clip 1)) = Some False"
    and c3: "map_option (map_option paused \<circ> visibleVideo)
               (startAnalysis ?p False False (example_clip 1)) = Some (Some True)"
    and c4: "map_option rafRequests (startAnalysis ?p False False (example_clip 1)) = Some 0"
    and c5: "map_option errorLog (startAnalysis ?p False False (example_clip 1))
               = Some [Play_failed]"
    unfolding run eq using vp f by (simp_all add: example_clip_video)
  from example_clip_video(1)[of 1] c1 c2 c3 c4 c5 show ?thesis by blast
qed

end
